(* ===== verification/Go_Prelude.thy ===== *)
theory Go_Prelude
  imports Main "HOL-Library.AList" "HOL-Library.List_Lexorder" "HOL-Library.Char_ord"
    "HOL-Library.Multiset"
begin

text \<open>
  What every component shares: the model of the Go language and of the parts of its standard
  library the simulator uses.

  \<^item> \<open>int\<close> and \<open>int64\<close> are HOL integers; \<open>wrap64\<close> writes two's complement
    wrap-around out where the source relies on it or checks for it.
  \<^item> \<open>time.Time\<close> is a number of nanoseconds since Go's zero time, so that
    \<open>t.IsZero()\<close> is \<open>t = 0\<close>; \<open>time.Duration\<close> is a number of nanoseconds and
    \<open>Time.Sub\<close> saturates at the ends of \<open>int64\<close>, as the library documents.
  \<^item> A Go string is a list of bytes; \<open>strings.TrimSpace\<close> and \<open>strings.ToLower\<close> are
    modelled on ASCII.
  \<^item> A Go map is an association list with distinct keys. The order of the list is the order in
    which a \<open>range\<close> over the map visits it, which Go leaves open: theorems are stated for
    every list. A method that runs under a mutex is one atomic function.
\<close>

named_theorems inv_intros \<open>preservation of component invariants\<close>

section \<open>Machine integers\<close>

definition wrap64 :: "int \<Rightarrow> int" where
  "wrap64 n = (n + 2 ^ 63) mod 2 ^ 64 - 2 ^ 63"

abbreviation max_int64 :: int where
  "max_int64 \<equiv> 9223372036854775807"

abbreviation min_int64 :: int where
  "min_int64 \<equiv> - 9223372036854775808"

lemma wrap64_bounds: "min_int64 \<le> wrap64 n \<and> wrap64 n \<le> max_int64"
proof -
  have "0 \<le> (n + 2 ^ 63) mod 2 ^ 64" "(n + 2 ^ 63) mod 2 ^ 64 < 2 ^ 64"
    by simp_all
  then show ?thesis by (simp add: wrap64_def)
qed

lemma wrap64_id: "min_int64 \<le> n \<Longrightarrow> n \<le> max_int64 \<Longrightarrow> wrap64 n = n"
  by (simp add: wrap64_def)

text \<open>Go's integer division and remainder truncate towards zero.\<close>

definition go_div :: "int \<Rightarrow> int \<Rightarrow> int" where
  "go_div a b = sgn a * sgn b * (\<bar>a\<bar> div \<bar>b\<bar>)"

definition go_mod :: "int \<Rightarrow> int \<Rightarrow> int" where
  "go_mod a b = a - b * go_div a b"

lemma go_mod_nonneg: "0 \<le> a \<Longrightarrow> 0 < b \<Longrightarrow> go_mod a b = a mod b"
  by (cases "a = 0") (auto simp: go_mod_def go_div_def minus_mult_div_eq_mod)

lemma go_mod_abs_less: "0 < b \<Longrightarrow> \<bar>go_mod a b\<bar> < b"
proof -
  assume b: "0 < b"
  show ?thesis
  proof (cases "0 \<le> a")
    case True
    with b show ?thesis by (simp add: go_mod_nonneg)
  next
    case False
    with b have "go_mod a b = - ((- a) mod b)"
      by (simp add: go_mod_def go_div_def minus_mult_div_eq_mod [symmetric])
    moreover have "0 \<le> (- a) mod b" "(- a) mod b < b" using b by simp_all
    ultimately show ?thesis by simp
  qed
qed

section \<open>Time\<close>

type_synonym gotime = int
type_synonym duration = int

definition is_zero_time :: "gotime \<Rightarrow> bool" where
  "is_zero_time t \<longleftrightarrow> t = 0"

definition time_sub :: "gotime \<Rightarrow> gotime \<Rightarrow> duration" where
  "time_sub a b = max min_int64 (min max_int64 (a - b))"

abbreviation nanos_per_ms :: int where
  "nanos_per_ms \<equiv> 1000000"

abbreviation nanos_per_s :: int where
  "nanos_per_s \<equiv> 1000000000"

lemma time_sub_exact: "\<bar>a - b\<bar> \<le> max_int64 \<Longrightarrow> time_sub a b = a - b"
  by (simp add: time_sub_def)

lemma time_sub_mono: "a \<le> a' \<Longrightarrow> time_sub a b \<le> time_sub a' b"
  by (simp add: time_sub_def)

lemma time_sub_pos_iff: "0 < time_sub a b \<longleftrightarrow> b < a"
  by (auto simp: time_sub_def)

lemma time_sub_nonneg_iff: "0 \<le> time_sub a b \<longleftrightarrow> b \<le> a"
  by (auto simp: time_sub_def)

section \<open>Strings\<close>

definition is_space :: "char \<Rightarrow> bool" where
  "is_space c \<longleftrightarrow> c \<in> {CHR 0x09, CHR 0x0A, CHR 0x0B, CHR 0x0C, CHR 0x0D, CHR 0x20}"

definition trim_space :: "string \<Rightarrow> string" where
  "trim_space s = rev (dropWhile is_space (rev (dropWhile is_space s)))"

definition lower_char :: "char \<Rightarrow> char" where
  "lower_char c = (if 65 \<le> (of_char c :: nat) \<and> (of_char c :: nat) \<le> 90 then char_of (of_char c + (32 :: nat)) else c)"

definition to_lower :: "string \<Rightarrow> string" where
  "to_lower s = map lower_char s"

definition equal_fold :: "string \<Rightarrow> string \<Rightarrow> bool" where
  "equal_fold a b \<longleftrightarrow> to_lower a = to_lower b"

definition has_prefix :: "string \<Rightarrow> string \<Rightarrow> bool" where
  "has_prefix s p \<longleftrightarrow> take (length p) s = p"

text \<open>\<open>strings.SplitN(s, ":", 2)\<close> where the separator occurs: what is before its first
  occurrence and what is after it.\<close>

definition split_first :: "char \<Rightarrow> string \<Rightarrow> string \<times> string" where
  "split_first c s = (takeWhile (\<lambda>x. x \<noteq> c) s, tl (dropWhile (\<lambda>x. x \<noteq> c) s))"

lemma split_first_append: "c \<notin> set a \<Longrightarrow> split_first c (a @ c # b) = (a, b)"
  by (induction a) (auto simp: split_first_def)

lemma split_first_inverse: "c \<in> set s \<Longrightarrow> split_first c s = (a, b) \<Longrightarrow> a @ c # b = s \<and> c \<notin> set a"
proof -
  assume c: "c \<in> set s" and eq: "split_first c s = (a, b)"
  from c have "dropWhile (\<lambda>x. x \<noteq> c) s \<noteq> []" by simp
  then obtain x xs where d: "dropWhile (\<lambda>x. x \<noteq> c) s = x # xs"
    by (cases "dropWhile (\<lambda>x. x \<noteq> c) s") auto
  then have "x = c" using hd_dropWhile [of "\<lambda>x. x \<noteq> c" s] by auto
  with d eq have "a = takeWhile (\<lambda>x. x \<noteq> c) s" "b = xs" by (simp_all add: split_first_def)
  with d \<open>x = c\<close> show ?thesis
    using takeWhile_dropWhile_id [of "\<lambda>x. x \<noteq> c" s] set_takeWhileD by fastforce
qed

definition trimmed :: "string \<Rightarrow> bool" where
  "trimmed s \<longleftrightarrow> s \<noteq> [] \<and> \<not> is_space (hd s) \<and> \<not> is_space (last s)"

lemma trim_space_trimmed: "trimmed s \<Longrightarrow> trim_space s = s"
proof -
  assume t: "trimmed s"
  then obtain x xs where s: "s = x # xs" by (cases s) (auto simp: trimmed_def)
  with t have "dropWhile is_space s = s" by (simp add: trimmed_def)
  moreover have "dropWhile is_space (rev s) = rev s"
  proof -
    obtain ys y where "s = ys @ [y]" using s by (metis list.distinct(1) rev_exhaust)
    with t show ?thesis by (simp add: trimmed_def)
  qed
  ultimately show ?thesis by (simp add: trim_space_def)
qed

lemma trim_space_result: "trim_space s = [] \<or> trimmed (trim_space s)"
proof (cases "trim_space s = []")
  case False
  let ?d = "dropWhile is_space s"
  let ?r = "dropWhile is_space (rev ?d)"
  have ts: "trim_space s = rev ?r" by (simp add: trim_space_def)
  with False have r: "?r \<noteq> []" by simp
  then have "\<not> is_space (hd ?r)" using hd_dropWhile by blast
  moreover have "\<not> is_space (last ?r)"
  proof -
    have "?d \<noteq> []"
    proof
      assume "?d = []"
      then have "?r = []" by (simp only: rev.simps dropWhile.simps)
      with r show False by simp
    qed
    then have "\<not> is_space (hd ?d)" using hd_dropWhile by blast
    moreover from r have "last ?r = last (rev ?d)"
      by (metis last_appendR takeWhile_dropWhile_id)
    moreover from \<open>?d \<noteq> []\<close> have "last (rev ?d) = hd ?d" by (simp add: last_rev)
    ultimately show ?thesis by simp
  qed
  ultimately show ?thesis using False ts r by (simp add: trimmed_def hd_rev last_rev)
qed simp

lemma trim_space_idem: "trim_space (trim_space s) = trim_space s"
  using trim_space_result [of s]
proof
  assume "trim_space s = []"
  then show ?thesis by (simp only: trim_space_def [of "[]"]) simp
qed (rule trim_space_trimmed)

section \<open>Decimal numerals\<close>

text \<open>\<open>strconv.Itoa\<close> and the verb \<open>%d\<close>.\<close>

definition digit_char :: "nat \<Rightarrow> char" where
  "digit_char d = char_of (48 + d)"

definition is_digit :: "char \<Rightarrow> bool" where
  "is_digit c \<longleftrightarrow> 48 \<le> (of_char c :: nat) \<and> (of_char c :: nat) \<le> 57"

fun nat_to_dec :: "nat \<Rightarrow> string" where
  "nat_to_dec n = (if n < 10 then [digit_char n] else nat_to_dec (n div 10) @ [digit_char (n mod 10)])"

declare nat_to_dec.simps [simp del]

definition itoa :: "int \<Rightarrow> string" where
  "itoa n = (if n < 0 then CHR ''-'' # nat_to_dec (nat (- n)) else nat_to_dec (nat n))"

lemma is_digit_digit_char: "d < 10 \<Longrightarrow> is_digit (digit_char d)"
  by (simp add: is_digit_def digit_char_def of_char_of)

lemma digit_char_inj: "d < 10 \<Longrightarrow> e < 10 \<Longrightarrow> digit_char d = digit_char e \<Longrightarrow> d = e"
proof -
  assume "d < 10" "e < 10" "digit_char d = digit_char e"
  then have "(of_char (digit_char d) :: nat) = of_char (digit_char e)" by simp
  with \<open>d < 10\<close> \<open>e < 10\<close> show ?thesis by (simp add: digit_char_def of_char_of)
qed

lemma nat_to_dec_digits: "\<forall>c \<in> set (nat_to_dec n). is_digit c"
proof (induction n rule: nat_to_dec.induct)
  case (1 n)
  then show ?case
    by (subst nat_to_dec.simps) (auto simp: is_digit_digit_char)
qed

lemma nat_to_dec_nonempty: "nat_to_dec n \<noteq> []"
  by (subst nat_to_dec.simps) simp

lemma nat_to_dec_inj: "nat_to_dec m = nat_to_dec n \<Longrightarrow> m = n"
proof (induction m arbitrary: n rule: nat_to_dec.induct)
  case (1 m)
  show ?case
  proof (cases "m < 10")
    case True
    then have "nat_to_dec m = [digit_char m]" by (subst nat_to_dec.simps) simp
    with "1.prems" have n: "nat_to_dec n = [digit_char m]" by simp
    then have "n < 10"
      using nat_to_dec_nonempty [of "n div 10"]
      by (subst (asm) nat_to_dec.simps) (auto split: if_splits)
    with n True show ?thesis
      by (subst (asm) nat_to_dec.simps) (auto dest: digit_char_inj)
  next
    case False
    then have m: "nat_to_dec m = nat_to_dec (m div 10) @ [digit_char (m mod 10)]"
      by (subst nat_to_dec.simps) simp
    have "\<not> n < 10"
    proof
      assume "n < 10"
      then have "nat_to_dec n = [digit_char n]" by (subst nat_to_dec.simps) simp
      with m "1.prems" nat_to_dec_nonempty [of "m div 10"] show False by simp
    qed
    then have n: "nat_to_dec n = nat_to_dec (n div 10) @ [digit_char (n mod 10)]"
      by (subst nat_to_dec.simps) simp
    from m n "1.prems" have "nat_to_dec (m div 10) = nat_to_dec (n div 10)"
      and d: "digit_char (m mod 10) = digit_char (n mod 10)" by simp_all
    with "1.IH" False have "m div 10 = n div 10" by simp
    moreover from d have "m mod 10 = n mod 10" by (simp add: digit_char_inj)
    ultimately show ?thesis by (metis div_mult_mod_eq)
  qed
qed

section \<open>Go maps as association lists\<close>

type_synonym ('k, 'v) gomap = "('k \<times> 'v) list"

abbreviation gm_get :: "('k, 'v) gomap \<Rightarrow> 'k \<Rightarrow> 'v option" where
  "gm_get m k \<equiv> map_of m k"

abbreviation gm_put :: "'k \<Rightarrow> 'v \<Rightarrow> ('k, 'v) gomap \<Rightarrow> ('k, 'v) gomap" where
  "gm_put \<equiv> AList.update"

abbreviation gm_del :: "'k \<Rightarrow> ('k, 'v) gomap \<Rightarrow> ('k, 'v) gomap" where
  "gm_del \<equiv> AList.delete"

abbreviation gm_keys :: "('k, 'v) gomap \<Rightarrow> 'k list" where
  "gm_keys m \<equiv> map fst m"

abbreviation gm_ok :: "('k, 'v) gomap \<Rightarrow> bool" where
  "gm_ok m \<equiv> distinct (map fst m)"

text \<open>An index expression \<open>m[k]\<close> reads the zero value of the type where the key is absent.\<close>

definition gm_get_or :: "'v \<Rightarrow> ('k, 'v) gomap \<Rightarrow> 'k \<Rightarrow> 'v" where
  "gm_get_or d m k = (case map_of m k of Some v \<Rightarrow> v | None \<Rightarrow> d)"

lemma gm_get_put [simp]: "gm_get (gm_put k v m) k' = (if k' = k then Some v else gm_get m k')"
  by (simp add: update_conv)

lemma gm_get_del [simp]: "gm_get (gm_del k m) k' = (if k' = k then None else gm_get m k')"
  by (simp add: AList.delete_conv)

lemma gm_ok_put [simp]: "gm_ok m \<Longrightarrow> gm_ok (gm_put k v m)"
  by (simp add: distinct_update)

lemma gm_ok_del [simp]: "gm_ok m \<Longrightarrow> gm_ok (gm_del k m)"
  by (simp add: AList.distinct_delete)

lemma gm_keys_put [simp]: "fst ` set (gm_put k v m) = insert k (fst ` set m)"
  by (simp add: dom_update)

lemma gm_keys_del [simp]: "fst ` set (gm_del k m) = fst ` set m - {k}"
  by (simp add: AList.delete_keys flip: set_map)

lemma gm_get_None_iff: "gm_get m k = None \<longleftrightarrow> k \<notin> fst ` set m"
  by (rule map_of_eq_None_iff)

lemma length_gm_put: "length (gm_put k v m) = (if k \<in> fst ` set m then length m else Suc (length m))"
  by (induction m) auto

lemma length_gm_del_le: "length (gm_del k m) \<le> length m"
  by (rule AList.length_delete_le)

lemma length_gm_del: "gm_ok m \<Longrightarrow> k \<in> fst ` set m \<Longrightarrow> Suc (length (gm_del k m)) = length m"
proof (induction m)
  case (Cons p m)
  show ?case
  proof (cases "fst p = k")
    case True
    then have "k \<notin> fst ` set m" using Cons.prems by auto
    then have "gm_del k m = m" by (simp add: AList.delete_id)
    with True show ?thesis by (cases p) simp
  next
    case False
    then show ?thesis using Cons by (cases p) auto
  qed
qed simp

lemma gm_put_set_iff: "gm_ok m \<Longrightarrow> (k', v') \<in> set (gm_put k v m) \<longleftrightarrow>
    (if k' = k then v' = v else (k', v') \<in> set m)"
  by (metis distinct_update gm_get_put map_of_eq_Some_iff option.inject)

lemma gm_get_or_put [simp]: "gm_get_or d (gm_put k v m) k' = (if k' = k then v else gm_get_or d m k')"
  by (simp add: gm_get_or_def)

lemma gm_put_fresh: "gm_get m k = None \<Longrightarrow> gm_put k v m = m @ [(k, v)]"
  by (induction m) (auto split: if_splits)

section \<open>Errors\<close>

text \<open>A Go function that returns an error is a function into \<open>go_error + 'a\<close>. An error
  is identified by what the source prints before its details; \<open>Panic\<close> is a run-time panic
  (an index out of range or a nil dereference), which stops the program.\<close>

datatype go_error = Err string | Panic string

definition err_bind :: "'e + 'a \<Rightarrow> ('a \<Rightarrow> 'e + 'b) \<Rightarrow> 'e + 'b" where
  "err_bind m f = (case m of Inl e \<Rightarrow> Inl e | Inr x \<Rightarrow> f x)"

lemma err_bind_simps [simp]:
  "err_bind (Inl e) f = Inl e" "err_bind (Inr x) f = f x"
  by (simp_all add: err_bind_def)

lemma err_bind_Inr_iff: "err_bind m f = Inr y \<longleftrightarrow> (\<exists>x. m = Inr x \<and> f x = Inr y)"
  by (cases m) auto

text \<open>A sequence of guards, each returning its own error, and a loop whose body may return one.
  An error made with a format string is identified by that string.\<close>

fun err_checks :: "(bool \<times> string) list \<Rightarrow> go_error + unit" where
  "err_checks [] = Inr ()"
| "err_checks ((c, m) # cs) = (if c then Inl (Err m) else err_checks cs)"

fun err_iter :: "('a \<Rightarrow> go_error + unit) \<Rightarrow> 'a list \<Rightarrow> go_error + unit" where
  "err_iter f [] = Inr ()"
| "err_iter f (x # xs) = err_bind (f x) (\<lambda>_. err_iter f xs)"

lemma err_checks_ok: "err_checks cs = Inr u \<longleftrightarrow> (\<forall>c \<in> set cs. \<not> fst c)"
  by (induction cs rule: err_checks.induct) auto

lemma err_checks_iff:
  "err_checks [] = Inr u \<longleftrightarrow> True"
  "err_checks ((c, m) # cs) = Inr u \<longleftrightarrow> \<not> c \<and> err_checks cs = Inr u"
  by auto

lemma err_iter_ok: "err_iter f xs = Inr u \<longleftrightarrow> (\<forall>x \<in> set xs. f x = Inr ())"
  by (induction xs) (auto simp: err_bind_Inr_iff)

lemmas err_ok = err_checks_ok err_iter_ok err_bind_Inr_iff

text \<open>An index expression on a slice.\<close>

definition slice_get :: "'a list \<Rightarrow> int \<Rightarrow> go_error + 'a" where
  "slice_get xs i = (if 0 \<le> i \<and> i < int (length xs) then Inr (xs ! nat i)
                     else Inl (Panic ''index out of range''))"

lemma slice_get_ok [simp]: "0 \<le> i \<Longrightarrow> i < int (length xs) \<Longrightarrow> slice_get xs i = Inr (xs ! nat i)"
  by (simp add: slice_get_def)

text \<open>\<open>strconv.Atoi\<close>: an optional sign and decimal digits, \<open>None\<close> where it returns an
  error (a syntax error, or a value outside \<open>int64\<close>).\<close>

definition atoi :: "string \<Rightarrow> int option" where
  "atoi s =
     (let (neg, ds) = (case s of c # cs \<Rightarrow> if c = CHR ''-'' then (True, cs) else if c = CHR ''+'' then (False, cs) else (False, s)
                               | [] \<Rightarrow> (False, []))
      in if ds = [] \<or> \<not> list_all is_digit ds then None
         else let n = foldl (\<lambda>a d. 10 * a + (int (of_char d) - 48)) 0 ds; v = (if neg then - n else n)
              in if min_int64 \<le> v \<and> v \<le> max_int64 then Some v else None)"

text \<open>The dynamic values the simulator stores in a \<open>map[string]interface{}\<close>.\<close>

datatype go_value = VString string | VInt int | VBool bool | VTime gotime | VRational int int

text \<open>The conversion to \<open>int32\<close> that saturates, which two packages define alike.\<close>

definition safeInt32FromInt :: "int \<Rightarrow> int" where
  "safeInt32FromInt v =
     (if v > 2147483647 then 2147483647 else if v < - 2147483647 - 1 then - 2147483647 - 1 else v)"

end
