(* ===== verification/Go_Heap.thy ===== *)
theory Go_Heap
  imports Go_Prelude
begin

text \<open>
  The binary heap of Go's \<open>container/heap\<close>, on a slice. \<open>lt x y\<close> is the comparison of the
  element that would be at index \<open>i\<close> with the one at index \<open>j\<close>. The lemmas need \<open>lt\<close> to
  be a strict weak order, which the locale states; they show that \<open>heap.Push\<close> and
  \<open>heap.Pop\<close> keep the heap shape and the contents, and that the root is a least element.
\<close>

definition list_swap :: "'a list \<Rightarrow> nat \<Rightarrow> nat \<Rightarrow> 'a list" where
  "list_swap xs i j = xs[i := xs ! j, j := xs ! i]"

definition par :: "nat \<Rightarrow> nat" where
  "par k = (k - 1) div 2"

lemma par_less: "par j \<noteq> j \<Longrightarrow> par j < j"
  by (cases j) (auto simp: par_def)

lemma par_less_pos: "0 < j \<Longrightarrow> par j < j"
  by (simp add: par_def)

function heap_up :: "('a \<Rightarrow> 'a \<Rightarrow> bool) \<Rightarrow> 'a list \<Rightarrow> nat \<Rightarrow> 'a list" where
  "heap_up lt xs j =
     (let i = par j in
      if i = j \<or> \<not> lt (xs ! j) (xs ! i) then xs
      else heap_up lt (list_swap xs i j) i)"
  by pat_completeness auto
termination
  by (relation "measure (\<lambda>(lt, xs, j). j)") (auto simp: par_less)

function heap_down :: "('a \<Rightarrow> 'a \<Rightarrow> bool) \<Rightarrow> 'a list \<Rightarrow> nat \<Rightarrow> nat \<Rightarrow> 'a list" where
  "heap_down lt xs i n =
     (let j1 = 2 * i + 1 in
      if n \<le> j1 then xs
      else let j2 = j1 + 1; j = (if j2 < n \<and> lt (xs ! j2) (xs ! j1) then j2 else j1) in
        if \<not> lt (xs ! j) (xs ! i) then xs
        else heap_down lt (list_swap xs i j) j n)"
  by pat_completeness auto
termination
  by (relation "measure (\<lambda>(lt, xs, i, n). n - i)") (auto simp: Let_def split: if_splits)

declare heap_up.simps [simp del] heap_down.simps [simp del]

definition heap_push :: "('a \<Rightarrow> 'a \<Rightarrow> bool) \<Rightarrow> 'a list \<Rightarrow> 'a \<Rightarrow> 'a list" where
  "heap_push lt xs x = heap_up lt (xs @ [x]) (length xs)"

text \<open>\<open>heap.Pop\<close> on a non-empty heap: the element and what is left.\<close>

definition heap_pop :: "('a \<Rightarrow> 'a \<Rightarrow> bool) \<Rightarrow> 'a list \<Rightarrow> 'a \<times> 'a list" where
  "heap_pop lt xs =
     (let n = length xs - 1; ys = heap_down lt (list_swap xs 0 n) 0 n in (ys ! n, take n ys))"

fun heap_init_from :: "('a \<Rightarrow> 'a \<Rightarrow> bool) \<Rightarrow> 'a list \<Rightarrow> nat \<Rightarrow> 'a list" where
  "heap_init_from lt xs 0 = xs"
| "heap_init_from lt xs (Suc i) = heap_init_from lt (heap_down lt xs i (length xs)) i"

definition heap_init :: "('a \<Rightarrow> 'a \<Rightarrow> bool) \<Rightarrow> 'a list \<Rightarrow> 'a list" where
  "heap_init lt xs = heap_init_from lt xs (length xs div 2)"

section \<open>Contents\<close>

lemma length_list_swap [simp]: "length (list_swap xs i j) = length xs"
  by (simp add: list_swap_def)

lemma nth_list_swap:
  "i < length xs \<Longrightarrow> j < length xs \<Longrightarrow>
   list_swap xs i j ! k = (if k = j then xs ! i else if k = i then xs ! j else xs ! k)"
  by (simp add: list_swap_def nth_list_update)

lemma mset_list_swap [simp]: "i < length xs \<Longrightarrow> j < length xs \<Longrightarrow> mset (list_swap xs i j) = mset xs"
  by (simp add: list_swap_def mset_swap)

lemma mset_heap_up: "j < length xs \<Longrightarrow> mset (heap_up lt xs j) = mset xs"
proof (induction lt xs j rule: heap_up.induct)
  case (1 lt xs j)
  show ?case
  proof (cases "par j = j \<or> \<not> lt (xs ! j) (xs ! par j)")
    case False
    with 1 par_less [of j] show ?thesis by (subst heap_up.simps) (simp add: Let_def)
  qed (subst heap_up.simps, simp add: Let_def)
qed

lemma mset_heap_down: "n \<le> length xs \<Longrightarrow> i < n \<Longrightarrow> mset (heap_down lt xs i n) = mset xs"
proof (induction lt xs i n rule: heap_down.induct)
  case (1 lt xs i n)
  show ?case
    using 1 by (subst heap_down.simps) (auto simp: Let_def)
qed

lemma length_heap_up [simp]: "j < length xs \<Longrightarrow> length (heap_up lt xs j) = length xs"
  by (metis mset_heap_up size_mset)

lemma length_heap_down: "n \<le> length xs \<Longrightarrow> i < n \<Longrightarrow> length (heap_down lt xs i n) = length xs"
  by (metis mset_heap_down size_mset)

lemma heap_down_outside:
  "n \<le> length xs \<Longrightarrow> i < n \<Longrightarrow> n \<le> k \<Longrightarrow> heap_down lt xs i n ! k = xs ! k"
proof (induction lt xs i n rule: heap_down.induct)
  case (1 lt xs i n)
  show ?case
    using 1 by (subst heap_down.simps) (auto simp: Let_def nth_list_swap)
qed

lemma heap_down_empty: "heap_down lt xs 0 0 = xs"
  by (subst heap_down.simps) simp

lemma mset_heap_push: "mset (heap_push lt xs x) = add_mset x (mset xs)"
  by (simp add: heap_push_def mset_heap_up)

lemma heap_pop_elem: "xs \<noteq> [] \<Longrightarrow> fst (heap_pop lt xs) = xs ! 0"
proof -
  assume "xs \<noteq> []"
  then obtain y ys where xs: "xs = y # ys" by (cases xs) auto
  show ?thesis
    by (cases ys) (auto simp: xs heap_pop_def Let_def heap_down_outside nth_list_swap heap_down_empty)
qed

lemma mset_heap_pop: "xs \<noteq> [] \<Longrightarrow> add_mset (xs ! 0) (mset (snd (heap_pop lt xs))) = mset xs"
proof -
  assume ne: "xs \<noteq> []"
  define n where "n = length xs - 1"
  define ys where "ys = heap_down lt (list_swap xs 0 n) 0 n"
  have n: "n < length xs" "length xs = Suc n" using ne by (auto simp: n_def)
  have m: "mset ys = mset xs" and l: "length ys = Suc n"
    using n by (cases "n = 0"; simp add: ys_def mset_heap_down heap_down_empty length_heap_down)+
  have "ys ! n = xs ! 0" using heap_pop_elem [OF ne, of lt] by (simp add: heap_pop_def Let_def ys_def n_def)
  moreover have "ys = take n ys @ [ys ! n]" using l by (metis id_take_nth_drop lessI drop_all append_Nil2 order_refl)
  ultimately have "mset ys = add_mset (xs ! 0) (mset (take n ys))"
    by (metis union_code mset.simps add_mset_add_single mset_append)
  moreover have "snd (heap_pop lt xs) = take n ys" by (simp add: heap_pop_def Let_def ys_def n_def)
  ultimately show ?thesis by (simp add: m)
qed

section \<open>The heap property\<close>

locale strict_weak_order =
  fixes lt :: "'a \<Rightarrow> 'a \<Rightarrow> bool"
  assumes asym: "lt x y \<Longrightarrow> \<not> lt y x"
    and negtrans: "\<not> lt y x \<Longrightarrow> \<not> lt z y \<Longrightarrow> \<not> lt z x"
begin

lemma irrefl: "\<not> lt x x"
  using asym by blast

definition is_heap :: "'a list \<Rightarrow> nat \<Rightarrow> bool" where
  "is_heap xs n \<longleftrightarrow> (\<forall>k. 0 < k \<longrightarrow> k < n \<longrightarrow> \<not> lt (xs ! k) (xs ! par k))"

definition heap_but_up :: "'a list \<Rightarrow> nat \<Rightarrow> nat \<Rightarrow> bool" where
  "heap_but_up xs n j \<longleftrightarrow>
     (\<forall>k. 0 < k \<longrightarrow> k < n \<longrightarrow> k \<noteq> j \<longrightarrow> \<not> lt (xs ! k) (xs ! par k)) \<and>
     (\<forall>k. 0 < k \<longrightarrow> k < n \<longrightarrow> par k = j \<longrightarrow> 0 < j \<longrightarrow> \<not> lt (xs ! k) (xs ! par j))"

definition heap_but_down :: "'a list \<Rightarrow> nat \<Rightarrow> nat \<Rightarrow> bool" where
  "heap_but_down xs n i \<longleftrightarrow>
     (\<forall>k. 0 < k \<longrightarrow> k < n \<longrightarrow> par k \<noteq> i \<longrightarrow> \<not> lt (xs ! k) (xs ! par k)) \<and>
     (\<forall>k. 0 < k \<longrightarrow> k < n \<longrightarrow> par k = i \<longrightarrow> 0 < i \<longrightarrow> \<not> lt (xs ! k) (xs ! par i))"

lemma heap_but_up_step:
  assumes h: "heap_but_up xs n j" and n: "n = length xs" "j < n"
    and l: "lt (xs ! j) (xs ! par j)" and ne: "par j \<noteq> j"
  shows "heap_but_up (list_swap xs (par j) j) n (par j)"
proof -
  have pj: "par j < j" using ne by (rule par_less)
  then have j: "0 < j" by simp
  have nth: "list_swap xs (par j) j ! k =
      (if k = j then xs ! par j else if k = par j then xs ! j else xs ! k)" for k
    using pj n by (simp add: nth_list_swap)
  have 1: "\<not> lt (xs ! k) (xs ! par k)" if "0 < k" "k < n" "k \<noteq> j" for k
    using h that by (simp add: heap_but_up_def)
  have 2: "\<not> lt (xs ! k) (xs ! par j)" if "0 < k" "k < n" "par k = j" for k
    using h that j by (simp add: heap_but_up_def)
  have nlt: "\<not> lt (xs ! par j) (xs ! j)" using l by (rule asym)
  have "\<not> lt (list_swap xs (par j) j ! k) (list_swap xs (par j) j ! par k)"
    if k: "0 < k" "k < n" "k \<noteq> par j" for k
  proof (cases "k = j")
    case True
    then show ?thesis using nlt pj by (simp add: nth)
  next
    case False
    have "\<not> lt (xs ! k) (xs ! j)" if "par k = par j"
      using 1 [OF k(1,2) False] that nlt negtrans by auto
    then show ?thesis using False k 1 [OF k(1,2) False] 2 [OF k(1,2)] by (auto simp: nth)
  qed
  moreover have "\<not> lt (list_swap xs (par j) j ! k) (list_swap xs (par j) j ! par (par j))"
    if k: "0 < k" "k < n" "par k = par j" "0 < par j" for k
  proof -
    have pp: "par (par j) < par j" using k(4) by (rule par_less_pos)
    then have r: "list_swap xs (par j) j ! par (par j) = xs ! par (par j)" using pj by (simp add: nth)
    have b: "\<not> lt (xs ! par j) (xs ! par (par j))" using 1 [of "par j"] k(4) pj n by simp
    show ?thesis
    proof (cases "k = j")
      case True
      then show ?thesis using b r by (simp add: nth)
    next
      case False
      have "k \<noteq> par j" using k par_less_pos [of k] by auto
      then have "list_swap xs (par j) j ! k = xs ! k" using False by (simp add: nth)
      moreover have "\<not> lt (xs ! k) (xs ! par j)" using 1 [OF k(1,2) False] k(3) by simp
      ultimately show ?thesis using b r negtrans by metis
    qed
  qed
  ultimately show ?thesis by (simp add: heap_but_up_def)
qed

lemma heap_but_up_done:
  assumes "heap_but_up xs n j" and "par j = j \<or> \<not> lt (xs ! j) (xs ! par j)"
  shows "is_heap xs n"
  using assms par_less_pos [of j] by (auto simp: heap_but_up_def is_heap_def)

lemma heap_up_heap:
  "heap_but_up xs (length xs) j \<Longrightarrow> j < length xs \<Longrightarrow> is_heap (heap_up lt xs j) (length xs)"
proof (induction j arbitrary: xs rule: less_induct)
  case (less j)
  show ?case
  proof (cases "par j = j \<or> \<not> lt (xs ! j) (xs ! par j)")
    case True
    then show ?thesis using less heap_but_up_done by (subst heap_up.simps) (simp add: Let_def)
  next
    case False
    then have "heap_but_up (list_swap xs (par j) j) (length xs) (par j)"
      using heap_but_up_step less by blast
    with False less par_less [of j] have "is_heap (heap_up lt (list_swap xs (par j) j) (par j)) (length xs)"
      by (metis length_list_swap less_trans)
    with False show ?thesis by (subst heap_up.simps) (simp add: Let_def)
  qed
qed

lemma heap_push_heap: "is_heap xs (length xs) \<Longrightarrow> is_heap (heap_push lt xs x) (Suc (length xs))"
proof -
  assume h: "is_heap xs (length xs)"
  have "\<not> lt ((xs @ [x]) ! k) ((xs @ [x]) ! par k)" if "0 < k" "k < length xs" for k
    using h that par_less_pos [of k] by (simp add: is_heap_def nth_append)
  moreover have False if "0 < k" "k < Suc (length xs)" "par k = length xs" for k
    using that par_less_pos [of k] by simp
  ultimately have "heap_but_up (xs @ [x]) (Suc (length xs)) (length xs)"
    by (auto simp: heap_but_up_def less_Suc_eq)
  then show ?thesis using heap_up_heap [of "xs @ [x]" "length xs"] by (simp add: heap_push_def)
qed

lemma par_children: "0 < k \<Longrightarrow> par k = i \<longleftrightarrow> k = 2 * i + 1 \<or> k = 2 * i + 2"
  by (auto simp: par_def)

lemma heap_but_down_step:
  assumes h: "heap_but_down xs n i" and n: "n \<le> length xs" "j < n" and j: "j = 2 * i + 1 \<or> j = 2 * i + 2"
    and small: "\<And>k. 0 < k \<Longrightarrow> k < n \<Longrightarrow> par k = i \<Longrightarrow> \<not> lt (xs ! k) (xs ! j)"
    and l: "lt (xs ! j) (xs ! i)"
  shows "heap_but_down (list_swap xs i j) n j"
proof -
  have j0: "0 < j" "i < j" "par j = i" using j par_children [of j i] by auto
  have nth: "list_swap xs i j ! k = (if k = j then xs ! i else if k = i then xs ! j else xs ! k)" for k
    using j0 n by (simp add: nth_list_swap)
  have 1: "\<not> lt (xs ! k) (xs ! par k)" if "0 < k" "k < n" "par k \<noteq> i" for k
    using h that by (simp add: heap_but_down_def)
  have 2: "\<not> lt (xs ! k) (xs ! par i)" if "0 < k" "k < n" "par k = i" "0 < i" for k
    using h that by (simp add: heap_but_down_def)
  have "\<not> lt (list_swap xs i j ! k) (list_swap xs i j ! par k)"
    if k: "0 < k" "k < n" "par k \<noteq> j" for k
  proof (cases "par k = i")
    case True
    then have r: "list_swap xs i j ! par k = xs ! j" using j0 by (simp add: nth)
    show ?thesis
    proof (cases "k = j")
      case True
      then show ?thesis using asym [OF l] r by (simp add: nth)
    next
      case False
      then have "list_swap xs i j ! k = xs ! k" using True k par_less_pos [of k] by (auto simp: nth)
      then show ?thesis using r small [OF k(1,2) True] by simp
    qed
  next
    case False
    then have "k \<noteq> j" using j0 by auto
    have p: "list_swap xs i j ! par k = xs ! par k" using False k by (simp add: nth)
    show ?thesis
    proof (cases "k = i")
      case True
      then show ?thesis using p 2 [of j] j0 n k \<open>k \<noteq> j\<close> by (simp add: nth)
    next
      case False
      then show ?thesis using p 1 [OF k(1,2) \<open>par k \<noteq> i\<close>] \<open>k \<noteq> j\<close> by (simp add: nth)
    qed
  qed
  moreover have "\<not> lt (list_swap xs i j ! k) (list_swap xs i j ! par j)"
    if k: "0 < k" "k < n" "par k = j" for k
  proof -
    have "k \<noteq> j" "k \<noteq> i" using k par_less_pos [of k] j0 by auto
    then show ?thesis using 1 [OF k(1,2)] k(3) j0 by (simp add: nth)
  qed
  ultimately show ?thesis by (simp add: heap_but_down_def)
qed

lemma heap_down_heap:
  "heap_but_down xs n i \<Longrightarrow> n \<le> length xs \<Longrightarrow> is_heap (heap_down lt xs i n) n"
proof (induction "n - i" arbitrary: xs i rule: less_induct)
  case less
  let ?j1 = "2 * i + 1"
  show ?case
  proof (cases "n \<le> ?j1")
    case True
    have "par k \<noteq> i" if "0 < k" "k < n" for k using that True par_children [of k i] by auto
    then have "is_heap xs n" using less.prems by (auto simp: heap_but_down_def is_heap_def)
    then show ?thesis using True by (subst heap_down.simps) simp
  next
    case False
    define j where "j = (if ?j1 + 1 < n \<and> lt (xs ! (?j1 + 1)) (xs ! ?j1) then ?j1 + 1 else ?j1)"
    have j: "j < n" "j = 2 * i + 1 \<or> j = 2 * i + 2" using False by (auto simp: j_def)
    have small: "\<not> lt (xs ! k) (xs ! j)" if "0 < k" "k < n" "par k = i" for k
      using that par_children [of k i] asym by (auto simp: j_def irrefl)
    have eq: "heap_down lt xs i n =
        (if lt (xs ! j) (xs ! i) then heap_down lt (list_swap xs i j) j n else xs)"
      using False by (subst heap_down.simps) (auto simp: Let_def j_def)
    show ?thesis
    proof (cases "lt (xs ! j) (xs ! i)")
      case True
      have "heap_but_down (list_swap xs i j) n j"
        using heap_but_down_step [OF less.prems(1,2) j small True] .
      then have "is_heap (heap_down lt (list_swap xs i j) j n) n"
        using less.hyps [of j] less.prems j by auto
      then show ?thesis using True by (simp add: eq)
    next
      case nl: False
      have "\<not> lt (xs ! k) (xs ! i)" if "0 < k" "k < n" "par k = i" for k
        using small [OF that] nl negtrans by blast
      then have "is_heap xs n" using less.prems by (auto simp: heap_but_down_def is_heap_def)
      then show ?thesis using nl by (simp add: eq)
    qed
  qed
qed

lemma heap_pop_heap:
  assumes h: "is_heap xs (length xs)" and ne: "xs \<noteq> []"
  shows "is_heap (snd (heap_pop lt xs)) (length xs - 1)"
proof -
  define n where "n = length xs - 1"
  define ys where "ys = heap_down lt (list_swap xs 0 n) 0 n"
  have n: "n < length xs" using ne by (simp add: n_def)
  have "\<not> lt (list_swap xs 0 n ! k) (list_swap xs 0 n ! par k)"
    if "0 < k" "k < n" "par k \<noteq> 0" for k
  proof -
    have "list_swap xs 0 n ! k = xs ! k" "list_swap xs 0 n ! par k = xs ! par k"
      using that n ne par_less_pos [of k] by (simp_all add: nth_list_swap)
    then show ?thesis using h that n by (simp add: is_heap_def)
  qed
  then have "heap_but_down (list_swap xs 0 n) n 0" by (simp add: heap_but_down_def)
  then have "is_heap ys n" using n heap_down_heap by (simp add: ys_def)
  moreover have "snd (heap_pop lt xs) = take n ys"
    by (simp add: heap_pop_def Let_def ys_def n_def)
  moreover have "take n ys ! k = ys ! k \<and> take n ys ! par k = ys ! par k" if "0 < k" "k < n" for k
    using that par_less_pos [of k] by simp
  ultimately show ?thesis unfolding n_def [symmetric] by (auto simp: is_heap_def)
qed

lemma heap_root_least: "is_heap xs n \<Longrightarrow> k < n \<Longrightarrow> \<not> lt (xs ! k) (xs ! 0)"
proof (induction k rule: less_induct)
  case (less k)
  show ?case
  proof (cases "k = 0")
    case True
    then show ?thesis using asym by blast
  next
    case False
    then have p: "par k < k" by (simp add: par_less_pos)
    then have "\<not> lt (xs ! par k) (xs ! 0)" using less by simp
    moreover have "\<not> lt (xs ! k) (xs ! par k)" using less False by (simp add: is_heap_def)
    ultimately show ?thesis using negtrans by blast
  qed
qed

lemma heap_pop_least:
  assumes "is_heap xs (length xs)" and "xs \<noteq> []" and "y \<in> set xs"
  shows "\<not> lt y (fst (heap_pop lt xs))"
  using assms heap_root_least by (metis heap_pop_elem in_set_conv_nth)

end

end
