(* ===== verification/Go_Float.thy ===== *)
theory Go_Float
  imports Go_Prelude Complex_Main "HOL-Library.Log_Nat"
begin

text \<open>
  Go's \<open>float64\<close>. A finite value is a rational number and every arithmetic operation rounds
  the exact result to the nearest value with a 53-bit significand, ties to even, with gradual
  underflow (\<open>fl\<close>), as IEEE 754 binary64 does; the theorems are therefore about the rounded
  arithmetic the code performs and not about exact reals. Infinities and NaN are not values of
  the model: the exponent is unbounded above, and a component whose code stores an infinity
  says how it is represented. Conversions from a float to an integer are for results that fit.
\<close>

type_synonym float64 = rat

section \<open>Rounding\<close>

definition pow2 :: "int \<Rightarrow> rat" where
  "pow2 e = (if 0 \<le> e then 2 ^ nat e else 1 / 2 ^ nat (- e))"

text \<open>The binary exponent of a non-zero rational: \<open>pow2 e \<le> \<bar>x\<bar> < pow2 (e + 1)\<close>.\<close>

definition fexp :: "rat \<Rightarrow> int" where
  "fexp x = (let (p, q) = quotient_of \<bar>x\<bar>; d = bitlen p - bitlen q
             in if pow2 d \<le> \<bar>x\<bar> then d else d - 1)"

definition ulp :: "rat \<Rightarrow> rat" where
  "ulp x = pow2 (max (fexp x - 52) (- 1074))"

definition rne :: "rat \<Rightarrow> int" where
  "rne x = (let f = \<lfloor>x\<rfloor>; r = x - of_int f
            in if r < 1 / 2 then f else if 1 / 2 < r then f + 1 else if even f then f else f + 1)"

definition fl :: "rat \<Rightarrow> float64" where
  "fl x = (if x = 0 then 0 else of_int (rne (x / ulp x)) * ulp x)"

definition fadd :: "float64 \<Rightarrow> float64 \<Rightarrow> float64" where
  "fadd a b = fl (a + b)"

definition fsub :: "float64 \<Rightarrow> float64 \<Rightarrow> float64" where
  "fsub a b = fl (a - b)"

definition fmul :: "float64 \<Rightarrow> float64 \<Rightarrow> float64" where
  "fmul a b = fl (a * b)"

definition fdiv :: "float64 \<Rightarrow> float64 \<Rightarrow> float64" where
  "fdiv a b = fl (a / b)"

text \<open>\<open>float64(n)\<close>, \<open>int(x)\<close> (towards zero), \<open>math.Floor\<close>, \<open>math.Ceil\<close> and
  \<open>math.Round\<close> (half away from zero).\<close>

definition of_int64 :: "int \<Rightarrow> float64" where
  "of_int64 n = fl (of_int n)"

definition ftrunc :: "float64 \<Rightarrow> int" where
  "ftrunc x = (if 0 \<le> x then \<lfloor>x\<rfloor> else \<lceil>x\<rceil>)"

definition fround :: "float64 \<Rightarrow> int" where
  "fround x = (if 0 \<le> x then \<lfloor>x + 1 / 2\<rfloor> else - \<lfloor>- x + 1 / 2\<rfloor>)"

text \<open>\<open>Duration.Seconds()\<close>.\<close>

definition duration_seconds :: "duration \<Rightarrow> float64" where
  "duration_seconds d =
     fadd (of_int64 (go_div d nanos_per_s)) (fdiv (of_int64 (go_mod d nanos_per_s)) (of_int64 nanos_per_s))"

section \<open>Powers of two and the exponent\<close>

lemma pow2_pos: "0 < pow2 e"
  by (simp add: pow2_def)

lemma pow2_add: "pow2 (a + b) = pow2 a * pow2 b"
proof -
  have p: "pow2 e = 2 powi e" for e
    by (simp add: pow2_def power_int_def inverse_eq_divide power_one_over)
  show ?thesis by (simp add: p power_int_add)
qed

lemma pow2_mono: "a \<le> b \<Longrightarrow> pow2 a \<le> pow2 b"
proof -
  assume "a \<le> b"
  then have "pow2 b = pow2 a * 2 ^ nat (b - a)"
    using pow2_add [of a "b - a"] by (simp add: pow2_def [of "b - a"])
  moreover have "pow2 a * 1 \<le> pow2 a * 2 ^ nat (b - a)"
    by (rule mult_left_mono) (simp_all add: less_imp_le pow2_pos)
  ultimately show ?thesis by simp
qed

lemma pow2_one: "pow2 1 = 2"
  by (simp add: pow2_def)

lemma pow2_zero: "pow2 0 = 1"
  by (simp add: pow2_def)

lemma pow2_int: "0 \<le> e \<Longrightarrow> pow2 e = of_int (2 ^ nat e)"
  by (simp add: pow2_def)

lemma bitlen_bounds_rat:
  assumes "0 < p"
  shows "pow2 (bitlen p - 1) \<le> of_int p" and "of_int p < pow2 (bitlen p)"
proof -
  from assms have 1: "2 ^ nat (bitlen p - 1) \<le> p" "p < 2 ^ nat (bitlen p)"
    using bitlen_bounds [of p] by auto
  have b: "0 \<le> bitlen p - 1" using assms by (simp add: bitlen_def compute_floorlog)
  from 1 b show "pow2 (bitlen p - 1) \<le> of_int p" "of_int p < pow2 (bitlen p)"
    by (simp_all add: pow2_int del: of_int_power)
qed

lemma fexp_bounds:
  assumes "x \<noteq> 0"
  shows "pow2 (fexp x) \<le> \<bar>x\<bar>" and "\<bar>x\<bar> < pow2 (fexp x + 1)"
proof -
  obtain p q where pq: "quotient_of \<bar>x\<bar> = (p, q)" by (cases "quotient_of \<bar>x\<bar>")
  have q: "0 < q" using quotient_of_denom_pos [OF pq] .
  have x: "\<bar>x\<bar> = of_int p / of_int q" using quotient_of_div [OF pq] .
  have "0 < \<bar>x\<bar>" using assms by simp
  with x q have p: "0 < p" by (simp add: zero_less_divide_iff)
  let ?d = "bitlen p - bitlen q"
  have up: "\<bar>x\<bar> < pow2 (?d + 1)"
  proof -
    have "of_int p < pow2 (bitlen p)" using bitlen_bounds_rat (2) [OF p] .
    also have "pow2 (bitlen p) = pow2 (?d + 1) * pow2 (bitlen q - 1)"
      by (simp flip: pow2_add)
    also have "\<dots> \<le> pow2 (?d + 1) * of_int q"
      using bitlen_bounds_rat (1) [OF q] by (simp add: less_imp_le pow2_pos)
    finally show ?thesis using q by (simp add: x divide_less_eq)
  qed
  have lo: "pow2 (?d - 1) \<le> \<bar>x\<bar>"
  proof -
    have "pow2 (?d - 1) * of_int q \<le> pow2 (?d - 1) * pow2 (bitlen q)"
      using bitlen_bounds_rat (2) [OF q] by (simp add: less_imp_le pow2_pos)
    also have "\<dots> = pow2 (bitlen p - 1)" by (simp flip: pow2_add)
    also have "\<dots> \<le> of_int p" using bitlen_bounds_rat (1) [OF p] .
    finally show ?thesis using q by (simp add: x le_divide_eq)
  qed
  show "pow2 (fexp x) \<le> \<bar>x\<bar>" "\<bar>x\<bar> < pow2 (fexp x + 1)"
    using up lo by (auto simp: fexp_def pq Let_def)
qed

lemma fexp_mono:
  assumes "0 < x" "x \<le> y"
  shows "fexp x \<le> fexp y"
proof (rule ccontr)
  assume "\<not> fexp x \<le> fexp y"
  then have "pow2 (fexp y + 1) \<le> pow2 (fexp x)" by (intro pow2_mono) simp
  also have "\<dots> \<le> x" using fexp_bounds (1) [of x] assms by simp
  also have "\<dots> \<le> y" by fact
  also have "\<dots> < pow2 (fexp y + 1)" using fexp_bounds (2) [of y] assms by simp
  finally show False by simp
qed

section \<open>Rounding is monotone and exact on its own results\<close>

lemma rne_mono: "x \<le> y \<Longrightarrow> rne x \<le> rne y"
proof -
  assume le: "x \<le> y"
  then have f: "\<lfloor>x\<rfloor> \<le> \<lfloor>y\<rfloor>" by (rule floor_mono)
  show ?thesis
  proof (cases "\<lfloor>x\<rfloor> = \<lfloor>y\<rfloor>")
    case True
    with le show ?thesis by (auto simp: rne_def Let_def)
  next
    case False
    with f have "\<lfloor>x\<rfloor> + 1 \<le> \<lfloor>y\<rfloor>" by simp
    then show ?thesis by (auto simp: rne_def Let_def)
  qed
qed

lemma rne_int [simp]: "rne (of_int n) = n"
  by (simp add: rne_def)

lemma rne_minus: "rne (- x) = - rne x"
proof (cases "x = of_int \<lfloor>x\<rfloor>")
  case True
  then show ?thesis by (metis of_int_minus rne_int)
next
  case False
  then have c: "\<lfloor>- x\<rfloor> = - \<lfloor>x\<rfloor> - 1"
    by (metis ceiling_altdef ceiling_def diff_minus_eq_add minus_diff_eq minus_equation_iff add.inverse_inverse add.commute uminus_add_conv_diff)
  show ?thesis by (auto simp: rne_def Let_def c)
qed

lemma ulp_pos: "0 < ulp x"
  by (simp add: ulp_def pow2_pos)

lemma ulp_minus: "ulp (- x) = ulp x"
  by (simp add: ulp_def fexp_def)

lemma fl_zero [simp]: "fl 0 = 0"
  by (simp add: fl_def)

lemma fl_minus: "fl (- x) = - fl x"
  by (simp add: fl_def ulp_minus rne_minus flip: minus_divide_left)

lemma ulp_mono: "0 < x \<Longrightarrow> x \<le> y \<Longrightarrow> ulp x \<le> ulp y"
  by (auto simp: ulp_def intro!: pow2_mono fexp_mono max.mono)

lemma ulp_divides_pow2:
  assumes "max (fexp x - 52) (- 1074) \<le> e"
  shows "\<exists>n. pow2 e = of_int n * ulp x"
proof -
  have "pow2 e = pow2 (e - max (fexp x - 52) (- 1074)) * ulp x"
    by (simp add: ulp_def flip: pow2_add)
  moreover have "pow2 (e - max (fexp x - 52) (- 1074)) = of_int (2 ^ nat (e - max (fexp x - 52) (- 1074)))"
    using assms by (intro pow2_int) simp
  ultimately show ?thesis by metis
qed

lemma fl_between:
  assumes "x \<noteq> 0" "a = of_int m * ulp x" "b = of_int n * ulp x" "a \<le> x" "x \<le> b"
  shows "a \<le> fl x \<and> fl x \<le> b"
proof -
  have u: "0 < ulp x" by (rule ulp_pos)
  from assms u have "of_int m \<le> x / ulp x" "x / ulp x \<le> of_int n"
    by (simp_all add: le_divide_eq divide_le_eq)
  then have "m \<le> rne (x / ulp x)" "rne (x / ulp x) \<le> n"
    using rne_mono rne_int by metis+
  with u assms show ?thesis by (simp add: fl_def)
qed

lemma fl_mono_pos:
  assumes "0 < x" "x \<le> y"
  shows "fl x \<le> fl y"
proof (cases "ulp x = ulp y")
  case True
  have "x / ulp y \<le> y / ulp y" using assms ulp_pos by (simp add: divide_right_mono less_imp_le)
  then have "rne (x / ulp y) \<le> rne (y / ulp y)" by (rule rne_mono)
  with assms True ulp_pos [of y] show ?thesis by (simp add: fl_def)
next
  case False
  define e where "e = fexp y"
  have le: "max (fexp x - 52) (- 1074) < max (e - 52) (- 1074)"
  proof -
    have "max (fexp x - 52) (- 1074) \<le> max (e - 52) (- 1074)"
      using fexp_mono [OF assms] by (auto simp: e_def)
    moreover have "max (fexp x - 52) (- 1074) \<noteq> max (e - 52) (- 1074)"
      using False by (auto simp only: ulp_def e_def)
    ultimately show ?thesis by (rule order.not_eq_order_implies_strict [rotated])
  qed
  then have e: "-1022 < e" "fexp x + 1 \<le> e" by auto
  have pe: "pow2 e \<le> y" using fexp_bounds (1) [of y] assms by (simp add: e_def)
  have px: "x < pow2 e"
    using fexp_bounds (2) [of x] assms pow2_mono [OF e(2)] by simp
  obtain m where m: "pow2 e = of_int m * ulp y"
    using ulp_divides_pow2 [of y e] e by (auto simp: e_def)
  obtain n where n: "pow2 e = of_int n * ulp x"
    using ulp_divides_pow2 [of x e] e le by auto
  have "fl x \<le> pow2 e"
    using fl_between [of x 0 0 "pow2 e" n] n px assms by simp
  moreover obtain k where "pow2 (e + 1) = of_int k * ulp y"
    using ulp_divides_pow2 [of y "e + 1"] e by (auto simp: e_def)
  then have "pow2 e \<le> fl y"
    using fl_between [of y "pow2 e" m "pow2 (e + 1)" k] m pe fexp_bounds (2) [of y] assms
    by (simp add: e_def)
  ultimately show ?thesis by simp
qed

lemma fl_nonneg: "0 \<le> x \<Longrightarrow> 0 \<le> fl x"
proof (cases "x = 0")
  case False
  assume "0 \<le> x"
  with ulp_pos [of x] have "0 \<le> rne (x / ulp x)"
    using rne_mono [of 0 "x / ulp x"] rne_int [of 0] by simp
  with ulp_pos [of x] show ?thesis by (simp add: fl_def)
qed simp

lemma fl_nonpos: "x \<le> 0 \<Longrightarrow> fl x \<le> 0"
  using fl_nonneg [of "- x"] by (simp add: fl_minus)

theorem fl_mono: "x \<le> y \<Longrightarrow> fl x \<le> fl y"
proof -
  assume le: "x \<le> y"
  consider "0 < x" | "y < 0" | "x \<le> 0" "0 \<le> y" by linarith
  then show ?thesis
  proof cases
    case 1
    then show ?thesis using le by (rule fl_mono_pos)
  next
    case 2
    then have "fl (- y) \<le> fl (- x)" using le by (intro fl_mono_pos) simp_all
    then show ?thesis by (simp add: fl_minus)
  next
    case 3
    then show ?thesis using fl_nonpos fl_nonneg by (meson order_trans)
  qed
qed

lemma fl_exact: "x = of_int m * ulp x \<Longrightarrow> fl x = x"
proof (cases "x = 0")
  case False
  assume x: "x = of_int m * ulp x"
  with ulp_pos [of x] have "x / ulp x = of_int m" by (simp add: divide_eq_eq)
  then show ?thesis using x False by (simp add: fl_def)
qed simp

lemma fl_idem_pos:
  assumes "0 < x"
  shows "fl (fl x) = fl x"
proof (cases "fl x = 0")
  case False
  let ?y = "fl x"
  have y: "0 < ?y" using False fl_nonneg [of x] assms by simp
  define r where "r = rne (x / ulp x)"
  have yr: "?y = of_int r * ulp x" using assms by (simp add: fl_def r_def)
  show ?thesis
  proof (cases "max (fexp ?y - 52) (- 1074) \<le> max (fexp x - 52) (- 1074)")
    case True
    then obtain n where "ulp x = of_int n * ulp ?y"
      using ulp_divides_pow2 [of ?y "max (fexp x - 52) (- 1074)"] by (auto simp: ulp_def [of x])
    with yr have "?y = of_int (r * n) * ulp ?y" by simp
    then show ?thesis by (rule fl_exact)
  next
    case False
    then have e: "- 1022 < fexp ?y" "fexp x + 1 \<le> fexp ?y" by auto
    have "max (fexp x - 52) (- 1074) \<le> fexp ?y" using e by auto
    then obtain n where n: "pow2 (fexp ?y) = of_int n * ulp x" using ulp_divides_pow2 by blast
    have "x \<le> pow2 (fexp ?y)"
      using fexp_bounds (2) [of x] assms pow2_mono [OF e(2)] by simp
    then have "?y \<le> pow2 (fexp ?y)"
      using fl_between [of x 0 0 "pow2 (fexp ?y)" n] n assms by simp
    then have "?y = pow2 (fexp ?y)" using fexp_bounds (1) [of ?y] y by simp
    moreover obtain k where "pow2 (fexp ?y) = of_int k * ulp ?y"
      using ulp_divides_pow2 [of ?y "fexp ?y"] e by auto
    ultimately show ?thesis using fl_exact by metis
  qed
qed simp

theorem fl_idem [simp]: "fl (fl x) = fl x"
proof -
  consider "x = 0" | "0 < x" | "0 < - x" by linarith
  then show ?thesis
  proof cases
    case 3
    then have "fl (fl (- x)) = fl (- x)" by (rule fl_idem_pos)
    then show ?thesis by (simp add: fl_minus)
  qed (simp_all add: fl_idem_pos)
qed

lemma fl_int:
  assumes "\<bar>n\<bar> < 2 ^ 53"
  shows "fl (of_int n) = of_int n"
proof (cases "n = 0")
  case False
  let ?x = "of_int n :: rat"
  have "pow2 (fexp ?x) \<le> \<bar>?x\<bar>" using fexp_bounds (1) False by simp
  also have "\<bar>?x\<bar> < pow2 53"
  proof -
    have "of_int \<bar>n\<bar> < (of_int (2 ^ 53) :: rat)" using assms by (simp only: of_int_less_iff)
    then show ?thesis by (simp add: pow2_def)
  qed
  finally have "fexp ?x < 53" using pow2_mono [of 53 "fexp ?x"] by linarith
  then obtain k where "pow2 0 = of_int k * ulp ?x"
    using ulp_divides_pow2 [of ?x 0] by auto
  then have "?x = of_int (n * k) * ulp ?x" by (simp add: pow2_zero)
  then show ?thesis by (rule fl_exact)
qed simp

section \<open>Consequences used by the components\<close>

lemma of_int64_exact: "\<bar>n\<bar> < 2 ^ 53 \<Longrightarrow> of_int64 n = of_int n"
  by (simp add: of_int64_def fl_int)

lemma of_int64_nonneg: "0 \<le> n \<Longrightarrow> 0 \<le> of_int64 n"
  by (simp add: of_int64_def fl_nonneg)

lemma of_int64_mono: "m \<le> n \<Longrightarrow> of_int64 m \<le> of_int64 n"
  by (simp add: of_int64_def fl_mono)

lemma of_int64_pos: "0 < n \<Longrightarrow> 1 \<le> of_int64 n"
  using of_int64_mono [of 1 n] of_int64_exact [of 1] by simp

lemma fadd_mono: "a \<le> a' \<Longrightarrow> b \<le> b' \<Longrightarrow> fadd a b \<le> fadd a' b'"
  by (simp add: fadd_def fl_mono)

lemma fadd_ge_left: "fl a = a \<Longrightarrow> 0 \<le> b \<Longrightarrow> a \<le> fadd a b"
  using fl_mono [of a "a + b"] by (simp add: fadd_def)

lemma fl_fadd [simp]: "fl (fadd a b) = fadd a b"
  by (simp add: fadd_def)

lemma fadd_nonneg: "0 \<le> a \<Longrightarrow> 0 \<le> b \<Longrightarrow> 0 \<le> fadd a b"
  by (simp add: fadd_def fl_nonneg)

lemma fsub_nonneg: "b \<le> a \<Longrightarrow> 0 \<le> fsub a b"
  by (simp add: fsub_def fl_nonneg)

lemma fmul_nonneg: "0 \<le> a \<Longrightarrow> 0 \<le> b \<Longrightarrow> 0 \<le> fmul a b"
  by (simp add: fmul_def fl_nonneg)

lemma fdiv_nonneg: "0 \<le> a \<Longrightarrow> 0 \<le> b \<Longrightarrow> 0 \<le> fdiv a b"
  by (simp add: fdiv_def fl_nonneg)

lemma fmul_mono: "0 \<le> a \<Longrightarrow> a \<le> a' \<Longrightarrow> 0 \<le> b \<Longrightarrow> b \<le> b' \<Longrightarrow> fmul a b \<le> fmul a' b'"
  by (simp add: fmul_def fl_mono mult_mono)

lemma fdiv_mono: "a \<le> a' \<Longrightarrow> 0 < b \<Longrightarrow> fdiv a b \<le> fdiv a' b"
  by (simp add: fdiv_def fl_mono divide_right_mono)

lemma ftrunc_nonneg: "0 \<le> x \<Longrightarrow> 0 \<le> ftrunc x"
  by (simp add: ftrunc_def)

lemma fround_nonneg: "0 \<le> x \<Longrightarrow> 0 \<le> fround x"
  by (simp add: fround_def)

lemma ftrunc_of_int [simp]: "ftrunc (of_int n) = n"
  by (simp add: ftrunc_def)

lemmas float_nonneg = fadd_nonneg fmul_nonneg fdiv_nonneg of_int64_nonneg fl_nonneg
  ftrunc_nonneg fround_nonneg

end
