(* ===== verification/Sim_Models.thy ===== *)
theory Sim_Models
  imports Go_Float
begin

text \<open>
  The shared data types of \<open>pkg/models/types.go\<close> that the engine, the run manager and the
  resource layer exchange. A \<open>*models.Request\<close> is a reference to one object: where a
  component only passes it on, the model passes the request's identifier; where a component
  stores it, the model stores the record under that identifier.
\<close>

datatype run_status = RunPending | RunRunning | RunCompleted | RunFailed

datatype request_status = ReqPending | ReqProcessing | ReqCompleted | ReqFailed

record request =
  rq_id :: string
  rq_trace_id :: string
  rq_parent_id :: string
  rq_service_name :: string
  rq_endpoint :: string
  rq_status :: request_status
  rq_arrival_time :: gotime
  rq_start_time :: gotime
  rq_completion_time :: gotime
  rq_duration :: duration
  rq_cpu_time_ms :: float64
  rq_network_latency_ms :: float64
  rq_queue_time_ms :: float64
  rq_error :: string
  rq_metadata :: "(string, go_value) gomap"

record trace =
  tr_id :: string
  tr_root_request_id :: string
  tr_start_time :: gotime
  tr_end_time :: gotime
  tr_duration :: duration
  tr_requests :: "string list"
  tr_total_latency_ms :: float64
  tr_success :: bool

definition Trace_AddRequest :: "trace \<Rightarrow> string \<Rightarrow> trace" where
  "Trace_AddRequest t r = t\<lparr>tr_requests := tr_requests t @ [r]\<rparr>"

definition Trace_GetRequests :: "trace \<Rightarrow> string list" where
  "Trace_GetRequests t = tr_requests t"

record service_metrics =
  sm_service_name :: string
  sm_request_count :: int
  sm_error_count :: int

record run_metrics =
  rmx_total_requests :: int
  rmx_successful_requests :: int
  rmx_failed_requests :: int
  rmx_latency_p50 :: float64
  rmx_latency_p95 :: float64
  rmx_latency_p99 :: float64
  rmx_latency_mean :: float64
  rmx_throughput_rps :: float64
  rmx_service_metrics :: "(string, service_metrics) gomap"

record run =
  run_id :: string
  run_status :: run_status
  run_config :: "(string, go_value) gomap"
  run_start_time :: gotime
  run_end_time :: gotime
  run_duration :: duration
  run_metrics_of :: "run_metrics option"
  run_error :: string
  run_metadata :: "(string, string) gomap"

end
