(* ===== verification/Event_Queue.thy ===== *)
theory Event_Queue
  imports Go_Heap Sim_Models "HOL-Library.Product_Lexorder"
begin

text \<open>
  The event queue of \<open>internal/engine/event.go\<close>: a slice of events kept as a binary heap under
  \<open>Less\<close>, which compares time, then priority, then schedule order. The locale \<open>event_pq\<close> is
  the contract the engine relies on; it is interpreted on the heap below. The properties say
  that the queue loses and invents nothing, that \<open>Next\<close> removes a least event, and that
  emptying the queue yields the events in the order of their keys.
\<close>

datatype event_type =
    EventTypeRequestArrival
  | EventTypeRequestStart
  | EventTypeRequestComplete
  | EventTypeDownstreamCall
  | EventTypeScaleUp
  | EventTypeScaleDown
  | EventTypeSimulationEnd
  | EventTypeWorkloadGenerate
  | EventTypeDrainSweep
  | EventTypeDownstreamTimeout
  | EventTypeDownstreamRetry
  | EventTypeDownstreamCallerOverheadStart
  | EventTypeDownstreamCallerOverheadEnd
  | EventTypeQueueEnqueue
  | EventTypeQueueDequeue
  | EventTypeQueueAckTimeout
  | EventTypeQueueRedelivery
  | EventTypeQueueDLQ
  | EventTypeAsyncParentFinalize
  | EventTypeTopicPublish
  | EventTypeTopicDequeue
  | EventTypeTopicAckTimeout
  | EventTypeTopicDLQ
  | EventTypeTopicRetentionExpire

record event =
  ev_id :: string
  ev_type :: event_type
  ev_time :: gotime
  ev_priority :: int
  ev_sequence :: int
  ev_request :: "string option"
  ev_service_id :: string
  ev_data :: "(string, go_value) gomap"

record event_queue =
  eq_events :: "event list"

definition event_less :: "event \<Rightarrow> event \<Rightarrow> bool" where
  "event_less a b =
     (if ev_time a < ev_time b then True
      else if ev_time b < ev_time a then False
      else if ev_priority a \<noteq> ev_priority b then ev_priority a < ev_priority b
      else ev_sequence a < ev_sequence b)"

definition NewEventQueue :: event_queue where
  "NewEventQueue = \<lparr>eq_events = heap_init event_less []\<rparr>"

definition eq_Len :: "event_queue \<Rightarrow> nat" where
  "eq_Len q = length (eq_events q)"

definition eq_Less :: "event_queue \<Rightarrow> nat \<Rightarrow> nat \<Rightarrow> bool" where
  "eq_Less q i j = event_less (eq_events q ! i) (eq_events q ! j)"

definition eq_Swap :: "event_queue \<Rightarrow> nat \<Rightarrow> nat \<Rightarrow> event_queue" where
  "eq_Swap q i j = q\<lparr>eq_events := list_swap (eq_events q) i j\<rparr>"

definition eq_Push :: "event_queue \<Rightarrow> event \<Rightarrow> event_queue" where
  "eq_Push q x = q\<lparr>eq_events := eq_events q @ [x]\<rparr>"

definition eq_Pop :: "event_queue \<Rightarrow> event \<times> event_queue" where
  "eq_Pop q = (let n = length (eq_events q)
               in (eq_events q ! (n - 1), q\<lparr>eq_events := take (n - 1) (eq_events q)\<rparr>))"

definition Schedule :: "event_queue \<Rightarrow> event \<Rightarrow> event_queue" where
  "Schedule q e = q\<lparr>eq_events := heap_push event_less (eq_events q) e\<rparr>"

definition Next :: "event_queue \<Rightarrow> event option \<times> event_queue" where
  "Next q = (if eq_Len q = 0 then (None, q)
             else let (e, es) = heap_pop event_less (eq_events q)
                  in (Some e, q\<lparr>eq_events := es\<rparr>))"

definition Peek :: "event_queue \<Rightarrow> event option" where
  "Peek q = (if eq_Len q = 0 then None else Some (eq_events q ! 0))"

definition Clear :: "event_queue \<Rightarrow> event_queue" where
  "Clear q = q\<lparr>eq_events := heap_init event_less []\<rparr>"

definition Size :: "event_queue \<Rightarrow> nat" where
  "Size q = eq_Len q"

definition IsEmpty :: "event_queue \<Rightarrow> bool" where
  "IsEmpty q \<longleftrightarrow> Size q = 0"

text \<open>Taking the next event \<open>n\<close> times, from any queue.\<close>

fun take_next :: "('q \<Rightarrow> 'e option \<times> 'q) \<Rightarrow> nat \<Rightarrow> 'q \<Rightarrow> 'e list" where
  "take_next nxt 0 q = []"
| "take_next nxt (Suc n) q =
     (case nxt q of (None, _) \<Rightarrow> [] | (Some e, q') \<Rightarrow> e # take_next nxt n q')"

section \<open>The contract of an event queue\<close>

locale event_pq =
  fixes sched :: "'q \<Rightarrow> 'e \<Rightarrow> 'q"
    and nxt :: "'q \<Rightarrow> 'e option \<times> 'q"
    and size_of :: "'q \<Rightarrow> nat"
    and contents :: "'q \<Rightarrow> 'e multiset"
    and inv :: "'q \<Rightarrow> bool"
    and key :: "'e \<Rightarrow> 'k :: linorder"
  assumes size_contents: "size_of q = size (contents q)"
    and sched_inv: "inv q \<Longrightarrow> inv (sched q e)"
    and sched_contents: "contents (sched q e) = add_mset e (contents q)"
    and next_empty: "contents q = {#} \<Longrightarrow> nxt q = (None, q)"
    and next_inv: "inv q \<Longrightarrow> inv (snd (nxt q))"
    and next_least: "inv q \<Longrightarrow> contents q \<noteq> {#} \<Longrightarrow>
      \<exists>e q'. nxt q = (Some e, q') \<and> contents q = add_mset e (contents q') \<and>
             (\<forall>x \<in># contents q. key e \<le> key x)"
begin

lemma next_Some:
  assumes "inv q" and "nxt q = (Some e, q')"
  shows "contents q = add_mset e (contents q')" "inv q'" "\<And>x. x \<in># contents q \<Longrightarrow> key e \<le> key x"
proof -
  have ne: "contents q \<noteq> {#}" using next_empty [of q] assms(2) by auto
  then obtain e1 q1 where "nxt q = (Some e1, q1)" "contents q = add_mset e1 (contents q1)"
      "\<forall>x \<in># contents q. key e1 \<le> key x"
    using next_least [OF assms(1)] by blast
  with assms show "contents q = add_mset e (contents q')" "inv q'"
      "\<And>x. x \<in># contents q \<Longrightarrow> key e \<le> key x"
    using next_inv [of q] by auto
qed

lemma next_None: "inv q \<Longrightarrow> nxt q = (None, q') \<Longrightarrow> contents q = {#} \<and> q' = q"
  using next_least [of q] next_empty [of q] by fastforce

lemma drain_contents: "inv q \<Longrightarrow> mset (take_next nxt (size_of q) q) = contents q"
proof (induction "size_of q" arbitrary: q)
  case 0
  then show ?case by (simp add: size_contents)
next
  case (Suc n)
  then have "contents q \<noteq> {#}" by (auto simp: size_contents)
  then obtain e q' where n: "nxt q = (Some e, q')" using next_least [OF Suc.prems] by blast
  note q' = next_Some [OF Suc.prems n]
  then have "size_of q' = n" using Suc.hyps(2) by (simp add: size_contents)
  then have "mset (take_next nxt n q') = contents q'" using Suc.hyps(1) [of q'] q'(2) by simp
  then show ?case using n q'(1) Suc.hyps(2) [symmetric] by simp
qed

lemma take_next_subset: "inv q \<Longrightarrow> set (take_next nxt n q) \<subseteq> set_mset (contents q)"
proof (induction n arbitrary: q)
  case (Suc n)
  show ?case
  proof (cases "nxt q")
    case (Pair oe q')
    show ?thesis
    proof (cases oe)
      case (Some e)
      note q' = next_Some [OF Suc.prems Pair [unfolded Some]]
      with Suc.IH [OF q'(2)] show ?thesis by (auto simp: Pair Some)
    qed (simp add: Pair)
  qed
qed simp

lemma take_next_sorted: "inv q \<Longrightarrow> sorted (map key (take_next nxt n q))"
proof (induction n arbitrary: q)
  case (Suc n)
  show ?case
  proof (cases "nxt q")
    case (Pair oe q')
    show ?thesis
    proof (cases oe)
      case (Some e)
      note q' = next_Some [OF Suc.prems Pair [unfolded Some]]
      have "\<forall>x \<in> set (take_next nxt n q'). key e \<le> key x"
        using take_next_subset [OF q'(2), of n] q'(1,3) by auto
      then show ?thesis using Suc.IH [OF q'(2)] by (simp add: Pair Some)
    qed (simp add: Pair)
  qed
qed simp

end

section \<open>The heap implements the contract\<close>

definition event_key :: "event \<Rightarrow> int \<times> int \<times> int" where
  "event_key e = (ev_time e, ev_priority e, ev_sequence e)"

lemma event_less_key: "event_less a b \<longleftrightarrow> event_key a < event_key b"
  by (auto simp: event_less_def event_key_def less_prod_def)

interpretation evord: strict_weak_order event_less
  by unfold_locales (auto simp: event_less_key)

definition eq_contents :: "event_queue \<Rightarrow> event multiset" where
  "eq_contents q = mset (eq_events q)"

definition eq_inv :: "event_queue \<Rightarrow> bool" where
  "eq_inv q \<longleftrightarrow> evord.is_heap (eq_events q) (length (eq_events q))"

lemma eq_inv_new: "eq_inv NewEventQueue" "eq_contents NewEventQueue = {#}"
  by (simp_all add: eq_inv_def NewEventQueue_def heap_init_def evord.is_heap_def eq_contents_def)

lemma eq_inv_clear: "eq_inv (Clear q)" "eq_contents (Clear q) = {#}"
  by (simp_all add: eq_inv_def Clear_def heap_init_def evord.is_heap_def eq_contents_def)

lemma Next_nonempty:
  "eq_events q \<noteq> [] \<Longrightarrow>
   Next q = (Some (eq_events q ! 0), q\<lparr>eq_events := snd (heap_pop event_less (eq_events q))\<rparr>)"
  using heap_pop_elem [of "eq_events q" event_less]
  by (cases "heap_pop event_less (eq_events q)") (simp add: Next_def eq_Len_def)

interpretation evq: event_pq Schedule Next Size eq_contents eq_inv event_key
proof
  fix q :: event_queue and e
  show "Size q = size (eq_contents q)" by (simp add: Size_def eq_Len_def eq_contents_def)
  show "eq_inv (Schedule q e)" if "eq_inv q"
    using that evord.heap_push_heap [of "eq_events q" e] mset_heap_push [of event_less "eq_events q" e]
    by (simp add: eq_inv_def Schedule_def) (metis size_add_mset size_mset)
  show "eq_contents (Schedule q e) = add_mset e (eq_contents q)"
    by (simp add: eq_contents_def Schedule_def mset_heap_push)
  show "Next q = (None, q)" if "eq_contents q = {#}"
    using that by (simp add: eq_contents_def Next_def eq_Len_def)
  show "eq_inv (snd (Next q))" if "eq_inv q"
  proof (cases "eq_events q = []")
    case False
    then have "size (mset (eq_events q)) = Suc (length (snd (heap_pop event_less (eq_events q))))"
      using mset_heap_pop [OF False, of event_less] by (metis size_add_mset size_mset)
    then show ?thesis
      using False that evord.heap_pop_heap [of "eq_events q"] by (simp add: Next_nonempty eq_inv_def)
  qed (use that in \<open>simp add: Next_def eq_Len_def\<close>)
  show "\<exists>e q'. Next q = (Some e, q') \<and> eq_contents q = add_mset e (eq_contents q') \<and>
      (\<forall>x \<in># eq_contents q. event_key e \<le> event_key x)"
    if i: "eq_inv q" and n: "eq_contents q \<noteq> {#}"
  proof -
    have ne: "eq_events q \<noteq> []" using n by (simp add: eq_contents_def)
    have "\<not> event_less x (eq_events q ! 0)" if "x \<in> set (eq_events q)" for x
      using evord.heap_pop_least [of "eq_events q" x] i ne that by (simp add: eq_inv_def heap_pop_elem)
    then show ?thesis
      using ne mset_heap_pop [OF ne, of event_less]
      by (auto simp: Next_nonempty eq_contents_def event_less_key not_less)
  qed
qed

lemma Peek_Next: "fst (Next q) = Peek q"
  by (simp add: Peek_def Next_def eq_Len_def heap_pop_elem case_prod_unfold)

lemma Size_Schedule [simp]: "Size (Schedule q e) = Suc (Size q)"
  by (simp add: evq.size_contents evq.sched_contents)

lemma Size_Next: "eq_inv q \<Longrightarrow> Next q = (Some e, q') \<Longrightarrow> Size q = Suc (Size q')"
  using evq.next_Some (1) [of q e q'] by (simp add: evq.size_contents)

section \<open>Properties\<close>

lemma schedule_all:
  "eq_inv q \<Longrightarrow> eq_inv (foldl Schedule q es) \<and> eq_contents (foldl Schedule q es) = mset es + eq_contents q"
  by (induction es arbitrary: q) (simp_all add: evq.sched_inv evq.sched_contents)

lemma sorted_key_unique:
  assumes "mset xs = mset ys" and "distinct (map f ys)" and "sorted (map f xs)" and "sorted (map f ys)"
  shows "xs = ys"
proof -
  have "mset (map f xs) = mset (map f ys)" using assms(1) by simp
  then have "map f xs = map f ys"
    using assms(3,4) by (metis properties_for_sort)
  moreover have "inj_on f (set xs \<union> set ys)"
    using assms(1,2) by (metis distinct_map mset_eq_setD sup.idem)
  ultimately show ?thesis by (rule map_inj_on)
qed

lemma drain_sorts:
  assumes "distinct (map event_key es)"
  shows "take_next Next (length es) (foldl Schedule NewEventQueue es) = sort_key event_key es"
proof -
  let ?q = "foldl Schedule NewEventQueue es"
  have q: "eq_inv ?q" "eq_contents ?q = mset es"
    using schedule_all [of NewEventQueue es] eq_inv_new by simp_all
  then have "Size ?q = length es" by (simp add: evq.size_contents)
  then have "mset (take_next Next (length es) ?q) = mset es"
    using evq.drain_contents [OF q(1)] q(2) by simp
  then show ?thesis
    using assms evq.take_next_sorted [OF q(1)]
    by (intro sorted_key_unique [where f = event_key]) (simp_all add: distinct_map)
qed

text \<open>C2: scheduling any events in any order and then taking every event out of the queue of
  \<open>event.go\<close> gives exactly those events in the order of time, then priority, then schedule
  sequence: the heap implements sorting by that key. (The engine gives every event its own
  sequence number, so that the keys are distinct.)\<close>

theorem event_queue_sorts:
  assumes "distinct (map event_key es)"
  shows "take_next Next (length es) (foldl Schedule NewEventQueue es) = sort_key event_key es"
  using assms by (rule drain_sorts)

definition demo_event :: "gotime \<Rightarrow> int \<Rightarrow> int \<Rightarrow> event" where
  "demo_event t p s = \<lparr>ev_id = ''e'', ev_type = EventTypeRequestArrival, ev_time = t, ev_priority = p,
     ev_sequence = s, ev_request = None, ev_service_id = '''', ev_data = []\<rparr>"

theorem event_queue_sorts_witness:
  "take_next Next 3 (foldl Schedule NewEventQueue [demo_event 5 0 1, demo_event 3 1 2, demo_event 3 0 3])
   = [demo_event 3 0 3, demo_event 3 1 2, demo_event 5 0 1]"
  using event_queue_sorts [of "[demo_event 5 0 1, demo_event 3 1 2, demo_event 3 0 3]"]
  by (simp add: event_key_def demo_event_def numeral_3_eq_3)

text \<open>\<open>Next\<close> on a non-empty queue removes one event whose key is least, and keeps the
  rest and the heap shape; on an empty queue it returns nil and changes nothing. \<open>Peek\<close>
  returns the event the following \<open>Next\<close> will remove.\<close>

theorem event_queue_next:
  assumes "eq_inv q"
  shows "(case Next q of
      (None, q') \<Rightarrow> IsEmpty q \<and> q' = q
    | (Some e, q') \<Rightarrow> \<not> IsEmpty q \<and> eq_contents q = add_mset e (eq_contents q') \<and> eq_inv q' \<and>
        (\<forall>x \<in># eq_contents q. \<not> event_less x e) \<and> Size q = Suc (Size q'))
    \<and> Peek q = fst (Next q)"
proof (cases "Next q")
  case (Pair oe q')
  show ?thesis
  proof (cases oe)
    case None
    then show ?thesis using evq.next_None [OF assms] Pair
      by (simp add: IsEmpty_def evq.size_contents Peek_Next [symmetric])
  next
    case (Some e)
    note q' = evq.next_Some [OF assms Pair [unfolded Some]]
    show ?thesis using q' Size_Next [OF assms Pair [unfolded Some]]
      by (auto simp: Pair Some IsEmpty_def event_less_key not_less Peek_Next [symmetric])
  qed
qed

theorem event_queue_next_witness:
  "let q = Schedule (Schedule NewEventQueue (demo_event 5 0 1)) (demo_event 3 1 2) in
   (case Next q of
      (None, q') \<Rightarrow> IsEmpty q \<and> q' = q
    | (Some e, q') \<Rightarrow> \<not> IsEmpty q \<and> eq_contents q = add_mset e (eq_contents q') \<and> eq_inv q' \<and>
        (\<forall>x \<in># eq_contents q. \<not> event_less x e) \<and> Size q = Suc (Size q'))
    \<and> Peek q = fst (Next q)"
  unfolding Let_def by (rule event_queue_next) (simp add: evq.sched_inv eq_inv_new)

end
