(* ===== verification/Sim_Utils.thy ===== *)
theory Sim_Utils
  imports Go_Float
begin

text \<open>
  \<open>pkg/utils\<close>: the numeric helpers of \<open>math.go\<close>, the simulation clock of \<open>time.go\<close> and the
  backoff strategies of \<open>backoff.go\<close>. \<open>StdDev\<close> and \<open>Round\<close> (irrational results,
  formatting) are left out; \<open>math.Pow\<close> and the random source are parameters.
\<close>

section \<open>math.go\<close>

definition Min_int :: "int \<Rightarrow> int \<Rightarrow> int" where
  "Min_int a b = (if a < b then a else b)"

definition Max_int :: "int \<Rightarrow> int \<Rightarrow> int" where
  "Max_int a b = (if a > b then a else b)"

definition Clamp :: "int \<Rightarrow> int \<Rightarrow> int \<Rightarrow> int" where
  "Clamp value mn mx = (if value < mn then mn else if value > mx then mx else value)"

definition ClampFloat64 :: "float64 \<Rightarrow> float64 \<Rightarrow> float64 \<Rightarrow> float64" where
  "ClampFloat64 value mn mx = (if value < mn then mn else if value > mx then mx else value)"

definition Sum :: "float64 list \<Rightarrow> float64" where
  "Sum vs = foldl fadd 0 vs"

definition Mean :: "float64 list \<Rightarrow> float64" where
  "Mean vs = (if vs = [] then 0 else fdiv (foldl fadd 0 vs) (of_int64 (int (length vs))))"

definition Variance :: "float64 list \<Rightarrow> float64" where
  "Variance vs =
     (if vs = [] then 0
      else let mean = Mean vs;
               sumSquares = foldl (\<lambda>acc v. let diff = fsub v mean in fadd acc (fmul diff diff)) 0 vs
           in fdiv sumSquares (of_int64 (int (length vs))))"

definition Percentile :: "float64 list \<Rightarrow> float64 \<Rightarrow> go_error + float64" where
  "Percentile vs percentile =
     (if vs = [] then Inr 0
      else let sorted_vs = sort vs;
               index = fmul (fdiv percentile 100) (of_int64 (int (length sorted_vs) - 1));
               lower = \<lfloor>index\<rfloor>;
               upper = \<lceil>index\<rceil>
           in if lower = upper then slice_get sorted_vs lower
              else let weight = fsub index (of_int64 lower)
                   in err_bind (slice_get sorted_vs lower) (\<lambda>l.
                      err_bind (slice_get sorted_vs upper) (\<lambda>u.
                      Inr (fadd (fmul l (fsub 1 weight)) (fmul u weight)))))"

definition P50 :: "float64 list \<Rightarrow> go_error + float64" where
  "P50 vs = Percentile vs 50"

definition P95 :: "float64 list \<Rightarrow> go_error + float64" where
  "P95 vs = Percentile vs 95"

definition P99 :: "float64 list \<Rightarrow> go_error + float64" where
  "P99 vs = Percentile vs 99"

section \<open>time.go\<close>

record sim_time =
  st_current :: gotime

definition NewSimTime :: "gotime \<Rightarrow> sim_time" where
  "NewSimTime start = \<lparr>st_current = start\<rparr>"

definition st_Now :: "sim_time \<Rightarrow> gotime" where
  "st_Now st = st_current st"

definition st_Advance :: "sim_time \<Rightarrow> duration \<Rightarrow> sim_time" where
  "st_Advance st d = st\<lparr>st_current := st_current st + d\<rparr>"

definition st_Set :: "sim_time \<Rightarrow> gotime \<Rightarrow> sim_time" where
  "st_Set st t = st\<lparr>st_current := t\<rparr>"

definition st_Since :: "sim_time \<Rightarrow> gotime \<Rightarrow> duration" where
  "st_Since st t = time_sub (st_current st) t"

definition st_Until :: "sim_time \<Rightarrow> gotime \<Rightarrow> duration" where
  "st_Until st t = time_sub t (st_current st)"

definition MsToTime :: "float64 \<Rightarrow> duration" where
  "MsToTime ms = ftrunc (fmul ms (of_int64 nanos_per_ms))"

definition TimeToMs :: "duration \<Rightarrow> float64" where
  "TimeToMs d = fdiv (of_int64 d) (of_int64 nanos_per_ms)"

definition MinTime :: "gotime \<Rightarrow> gotime \<Rightarrow> gotime" where
  "MinTime a b = (if a < b then a else b)"

definition MaxTime :: "gotime \<Rightarrow> gotime \<Rightarrow> gotime" where
  "MaxTime a b = (if a > b then a else b)"

definition MinDuration :: "duration \<Rightarrow> duration \<Rightarrow> duration" where
  "MinDuration a b = (if a < b then a else b)"

definition MaxDuration :: "duration \<Rightarrow> duration \<Rightarrow> duration" where
  "MaxDuration a b = (if a > b then a else b)"

section \<open>backoff.go\<close>

datatype backoff_strategy =
    ConstantBackoff duration
  | LinearBackoff duration duration
  | ExponentialBackoff duration float64 duration bool

definition NewExponentialBackoff :: "duration \<Rightarrow> duration \<Rightarrow> float64 \<Rightarrow> bool \<Rightarrow> backoff_strategy" where
  "NewExponentialBackoff baseDelay maxDelay multiplier jitter =
     ExponentialBackoff baseDelay (if multiplier \<le> 0 then 2 else multiplier) maxDelay jitter"

fun NextDelay :: "(float64 \<Rightarrow> float64 \<Rightarrow> float64) \<Rightarrow> float64 \<Rightarrow> backoff_strategy \<Rightarrow> int \<Rightarrow> duration" where
  "NextDelay pow rnd (ConstantBackoff d) attempt = d"
| "NextDelay pow rnd (LinearBackoff baseDelay maxDelay) attempt =
     (let delay = wrap64 (baseDelay * (attempt + 1))
      in if delay > maxDelay then maxDelay else delay)"
| "NextDelay pow rnd (ExponentialBackoff baseDelay multiplier maxDelay jitter) attempt =
     (let delay0 = fmul (of_int64 baseDelay) (pow multiplier (of_int64 attempt));
          delay1 = (if delay0 > of_int64 maxDelay then of_int64 maxDelay else delay0);
          delay = (if jitter then fmul delay1 (fadd (1 / 2) rnd) else delay1)
      in ftrunc delay)"

definition BackoffFromConfig :: "string \<Rightarrow> int \<Rightarrow> int \<Rightarrow> backoff_strategy" where
  "BackoffFromConfig backoffType baseMs maxMs =
     (let baseDelay = wrap64 (baseMs * nanos_per_ms);
          maxDelay0 = wrap64 (maxMs * nanos_per_ms);
          maxDelay = (if maxDelay0 = 0 then 30 * nanos_per_s else maxDelay0)
      in if backoffType = ''constant'' then ConstantBackoff baseDelay
         else if backoffType = ''linear'' then LinearBackoff baseDelay maxDelay
         else if backoffType = ''exponential'' then NewExponentialBackoff baseDelay maxDelay 2 True
         else NewExponentialBackoff baseDelay maxDelay 2 True)"

section \<open>Percentiles\<close>

lemma Clamp_bounds: "mn \<le> mx \<Longrightarrow> mn \<le> Clamp v mn mx \<and> Clamp v mn mx \<le> mx"
  by (simp add: Clamp_def)

lemma percentile_index_bounds:
  assumes p: "0 \<le> p" "p \<le> 100" and n: "0 < n" "n < 2 ^ 53"
  shows "0 \<le> fmul (fdiv p 100) (of_int64 (n - 1))"
    and "fmul (fdiv p 100) (of_int64 (n - 1)) \<le> of_int (n - 1)"
proof -
  have i: "of_int64 (n - 1) = of_int (n - 1)" using n by (intro of_int64_exact) simp
  have i0: "(0 :: rat) \<le> of_int (n - 1)" using n by simp
  have d: "0 \<le> fdiv p 100" using p by (simp add: fdiv_nonneg)
  have "fdiv p 100 \<le> fdiv 100 100" using p by (intro fdiv_mono) simp_all
  also have "fdiv 100 100 = 1" using fl_int [of 1] by (simp add: fdiv_def)
  finally have d1: "fdiv p 100 \<le> 1" .
  show "0 \<le> fmul (fdiv p 100) (of_int64 (n - 1))"
    using d i0 by (simp only: i fmul_nonneg)
  have "fmul (fdiv p 100) (of_int64 (n - 1)) \<le> fmul 1 (of_int (n - 1))"
    unfolding i using d d1 i0 by (intro fmul_mono) simp_all
  also have "\<dots> = of_int (n - 1)" using fl_int [of "n - 1"] n by (simp add: fmul_def)
  finally show "fmul (fdiv p 100) (of_int64 (n - 1)) \<le> of_int (n - 1)" .
qed

lemma Percentile_defined:
  assumes p: "0 \<le> p" "p \<le> 100" and n: "int (length vs) < 2 ^ 53"
  shows "\<exists>v. Percentile vs p = Inr v"
proof (cases "vs = []")
  case False
  define index where "index = fmul (fdiv p 100) (of_int64 (int (length vs) - 1))"
  have "0 \<le> index" "index \<le> of_int (int (length vs) - 1)"
    using percentile_index_bounds [OF p, of "int (length vs)"] n False by (simp_all add: index_def)
  then have lo: "0 \<le> \<lfloor>index\<rfloor>" and up: "\<lceil>index\<rceil> \<le> int (length vs) - 1"
    by (simp_all only: ceiling_le_iff zero_le_floor)
  have "\<lfloor>index\<rfloor> < int (length (sort vs))" "\<lceil>index\<rceil> < int (length (sort vs))" "0 \<le> \<lceil>index\<rceil>"
    using lo up floor_le_ceiling [of index] by (simp_all only: length_sort)
  with lo show ?thesis
    using False by (simp add: Percentile_def Let_def index_def [symmetric])
qed (simp add: Percentile_def)

text \<open>\<open>Percentile\<close> of \<open>pkg/utils/math.go\<close> never reads outside the sorted slice for a
  percentile between 0 and 100, in the rounded arithmetic the code performs; the 0th percentile
  is the least value and the 100th the greatest.\<close>

theorem percentile_in_range:
  assumes "0 \<le> p" and "p \<le> 100" and "int (length vs) < 2 ^ 53"
  shows "(\<exists>v. Percentile vs p = Inr v)
       \<and> (vs \<noteq> [] \<longrightarrow> Percentile vs 0 = Inr (Min (set vs)) \<and> Percentile vs 100 = Inr (Max (set vs)))"
proof (intro conjI impI)
  show "\<exists>v. Percentile vs p = Inr v" using Percentile_defined assms by blast
next
  assume ne: "vs \<noteq> []"
  have "sort vs ! 0 = Min (set vs)"
  proof -
    from ne obtain x xs where xs: "sort vs = x # xs" by (metis list.exhaust set_empty set_sort)
    then have "\<forall>y \<in> set (sort vs). x \<le> y" using sorted_sort [of vs] by (simp only: sorted_simps) simp
    moreover have "x \<in> set (sort vs)" by (simp add: xs del: set_sort)
    ultimately have "Min (set (sort vs)) = x" by (intro Min_eqI) auto
    then show ?thesis using xs by (metis nth_Cons_0 set_sort)
  qed
  then show "Percentile vs 0 = Inr (Min (set vs))"
    using ne by (simp add: Percentile_def fdiv_def fmul_def)
next
  assume ne: "vs \<noteq> []"
  have i: "fmul (fdiv 100 100) (of_int64 (int (length vs) - 1)) = of_int (int (length vs) - 1)"
    using ne assms(3) fl_int [of 1] fl_int [of "int (length vs) - 1"]
    by (simp add: fdiv_def fmul_def of_int64_def)
  have "sort vs ! (length vs - 1) = Max (set vs)"
  proof -
    have "sort vs ! i \<le> sort vs ! (length vs - 1)" if "i < length vs" for i
      using that sorted_sort [of vs] by (intro sorted_nth_mono) simp_all
    then have "\<forall>y \<in> set (sort vs). y \<le> sort vs ! (length vs - 1)"
      by (metis in_set_conv_nth length_sort)
    moreover have "sort vs ! (length vs - 1) \<in> set (sort vs)" using ne by (intro nth_mem) simp
    ultimately have "Max (set (sort vs)) = sort vs ! (length vs - 1)" by (intro Max_eqI) auto
    then show ?thesis by simp
  qed
  moreover have "nat (int (length vs) - 1) = length vs - 1" by simp
  ultimately show "Percentile vs 100 = Inr (Max (set vs))"
    using ne by (simp add: Percentile_def i Let_def)
qed

theorem percentile_in_range_witness:
  "(\<exists>v. Percentile [3, 1, 2] 95 = Inr v)
   \<and> Percentile [3, 1, 2] 0 = Inr 1 \<and> Percentile [3, 1, 2] 100 = Inr 3"
  using percentile_in_range [of 95 "[3, 1, 2]"] by simp

end
