(* ===== verification/Go_Hash.thy ===== *)
theory Go_Hash
  imports Main "HOL-Library.Word"
begin

text \<open>The FNV-1a hashes of Go's \<open>hash/fnv\<close> (\<open>fnv.New32a\<close> and \<open>fnv.New64a\<close>).\<close>

unbundle bit_operations_syntax

definition fnv32a :: "string \<Rightarrow> 32 word" where
  "fnv32a s = foldl (\<lambda>h c. (h XOR of_nat (of_char c)) * 16777619) 2166136261 s"

definition fnv64a :: "string \<Rightarrow> 64 word" where
  "fnv64a s = foldl (\<lambda>h c. (h XOR of_nat (of_char c)) * 1099511628211) 14695981039346656037 s"

lemma fnv32a_bound: "unat (fnv32a s) < 2 ^ 32"
  using unsigned_less [of "fnv32a s"] by simp

end
