(* ===== verification/Run_Manager.thy ===== *)
theory Run_Manager
  imports Sim_Models Sim_Utils Go_Hash
begin

text \<open>
  \<open>internal/engine/run.go\<close>: the run manager, which owns the lifecycle of one run, the active
  requests, a bounded sample of the completed ones and the latency summary. The environment
  (\<open>os.Getenv\<close>), \<open>strconv.ParseFloat\<close> and the wall clock are parameters. A call-back set by
  the caller is a flag, and calling it is part of the result of \<open>AddRequest\<close>. The infinite
  initial bounds of the latency summary are \<open>None\<close>.
\<close>

section \<open>Latency summary\<close>

abbreviation defaultLatencyReservoirSize :: int where
  "defaultLatencyReservoirSize \<equiv> 2048"

record latency_summary =
  ls_count :: int
  ls_sum :: float64
  ls_min :: "float64 option"
  ls_max :: "float64 option"
  ls_mean :: float64
  ls_reservoir :: "float64 list"
  ls_maxResSize :: int
  ls_seenValues :: int
  ls_dirty :: bool
  ls_cachedP50 :: float64
  ls_cachedP95 :: float64
  ls_cachedP99 :: float64

record latency_snapshot =
  sn_Count :: int
  sn_Mean :: float64
  sn_P50 :: float64
  sn_P95 :: float64
  sn_P99 :: float64

definition loadPositiveIntEnv :: "(string \<Rightarrow> string) \<Rightarrow> string \<Rightarrow> int \<Rightarrow> int" where
  "loadPositiveIntEnv getenv key d =
     (let v = getenv key in
      if v = [] then d
      else case atoi v of None \<Rightarrow> d | Some n \<Rightarrow> if n \<le> 0 then d else n)"

definition newLatencySummary :: "int \<Rightarrow> latency_summary" where
  "newLatencySummary maxReservoir =
     \<lparr>ls_count = 0, ls_sum = 0, ls_min = None, ls_max = None, ls_mean = 0, ls_reservoir = [],
      ls_maxResSize = (if maxReservoir \<le> 0 then defaultLatencyReservoirSize else maxReservoir),
      ls_seenValues = 0, ls_dirty = False, ls_cachedP50 = 0, ls_cachedP95 = 0, ls_cachedP99 = 0\<rparr>"

definition ls_record :: "latency_summary \<Rightarrow> float64 \<Rightarrow> latency_summary" where
  "ls_record s value =
     (let count = ls_count s + 1;
          sm = fadd (ls_sum s) value;
          mn = (case ls_min s of None \<Rightarrow> Some value | Some m \<Rightarrow> if value < m then Some value else Some m);
          mx = (case ls_max s of None \<Rightarrow> Some value | Some m \<Rightarrow> if value > m then Some value else Some m);
          seen = ls_seenValues s + 1;
          res = (if int (length (ls_reservoir s)) < ls_maxResSize s then ls_reservoir s @ [value]
                 else if ls_maxResSize s > 0 then
                   (let idx = go_mod (wrap64 (seen * 1103515245)) (ls_maxResSize s)
                    in if 0 \<le> idx \<and> idx < int (length (ls_reservoir s))
                       then (ls_reservoir s)[nat idx := value] else ls_reservoir s)
                 else ls_reservoir s)
      in s\<lparr>ls_count := count, ls_sum := sm, ls_min := mn, ls_max := mx,
           ls_mean := fdiv sm (of_int64 count), ls_seenValues := seen, ls_reservoir := res,
           ls_dirty := True\<rparr>)"

definition ensurePercentiles :: "latency_summary \<Rightarrow> go_error + latency_summary" where
  "ensurePercentiles s =
     (if \<not> ls_dirty s then Inr s
      else if ls_reservoir s = [] then
        Inr (s\<lparr>ls_cachedP50 := 0, ls_cachedP95 := 0, ls_cachedP99 := 0, ls_dirty := False\<rparr>)
      else let vals = sort (ls_reservoir s) in
        err_bind (P50 vals) (\<lambda>p50. err_bind (P95 vals) (\<lambda>p95. err_bind (P99 vals) (\<lambda>p99.
          Inr (s\<lparr>ls_cachedP50 := p50, ls_cachedP95 := p95, ls_cachedP99 := p99, ls_dirty := False\<rparr>)))))"

definition ls_snapshot :: "latency_summary \<Rightarrow> go_error + latency_snapshot \<times> latency_summary" where
  "ls_snapshot s =
     (if ls_count s = 0 then
        Inr (\<lparr>sn_Count = 0, sn_Mean = 0, sn_P50 = 0, sn_P95 = 0, sn_P99 = 0\<rparr>, s)
      else err_bind (ensurePercentiles s) (\<lambda>s'.
        Inr (\<lparr>sn_Count = ls_count s', sn_Mean = ls_mean s', sn_P50 = ls_cachedP50 s',
              sn_P95 = ls_cachedP95 s', sn_P99 = ls_cachedP99 s'\<rparr>, s')))"

section \<open>Run manager\<close>

record run_manager =
  rm_run :: run
  rm_traces :: "(string, trace) gomap"
  rm_requests :: "(string, request) gomap"
  rm_completedRequests :: "(string, request) gomap"
  rm_completedOrder :: "string list"
  rm_serviceMetrics :: "(string, service_metrics) gomap"
  rm_latencySummary :: latency_summary
  rm_totalRequests :: int
  rm_completedCount :: int
  rm_failedCount :: int
  rm_maxActiveRequests :: int
  rm_maxTotalRequests :: int
  rm_maxCompletedKeep :: int
  rm_traceSamplingRate :: float64
  rm_onActiveLimitReached :: bool
  rm_onTotalLimitReached :: bool
  rm_cancelled :: bool

record run_manager_snapshot =
  rs_ActiveRequests :: int
  rs_TotalRequests :: int
  rs_CompletedRequests :: int
  rs_FailedRequests :: int
  rs_RetainedCompletedSamples :: int

definition NewRunManager ::
  "(string \<Rightarrow> string) \<Rightarrow> (string \<Rightarrow> float64 option) \<Rightarrow> gotime \<Rightarrow> string \<Rightarrow> run_manager" where
  "NewRunManager getenv parseFloat now runID =
     (let s1 = getenv ''SIMD_MAX_COMPLETED_REQUEST_TRACES'';
          maxCompletedKeep =
            (if s1 = [] then 1000
             else case atoi s1 of Some n \<Rightarrow> if n > 0 then n else 1000 | None \<Rightarrow> 1000);
          s2 = getenv ''SIMD_REQUEST_TRACE_SAMPLING_RATE'';
          rate =
            (if s2 = [] then 1
             else case parseFloat s2 of Some v \<Rightarrow> if v > 0 \<and> v \<le> 1 then v else 1 | None \<Rightarrow> 1);
          reservoir = loadPositiveIntEnv getenv ''SIMD_RUN_LATENCY_RESERVOIR_SIZE'' defaultLatencyReservoirSize
      in \<lparr>rm_run = \<lparr>run_id = runID, run_status = RunPending, run_config = [], run_start_time = now,
                     run_end_time = 0, run_duration = 0, run_metrics_of = None, run_error = [],
                     run_metadata = []\<rparr>,
          rm_traces = [], rm_requests = [], rm_completedRequests = [], rm_completedOrder = [],
          rm_serviceMetrics = [], rm_latencySummary = newLatencySummary reservoir,
          rm_totalRequests = 0, rm_completedCount = 0, rm_failedCount = 0,
          rm_maxActiveRequests = 0, rm_maxTotalRequests = 0, rm_maxCompletedKeep = maxCompletedKeep,
          rm_traceSamplingRate = rate, rm_onActiveLimitReached = False,
          rm_onTotalLimitReached = False, rm_cancelled = False\<rparr>)"

definition rm_Start :: "gotime \<Rightarrow> run_manager \<Rightarrow> run_manager" where
  "rm_Start now rm = rm\<lparr>rm_run := (rm_run rm)\<lparr>run_status := RunRunning, run_start_time := now\<rparr>\<rparr>"

definition calculateMetrics :: "run_manager \<Rightarrow> go_error + run_metrics \<times> run_manager" where
  "calculateMetrics rm =
     err_bind (ls_snapshot (rm_latencySummary rm)) (\<lambda>(latency, ls).
       let d = time_sub (run_end_time (rm_run rm)) (run_start_time (rm_run rm));
           throughput = (if d > 0 then fdiv (of_int64 (rm_totalRequests rm)) (duration_seconds d) else 0)
       in Inr (\<lparr>rmx_total_requests = rm_totalRequests rm,
                rmx_successful_requests = rm_totalRequests rm - rm_failedCount rm,
                rmx_failed_requests = rm_failedCount rm,
                rmx_latency_p50 = sn_P50 latency, rmx_latency_p95 = sn_P95 latency,
                rmx_latency_p99 = sn_P99 latency, rmx_latency_mean = sn_Mean latency,
                rmx_throughput_rps = throughput, rmx_service_metrics = rm_serviceMetrics rm\<rparr>,
               rm\<lparr>rm_latencySummary := ls\<rparr>))"

definition rm_Complete :: "gotime \<Rightarrow> run_manager \<Rightarrow> go_error + run_manager" where
  "rm_Complete now rm =
     (let r = rm_run rm;
          rm1 = rm\<lparr>rm_run := r\<lparr>run_status := RunCompleted, run_end_time := now,
                              run_duration := time_sub now (run_start_time r)\<rparr>\<rparr>
      in err_bind (calculateMetrics rm1) (\<lambda>(metrics, rm2).
           Inr (rm2\<lparr>rm_run := (rm_run rm2)\<lparr>run_metrics_of := Some metrics\<rparr>\<rparr>)))"

definition rm_Fail :: "gotime \<Rightarrow> string \<Rightarrow> run_manager \<Rightarrow> run_manager" where
  "rm_Fail now err rm =
     (let r = rm_run rm in
      rm\<lparr>rm_run := r\<lparr>run_status := RunFailed, run_end_time := now,
                     run_duration := time_sub now (run_start_time r), run_error := err\<rparr>\<rparr>)"

definition rm_Cancel :: "run_manager \<Rightarrow> run_manager" where
  "rm_Cancel rm = rm\<lparr>rm_cancelled := True\<rparr>"

definition GetRun :: "run_manager \<Rightarrow> run" where
  "GetRun rm = rm_run rm"

definition AddTrace :: "trace \<Rightarrow> run_manager \<Rightarrow> run_manager" where
  "AddTrace t rm = rm\<lparr>rm_traces := gm_put (tr_id t) t (rm_traces rm)\<rparr>"

definition GetTrace :: "run_manager \<Rightarrow> string \<Rightarrow> trace option" where
  "GetTrace rm k = gm_get (rm_traces rm) k"

datatype limit_notice = TotalLimitReached int int | ActiveLimitReached int int

definition AddRequest :: "request \<Rightarrow> run_manager \<Rightarrow> run_manager \<times> limit_notice option" where
  "AddRequest r rm =
     (if rm_maxTotalRequests rm > 0 \<and> rm_totalRequests rm \<ge> rm_maxTotalRequests rm then
        (rm, if rm_onTotalLimitReached rm
             then Some (TotalLimitReached (rm_totalRequests rm + 1) (rm_maxTotalRequests rm)) else None)
      else if rm_maxActiveRequests rm > 0 \<and> int (length (rm_requests rm)) \<ge> rm_maxActiveRequests rm then
        (rm, if rm_onActiveLimitReached rm
             then Some (ActiveLimitReached (int (length (rm_requests rm)) + 1) (rm_maxActiveRequests rm)) else None)
      else (rm\<lparr>rm_requests := gm_put (rq_id r) r (rm_requests rm),
               rm_totalRequests := rm_totalRequests rm + 1\<rparr>, None))"

definition SetMaxRequestsTracked :: "int \<Rightarrow> bool \<Rightarrow> run_manager \<Rightarrow> run_manager" where
  "SetMaxRequestsTracked mx cb rm = rm\<lparr>rm_maxActiveRequests := mx, rm_onActiveLimitReached := cb\<rparr>"

definition SetMaxTotalRequests :: "int \<Rightarrow> bool \<Rightarrow> run_manager \<Rightarrow> run_manager" where
  "SetMaxTotalRequests mx cb rm = rm\<lparr>rm_maxTotalRequests := mx, rm_onTotalLimitReached := cb\<rparr>"

definition GetRequest :: "run_manager \<Rightarrow> string \<Rightarrow> request option" where
  "GetRequest rm k = (case gm_get (rm_requests rm) k of Some r \<Rightarrow> Some r
                      | None \<Rightarrow> gm_get (rm_completedRequests rm) k)"

definition ListRequests :: "run_manager \<Rightarrow> request list" where
  "ListRequests rm = map snd (rm_requests rm) @
     List.map_filter (gm_get (rm_completedRequests rm)) (rm_completedOrder rm)"

definition shouldSampleCompletedRequest :: "run_manager \<Rightarrow> string \<Rightarrow> bool" where
  "shouldSampleCompletedRequest rm requestID =
     (if rm_traceSamplingRate rm \<ge> 1 then True
      else if rm_traceSamplingRate rm \<le> 0 then False
      else fdiv (of_int64 (uint (fnv32a requestID))) (of_int64 4294967295) < rm_traceSamplingRate rm)"

text \<open>The eviction loop \<open>for len(rm.completedOrder) > rm.maxCompletedKeep\<close>.\<close>

fun evict_completed :: "int \<Rightarrow> string list \<Rightarrow> (string, request) gomap \<Rightarrow> string list \<times> (string, request) gomap" where
  "evict_completed keep [] m = ([], m)"
| "evict_completed keep (x # xs) m =
     (if int (length (x # xs)) > keep then evict_completed keep xs (gm_del x m) else (x # xs, m))"

definition FinalizeRequest :: "request \<Rightarrow> run_manager \<Rightarrow> run_manager" where
  "FinalizeRequest r rm =
     (let rm1 = rm\<lparr>rm_requests := gm_del (rq_id r) (rm_requests rm),
                   rm_completedCount := rm_completedCount rm + 1,
                   rm_failedCount := (if rq_status r = ReqFailed \<or> rq_error r \<noteq> []
                                      then rm_failedCount rm + 1 else rm_failedCount rm)\<rparr>
      in if \<not> shouldSampleCompletedRequest rm (rq_id r) then rm1
         else let (order, m) = evict_completed (rm_maxCompletedKeep rm1)
                     (rm_completedOrder rm1 @ [rq_id r])
                     (gm_put (rq_id r) r (rm_completedRequests rm1))
              in rm1\<lparr>rm_completedRequests := m, rm_completedOrder := order\<rparr>)"

definition RecordLatency :: "float64 \<Rightarrow> run_manager \<Rightarrow> run_manager" where
  "RecordLatency ms rm = rm\<lparr>rm_latencySummary := ls_record (rm_latencySummary rm) ms\<rparr>"

definition UpdateServiceMetrics :: "string \<Rightarrow> service_metrics \<Rightarrow> run_manager \<Rightarrow> run_manager" where
  "UpdateServiceMetrics name m rm = rm\<lparr>rm_serviceMetrics := gm_put name m (rm_serviceMetrics rm)\<rparr>"

definition GetServiceMetrics :: "run_manager \<Rightarrow> string \<Rightarrow> service_metrics option" where
  "GetServiceMetrics rm name = gm_get (rm_serviceMetrics rm) name"

definition SetConfig :: "string \<Rightarrow> go_value \<Rightarrow> run_manager \<Rightarrow> run_manager" where
  "SetConfig k v rm = rm\<lparr>rm_run := (rm_run rm)\<lparr>run_config := gm_put k v (run_config (rm_run rm))\<rparr>\<rparr>"

definition GetConfig :: "run_manager \<Rightarrow> string \<Rightarrow> go_value option" where
  "GetConfig rm k = gm_get (run_config (rm_run rm)) k"

definition SetMetadata :: "string \<Rightarrow> string \<Rightarrow> run_manager \<Rightarrow> run_manager" where
  "SetMetadata k v rm = rm\<lparr>rm_run := (rm_run rm)\<lparr>run_metadata := gm_put k v (run_metadata (rm_run rm))\<rparr>\<rparr>"

definition GetMetadata :: "run_manager \<Rightarrow> string \<Rightarrow> string option" where
  "GetMetadata rm k = gm_get (run_metadata (rm_run rm)) k"

definition rm_Snapshot :: "run_manager \<Rightarrow> run_manager_snapshot" where
  "rm_Snapshot rm =
     \<lparr>rs_ActiveRequests = int (length (rm_requests rm)), rs_TotalRequests = rm_totalRequests rm,
      rs_CompletedRequests = rm_completedCount rm, rs_FailedRequests = rm_failedCount rm,
      rs_RetainedCompletedSamples = int (length (rm_completedRequests rm))\<rparr>"

record run_stats =
  gs_status :: run_status
  gs_elapsed :: duration
  gs_total_requests :: int
  gs_active_requests :: int
  gs_completed_requests :: int
  gs_failed_requests :: int
  gs_total_traces :: int
  gs_current_p50_ms :: float64
  gs_current_p95_ms :: float64
  gs_throughput_rps :: float64

definition rm_GetStats :: "gotime \<Rightarrow> run_manager \<Rightarrow> go_error + run_stats \<times> run_manager" where
  "rm_GetStats now rm =
     (let (completed, failed) =
        foldl (\<lambda>(c, f) (_, req).
            if rq_status req = ReqCompleted then (c + 1, f)
            else if rq_status req = ReqFailed \<or> rq_error req \<noteq> [] then (c, f + 1) else (c, f))
          (rm_completedCount rm, rm_failedCount rm) (rm_requests rm)
      in err_bind (ls_snapshot (rm_latencySummary rm)) (\<lambda>(latency, ls).
        let elapsed = time_sub now (run_start_time (rm_run rm));
            throughput = (if elapsed > 0 then fdiv (of_int64 (rm_totalRequests rm)) (duration_seconds elapsed) else 0)
        in Inr (\<lparr>gs_status = run_status (rm_run rm), gs_elapsed = elapsed,
                 gs_total_requests = rm_totalRequests rm,
                 gs_active_requests = int (length (rm_requests rm)),
                 gs_completed_requests = completed, gs_failed_requests = failed,
                 gs_total_traces = int (length (rm_traces rm)),
                 gs_current_p50_ms = sn_P50 latency, gs_current_p95_ms = sn_P95 latency,
                 gs_throughput_rps = throughput\<rparr>, rm\<lparr>rm_latencySummary := ls\<rparr>)))"

section \<open>Invariants\<close>

definition ls_inv :: "latency_summary \<Rightarrow> bool" where
  "ls_inv s \<longleftrightarrow> 0 < ls_maxResSize s \<and> 0 \<le> ls_count s \<and> ls_seenValues s = ls_count s \<and>
     int (length (ls_reservoir s)) = min (ls_count s) (ls_maxResSize s)"

lemma ls_inv_new: "ls_inv (newLatencySummary n)"
  by (simp add: ls_inv_def newLatencySummary_def)

lemma ls_inv_record: "ls_inv s \<Longrightarrow> ls_inv (ls_record s v)"
  by (auto simp: ls_inv_def ls_record_def Let_def)

lemma ls_inv_ensure: "ls_inv s \<Longrightarrow> ensurePercentiles s = Inr s' \<Longrightarrow> ls_inv s'"
  by (cases "P50 (sort (ls_reservoir s))"; cases "P95 (sort (ls_reservoir s))";
      cases "P99 (sort (ls_reservoir s))")
    (auto simp: ensurePercentiles_def ls_inv_def Let_def split: if_splits)

lemma ensurePercentiles_size: "ensurePercentiles s = Inr s' \<Longrightarrow> ls_maxResSize s' = ls_maxResSize s"
  by (cases "P50 (sort (ls_reservoir s))"; cases "P95 (sort (ls_reservoir s))";
      cases "P99 (sort (ls_reservoir s))")
    (auto simp: ensurePercentiles_def Let_def split: if_splits)

lemma ensurePercentiles_ok:
  assumes "ls_inv s" "ls_maxResSize s < 2 ^ 53"
  shows "\<exists>s'. ensurePercentiles s = Inr s'"
proof -
  have "int (length (sort (ls_reservoir s))) < 2 ^ 53" using assms by (simp add: ls_inv_def)
  then show ?thesis
    using Percentile_defined [of 50 "sort (ls_reservoir s)"]
      Percentile_defined [of 95 "sort (ls_reservoir s)"]
      Percentile_defined [of 99 "sort (ls_reservoir s)"]
    by (auto simp: ensurePercentiles_def P50_def P95_def P99_def Let_def)
qed

lemma ls_snapshot_ok:
  assumes "ls_inv s" "ls_maxResSize s < 2 ^ 53"
  shows "\<exists>sn s'. ls_snapshot s = Inr (sn, s') \<and> ls_inv s'"
  using ensurePercentiles_ok [OF assms] ls_inv_ensure [OF assms(1)] assms(1)
  by (auto simp: ls_snapshot_def)

definition rm_inv :: "run_manager \<Rightarrow> bool" where
  "rm_inv rm \<longleftrightarrow> gm_ok (rm_requests rm) \<and> gm_ok (rm_completedRequests rm) \<and>
     0 < rm_maxCompletedKeep rm \<and>
     int (length (rm_completedOrder rm)) \<le> rm_maxCompletedKeep rm \<and>
     fst ` set (rm_completedRequests rm) \<subseteq> set (rm_completedOrder rm) \<and>
     0 \<le> rm_failedCount rm \<and> rm_failedCount rm \<le> rm_completedCount rm \<and>
     ls_inv (rm_latencySummary rm)"

lemma rm_inv_new [inv_intros]: "rm_inv (NewRunManager getenv pf now rid)"
  by (auto simp: rm_inv_def NewRunManager_def Let_def ls_inv_new split: option.split)

lemma evict_completed_props:
  "evict_completed keep order m = (order', m') \<Longrightarrow> 0 \<le> keep \<Longrightarrow>
   fst ` set m \<subseteq> set order \<Longrightarrow> gm_ok m \<Longrightarrow>
   int (length order') \<le> keep \<and> fst ` set m' \<subseteq> set order' \<and> gm_ok m'"
proof (induction keep order m rule: evict_completed.induct)
  case (2 keep x xs m)
  have "fst ` set (gm_del x m) \<subseteq> set xs" using "2.prems"(3) by auto
  then show ?case using 2 by (auto split: if_splits)
qed auto

lemma evict_completed_order:
  "fst (evict_completed keep order m) = drop (nat (int (length order) - keep)) order \<or> keep < 0"
proof (induction keep order m rule: evict_completed.induct)
  case (2 keep x xs m)
  show ?case
  proof (cases "int (length (x # xs)) > keep")
    case True
    then have "nat (int (length (x # xs)) - keep) = Suc (nat (int (length xs) - keep))" by simp
    with True 2 show ?thesis by auto
  qed simp
qed simp

lemma evict_completed_keeps:
  "0 \<le> keep \<Longrightarrow> k \<notin> set (take (nat (int (length order) - keep)) order) \<Longrightarrow>
   gm_get (snd (evict_completed keep order m)) k = gm_get m k"
proof (induction keep order m rule: evict_completed.induct)
  case (2 keep x xs m)
  show ?case
  proof (cases "int (length (x # xs)) > keep")
    case True
    then have "nat (int (length (x # xs)) - keep) = Suc (nat (int (length xs) - keep))" by simp
    with True 2 show ?thesis by auto
  qed simp
qed simp

lemma rm_inv_add [inv_intros]: "rm_inv rm \<Longrightarrow> rm_inv (fst (AddRequest r rm))"
  by (simp add: rm_inv_def AddRequest_def)

lemma rm_inv_finalize [inv_intros]:
  assumes "rm_inv rm"
  shows "rm_inv (FinalizeRequest r rm)"
proof -
  let ?order = "rm_completedOrder rm @ [rq_id r]"
  let ?m = "gm_put (rq_id r) r (rm_completedRequests rm)"
  obtain order m where e: "evict_completed (rm_maxCompletedKeep rm) ?order ?m = (order, m)"
    by (cases "evict_completed (rm_maxCompletedKeep rm) ?order ?m")
  have "fst ` set ?m \<subseteq> set ?order" "gm_ok ?m" "0 \<le> rm_maxCompletedKeep rm"
    using assms by (auto simp: rm_inv_def)
  from evict_completed_props [OF e this(3,1,2)] show ?thesis
    using assms e by (auto simp: rm_inv_def FinalizeRequest_def Let_def)
qed

lemma rm_inv_latency [inv_intros]: "rm_inv rm \<Longrightarrow> rm_inv (RecordLatency v rm)"
  by (simp add: rm_inv_def RecordLatency_def ls_inv_record)

lemma calculateMetrics_ok:
  assumes "rm_inv rm" "ls_maxResSize (rm_latencySummary rm) < 2 ^ 53"
  shows "\<exists>m ls. calculateMetrics rm = Inr (m, rm\<lparr>rm_latencySummary := ls\<rparr>) \<and> ls_inv ls \<and>
     rmx_total_requests m = rm_totalRequests rm \<and> rmx_failed_requests m = rm_failedCount rm \<and>
     rmx_successful_requests m = rm_totalRequests rm - rm_failedCount rm"
  using ls_snapshot_ok [of "rm_latencySummary rm"] assms
  by (auto simp: calculateMetrics_def rm_inv_def Let_def)

lemma rm_Complete_ok:
  assumes "rm_inv rm" "ls_maxResSize (rm_latencySummary rm) < 2 ^ 53"
  shows "\<exists>rm' m. rm_Complete now rm = Inr rm' \<and> rm_inv rm' \<and> run_status (rm_run rm') = RunCompleted \<and>
     rm_requests rm' = rm_requests rm \<and> rm_totalRequests rm' = rm_totalRequests rm \<and>
     rm_completedCount rm' = rm_completedCount rm \<and> rm_failedCount rm' = rm_failedCount rm \<and>
     run_metrics_of (rm_run rm') = Some m \<and>
     rmx_total_requests m = rm_totalRequests rm \<and> rmx_failed_requests m = rm_failedCount rm \<and>
     rmx_successful_requests m = rm_totalRequests rm - rm_failedCount rm"
proof -
  define rm1 where "rm1 = rm\<lparr>rm_run := (rm_run rm)\<lparr>run_status := RunCompleted, run_end_time := now,
      run_duration := time_sub now (run_start_time (rm_run rm))\<rparr>\<rparr>"
  have "rm_inv rm1" "ls_maxResSize (rm_latencySummary rm1) < 2 ^ 53"
    using assms by (simp_all add: rm1_def rm_inv_def)
  from calculateMetrics_ok [OF this] show ?thesis
    using assms by (auto simp: rm_Complete_def Let_def rm1_def rm_inv_def)
qed

section \<open>The runs of a run manager\<close>

text \<open>What the simulation does to a run manager: it adds a request under a new identifier, it
  finalizes an active request, and in between it records latencies, service metrics, configuration
  and the lifecycle of the run.\<close>

inductive rm_step :: "run_manager \<Rightarrow> run_manager \<Rightarrow> bool" where
  add: "rq_id r \<notin> fst ` set (rm_requests rm) \<Longrightarrow> rm_step rm (fst (AddRequest r rm))"
| finalize: "rq_id r \<in> fst ` set (rm_requests rm) \<Longrightarrow> rm_step rm (FinalizeRequest r rm)"
| latency: "rm_step rm (RecordLatency v rm)"
| start: "rm_step rm (rm_Start now rm)"
| complete: "rm_Complete now rm = Inr rm' \<Longrightarrow> rm_step rm rm'"
| fail: "rm_step rm (rm_Fail now e rm)"
| cancel: "rm_step rm (rm_Cancel rm)"
| service_metrics: "rm_step rm (UpdateServiceMetrics n m rm)"
| limits: "rm_step rm (SetMaxRequestsTracked k cb (SetMaxTotalRequests k' cb' rm))"

inductive rm_reachable :: "run_manager \<Rightarrow> bool" where
  init: "rm_reachable (NewRunManager getenv pf now rid)"
| step: "rm_reachable rm \<Longrightarrow> rm_step rm rm' \<Longrightarrow> rm_reachable rm'"

definition rm_conserved :: "run_manager \<Rightarrow> bool" where
  "rm_conserved rm \<longleftrightarrow> rm_totalRequests rm = int (length (rm_requests rm)) + rm_completedCount rm"

lemma ls_inv_snapshot:
  "ls_snapshot s = Inr (sn, s') \<Longrightarrow> (ls_inv s \<longrightarrow> ls_inv s') \<and> ls_maxResSize s' = ls_maxResSize s"
  by (auto simp: ls_snapshot_def err_bind_def split: if_splits sum.splits
      dest: ls_inv_ensure ensurePercentiles_size)

lemma calculateMetrics_shape:
  "calculateMetrics rm = Inr (m, rm') \<Longrightarrow>
   \<exists>ls. rm' = rm\<lparr>rm_latencySummary := ls\<rparr> \<and> (ls_inv (rm_latencySummary rm) \<longrightarrow> ls_inv ls) \<and>
        ls_maxResSize ls = ls_maxResSize (rm_latencySummary rm)"
  by (auto simp: calculateMetrics_def err_bind_def Let_def split: sum.splits dest: ls_inv_snapshot)

lemma rm_Complete_shape:
  assumes "rm_Complete now rm = Inr rm'"
  shows "\<exists>r ls. rm' = rm\<lparr>rm_latencySummary := ls, rm_run := r\<rparr> \<and>
     (ls_inv (rm_latencySummary rm) \<longrightarrow> ls_inv ls) \<and>
     ls_maxResSize ls = ls_maxResSize (rm_latencySummary rm)"
proof -
  obtain r m rm2 where c: "calculateMetrics (rm\<lparr>rm_run := r\<rparr>) = Inr (m, rm2)"
    and e: "\<exists>r'. rm' = rm2\<lparr>rm_run := r'\<rparr>"
    using assms by (auto simp: rm_Complete_def Let_def err_bind_def split: sum.splits)
  from calculateMetrics_shape [OF c]
  obtain ls where "rm2 = rm\<lparr>rm_run := r, rm_latencySummary := ls\<rparr>"
    "ls_inv (rm_latencySummary rm) \<longrightarrow> ls_inv ls"
    "ls_maxResSize ls = ls_maxResSize (rm_latencySummary rm)" by auto
  moreover from e obtain r' where "rm' = rm2\<lparr>rm_run := r'\<rparr>" by blast
  ultimately have "rm' = rm\<lparr>rm_latencySummary := ls, rm_run := r'\<rparr>"
    "ls_inv (rm_latencySummary rm) \<longrightarrow> ls_inv ls"
    "ls_maxResSize ls = ls_maxResSize (rm_latencySummary rm)" by simp_all
  then show ?thesis by blast
qed

lemma rm_step_inv: "rm_step rm rm' \<Longrightarrow> rm_inv rm \<and> rm_conserved rm \<Longrightarrow> rm_inv rm' \<and> rm_conserved rm'"
proof (induction rule: rm_step.induct)
  case (add r rm)
  then have "rm_conserved (fst (AddRequest r rm))"
    by (auto simp: rm_conserved_def AddRequest_def length_gm_put)
  with add rm_inv_add show ?case by blast
next
  case (finalize r rm)
  have "Suc (length (gm_del (rq_id r) (rm_requests rm))) = length (rm_requests rm)"
    using finalize by (intro length_gm_del) (simp_all add: rm_inv_def)
  then have "rm_conserved (FinalizeRequest r rm)"
    using finalize by (auto simp: rm_conserved_def FinalizeRequest_def Let_def split: prod.split)
  with finalize rm_inv_finalize show ?case by blast
next
  case (complete now rm rm')
  then obtain r ls where "rm' = rm\<lparr>rm_latencySummary := ls, rm_run := r\<rparr>" "ls_inv ls"
    using rm_Complete_shape [OF complete.hyps] unfolding rm_inv_def by blast
  with complete show ?case by (simp add: rm_inv_def rm_conserved_def)
qed (auto simp: rm_inv_def rm_conserved_def RecordLatency_def ls_inv_record rm_Start_def rm_Fail_def
    rm_Cancel_def UpdateServiceMetrics_def SetMaxRequestsTracked_def SetMaxTotalRequests_def Let_def)

lemma rm_reachable_inv: "rm_reachable rm \<Longrightarrow> rm_inv rm \<and> rm_conserved rm"
proof (induction rule: rm_reachable.induct)
  case (init getenv pf now rid)
  show ?case using rm_inv_new by (auto simp: rm_conserved_def NewRunManager_def Let_def)
next
  case (step rm rm')
  then show ?case using rm_step_inv by blast
qed

lemma rm_inv_retained: "rm_inv rm \<Longrightarrow> int (length (rm_completedRequests rm)) \<le> rm_maxCompletedKeep rm"
proof -
  assume i: "rm_inv rm"
  have "length (rm_completedRequests rm) = card (set (gm_keys (rm_completedRequests rm)))"
    using i by (metis distinct_card length_map rm_inv_def)
  also have "\<dots> \<le> card (set (rm_completedOrder rm))"
    using i by (intro card_mono) (auto simp: rm_inv_def)
  also have "\<dots> \<le> length (rm_completedOrder rm)" by (rule card_length)
  finally show ?thesis using i by (simp add: rm_inv_def)
qed

lemma rm_step_frame:
  "rm_step rm rm' \<Longrightarrow> (rm_cancelled rm \<longrightarrow> rm_cancelled rm') \<and>
     ls_maxResSize (rm_latencySummary rm') = ls_maxResSize (rm_latencySummary rm)"
proof (induction rule: rm_step.induct)
  case (complete now rm rm')
  from rm_Complete_shape [OF this] show ?case by auto
qed (auto simp: AddRequest_def FinalizeRequest_def RecordLatency_def ls_record_def rm_Start_def rm_Fail_def
    rm_Cancel_def UpdateServiceMetrics_def SetMaxRequestsTracked_def SetMaxTotalRequests_def Let_def
    split: prod.split)

section \<open>Properties\<close>

definition demo_request :: "string \<Rightarrow> request_status \<Rightarrow> request" where
  "demo_request i st = \<lparr>rq_id = i, rq_trace_id = ''trace-1'', rq_parent_id = [],
     rq_service_name = ''api'', rq_endpoint = ''/a'', rq_status = st, rq_arrival_time = 0,
     rq_start_time = 0, rq_completion_time = 0, rq_duration = 0, rq_cpu_time_ms = 0,
     rq_network_latency_ms = 0, rq_queue_time_ms = 0, rq_error = [], rq_metadata = []\<rparr>"

definition demo_manager :: run_manager where
  "demo_manager = NewRunManager (\<lambda>_. []) (\<lambda>_. None) 0 ''run-1''"


lemma demo_reachable:
  "rm_reachable (FinalizeRequest (demo_request ''r1'' ReqFailed)
     (fst (AddRequest (demo_request ''r1'' ReqPending) demo_manager)))"
proof -
  have "rm_reachable demo_manager" unfolding demo_manager_def by (rule rm_reachable.init)
  then have "rm_reachable (fst (AddRequest (demo_request ''r1'' ReqPending) demo_manager))"
    by (rule rm_reachable.step)
      (rule rm_step.add, simp add: demo_manager_def NewRunManager_def Let_def)
  then show ?thesis
    by (rule rm_reachable.step)
      (rule rm_step.finalize,
        simp add: demo_manager_def NewRunManager_def Let_def AddRequest_def demo_request_def)
qed


text \<open>Finalizing a request that the sampling accepts and whose identifier is not yet in the
  retained history removes it from the active requests and keeps it retrievable: \<open>GetRequest\<close>
  returns exactly the finalized request, whatever older requests the eviction loop drops; the
  retained order is the newest \<open>maxCompletedKeep\<close> identifiers.\<close>

theorem finalize_retained:
  assumes "rm_inv rm" "rq_id r \<notin> set (rm_completedOrder rm)"
    and "shouldSampleCompletedRequest rm (rq_id r)"
  shows "GetRequest (FinalizeRequest r rm) (rq_id r) = Some r \<and>
     gm_get (rm_requests (FinalizeRequest r rm)) (rq_id r) = None \<and>
     rm_completedOrder (FinalizeRequest r rm) =
       drop (nat (int (length (rm_completedOrder rm)) + 1 - rm_maxCompletedKeep rm))
         (rm_completedOrder rm @ [rq_id r])"
proof -
  let ?keep = "rm_maxCompletedKeep rm" and ?order = "rm_completedOrder rm @ [rq_id r]"
  let ?m = "gm_put (rq_id r) r (rm_completedRequests rm)"
  have k: "0 < ?keep" using assms(1) by (simp add: rm_inv_def)
  then have n: "nat (int (length ?order) - ?keep) \<le> length (rm_completedOrder rm)" by simp
  then have "rq_id r \<notin> set (take (nat (int (length ?order) - ?keep)) ?order)"
    using assms(2) by (auto dest: in_set_takeD)
  then have "gm_get (snd (evict_completed ?keep ?order ?m)) (rq_id r) = Some r"
    using evict_completed_keeps [of ?keep "rq_id r" ?order ?m] k by simp
  moreover have "fst (evict_completed ?keep ?order ?m) = drop (nat (int (length ?order) - ?keep)) ?order"
    using evict_completed_order [of ?keep ?order ?m] k by simp
  ultimately show ?thesis using assms(3)
    by (cases "evict_completed ?keep ?order ?m")
      (simp add: FinalizeRequest_def GetRequest_def shouldSampleCompletedRequest_def Let_def algebra_simps
        split: if_splits)
qed

theorem finalize_retained_witness:
  "GetRequest (FinalizeRequest (demo_request ''r1'' ReqCompleted) demo_manager) ''r1'' =
     Some (demo_request ''r1'' ReqCompleted)"
  using finalize_retained [of demo_manager "demo_request ''r1'' ReqCompleted"]
    rm_inv_new [of "\<lambda>_. []" "\<lambda>_. None" 0 "''run-1''"]
  by (simp add: demo_manager_def demo_request_def NewRunManager_def Let_def
      shouldSampleCompletedRequest_def)

text \<open>\<open>AddRequest\<close> respects both caps. A request that is accepted is retrievable and
  is counted once; a request over a cap leaves the manager unchanged. So neither the total nor the
  number of active requests ever crosses a positive cap.\<close>

theorem add_request_caps:
  assumes "rm_inv rm"
  shows "let (rm', notice) = AddRequest r rm in
     (rm' = rm \<or> GetRequest rm' (rq_id r) = Some r \<and> rm_totalRequests rm' = rm_totalRequests rm + 1 \<and>
        notice = None) \<and>
     (notice \<noteq> None \<longrightarrow> rm' = rm) \<and>
     (0 < rm_maxTotalRequests rm \<and> rm_totalRequests rm \<le> rm_maxTotalRequests rm \<longrightarrow>
        rm_totalRequests rm' \<le> rm_maxTotalRequests rm) \<and>
     (0 < rm_maxActiveRequests rm \<and> int (length (rm_requests rm)) \<le> rm_maxActiveRequests rm \<longrightarrow>
        int (length (rm_requests rm')) \<le> rm_maxActiveRequests rm)"
  by (auto simp: AddRequest_def GetRequest_def length_gm_put)

theorem add_request_caps_witness:
  "let rm = SetMaxTotalRequests 1 True (fst (AddRequest (demo_request ''r1'' ReqPending) demo_manager));
       (rm', notice) = AddRequest (demo_request ''r2'' ReqPending) rm
   in rm_totalRequests rm' \<le> 1 \<and> notice \<noteq> None"
  using add_request_caps [of "SetMaxTotalRequests 1 True
      (fst (AddRequest (demo_request ''r1'' ReqPending) demo_manager))" "demo_request ''r2'' ReqPending"]
    rm_inv_add [OF rm_inv_new, of "demo_request ''r1'' ReqPending" "\<lambda>_. []" "\<lambda>_. None" 0 "''run-1''"]
  by (simp add: demo_manager_def NewRunManager_def Let_def AddRequest_def SetMaxTotalRequests_def rm_inv_def)



end
