(* ===== verification/Sim_Engine.thy ===== *)
theory Sim_Engine
  imports Event_Queue Run_Manager
begin

text \<open>
  The discrete-event engine of \<open>internal/engine/engine.go\<close>. The engine owns the event queue,
  the run manager, the simulation clock, the guardrail limits and the latched guardrail error.

  A handler is a closure over state of its own, so the handler map holds closure names and the
  loop takes the meaning of a closure as an argument: it maps the captured world and the engine
  to the new world, the new engine and the error it returns. What the process does around the loop
  is read from one \<open>tick\<close> per iteration: the wall clock, whether another goroutine cancelled
  the run, and the events other goroutines scheduled at the points where the loop leaves them room
  (at its top, between \<open>Next\<close> and \<open>Peek\<close>, and while it sleeps). Logging is not modelled.
\<close>

datatype engine_error =
    LimitExceededError string int int
  | SimulationCancelled
  | OtherError string

record runtime_limits =
  rl_MaxEventsScheduled :: int
  rl_MaxEventsProcessed :: int
  rl_MaxEventQueueSize :: int
  rl_MaxWallClockRun :: duration

record engine =
  en_eventQueue :: event_queue
  en_runManager :: run_manager
  en_simTime :: sim_time
  en_handlers :: "(event_type, nat) gomap"
  en_eventCounter :: int
  en_processed :: int
  en_limits :: runtime_limits
  en_guardErr :: "engine_error option"
  en_realTimeStart :: gotime
  en_realTimeMode :: bool
  en_maxQueueSeen :: int

record progress_snapshot =
  ps_RunID :: string
  ps_SimTime :: gotime
  ps_RequestedEndTime :: gotime
  ps_EventsScheduled :: int
  ps_EventsProcessed :: int
  ps_QueueLength :: int
  ps_MaxQueueSeen :: int
  ps_ActiveRequests :: int
  ps_TotalRequests :: int
  ps_LastError :: string

definition LimitExceededError_Error :: "engine_error \<Rightarrow> string" where
  "LimitExceededError_Error e = (case e of
     LimitExceededError l v m \<Rightarrow>
       ''limit exceeded: '' @ l @ '' ('' @ itoa v @ '' > '' @ itoa m @ '')''
   | SimulationCancelled \<Rightarrow> ''simulation cancelled''
   | OtherError s \<Rightarrow> s)"

definition NewEngineWithSimStart ::
  "(string \<Rightarrow> string) \<Rightarrow> (string \<Rightarrow> float64 option) \<Rightarrow> gotime \<Rightarrow> string \<Rightarrow> gotime \<Rightarrow> engine" where
  "NewEngineWithSimStart getenv parseFloat now runID simStart =
     \<lparr>en_eventQueue = NewEventQueue, en_runManager = NewRunManager getenv parseFloat now runID,
      en_simTime = NewSimTime simStart, en_handlers = [], en_eventCounter = 0, en_processed = 0,
      en_limits = \<lparr>rl_MaxEventsScheduled = 0, rl_MaxEventsProcessed = 0, rl_MaxEventQueueSize = 0,
                   rl_MaxWallClockRun = 0\<rparr>,
      en_guardErr = None, en_realTimeStart = 0, en_realTimeMode = False, en_maxQueueSeen = 0\<rparr>"

definition SetRealTimeMode :: "bool \<Rightarrow> engine \<Rightarrow> engine" where
  "SetRealTimeMode enabled e = e\<lparr>en_realTimeMode := enabled\<rparr>"

definition RegisterHandler :: "event_type \<Rightarrow> nat \<Rightarrow> engine \<Rightarrow> engine" where
  "RegisterHandler t h e = e\<lparr>en_handlers := gm_put t h (en_handlers e)\<rparr>"

definition triggerGuardFailure :: "engine_error option \<Rightarrow> engine \<Rightarrow> engine" where
  "triggerGuardFailure err e =
     (if err = None then e
      else if en_guardErr e \<noteq> None then e
      else e\<lparr>en_guardErr := err, en_runManager := rm_Cancel (en_runManager e)\<rparr>)"

definition guardrailErr :: "engine \<Rightarrow> engine_error option" where
  "guardrailErr e = en_guardErr e"

definition ScheduleEvent :: "event \<Rightarrow> engine \<Rightarrow> engine" where
  "ScheduleEvent event e0 =
     (let counter = en_eventCounter e0 + 1;
          e = e0\<lparr>en_eventCounter := counter\<rparr>;
          event1 = (if ev_id event = [] then event\<lparr>ev_id := ''evt-'' @ itoa counter\<rparr> else event);
          event2 = (if ev_sequence event1 = 0 then event1\<lparr>ev_sequence := counter\<rparr> else event1);
          nextQueueSize = int (Size (en_eventQueue e)) + 1
      in if rl_MaxEventsScheduled (en_limits e) > 0 \<and> counter > rl_MaxEventsScheduled (en_limits e)
         then triggerGuardFailure (Some (LimitExceededError ''max_events_scheduled'' counter
                (rl_MaxEventsScheduled (en_limits e)))) e
         else if rl_MaxEventQueueSize (en_limits e) > 0 \<and> nextQueueSize > rl_MaxEventQueueSize (en_limits e)
         then triggerGuardFailure (Some (LimitExceededError ''max_event_queue_size'' nextQueueSize
                (rl_MaxEventQueueSize (en_limits e)))) e
         else e\<lparr>en_eventQueue := Schedule (en_eventQueue e) event2\<rparr>)"

definition SetRuntimeLimits :: "runtime_limits \<Rightarrow> engine \<Rightarrow> engine" where
  "SetRuntimeLimits l e = e\<lparr>en_limits := l\<rparr>"

definition TriggerLimitExceeded :: "engine_error option \<Rightarrow> engine \<Rightarrow> engine" where
  "TriggerLimitExceeded err e = triggerGuardFailure err e"

definition ScheduleAtPriority ::
  "event_type \<Rightarrow> gotime \<Rightarrow> int \<Rightarrow> string option \<Rightarrow> string \<Rightarrow> (string, go_value) gomap \<Rightarrow> engine \<Rightarrow> engine" where
  "ScheduleAtPriority t simTime priority request serviceID data e =
     ScheduleEvent \<lparr>ev_id = [], ev_type = t, ev_time = simTime, ev_priority = priority, ev_sequence = 0,
       ev_request = request, ev_service_id = serviceID, ev_data = data\<rparr> e"

definition ScheduleAt ::
  "event_type \<Rightarrow> gotime \<Rightarrow> string option \<Rightarrow> string \<Rightarrow> (string, go_value) gomap \<Rightarrow> engine \<Rightarrow> engine" where
  "ScheduleAt t simTime request serviceID data e = ScheduleAtPriority t simTime 0 request serviceID data e"

definition ScheduleAfter ::
  "event_type \<Rightarrow> duration \<Rightarrow> string option \<Rightarrow> string \<Rightarrow> (string, go_value) gomap \<Rightarrow> engine \<Rightarrow> engine" where
  "ScheduleAfter t delay request serviceID data e =
     ScheduleAt t (st_Now (en_simTime e) + delay) request serviceID data e"

definition GetSimTime :: "engine \<Rightarrow> gotime" where
  "GetSimTime e = st_Now (en_simTime e)"

definition en_Stop :: "engine \<Rightarrow> engine" where
  "en_Stop e = e\<lparr>en_runManager := rm_Cancel (en_runManager e), en_eventQueue := Clear (en_eventQueue e)\<rparr>"

definition ProgressSnapshot :: "gotime \<Rightarrow> engine \<Rightarrow> progress_snapshot" where
  "ProgressSnapshot requestedEnd e =
     (let rmSnap = rm_Snapshot (en_runManager e)
      in \<lparr>ps_RunID = run_id (GetRun (en_runManager e)), ps_SimTime = st_Now (en_simTime e),
          ps_RequestedEndTime = requestedEnd, ps_EventsScheduled = en_eventCounter e,
          ps_EventsProcessed = en_processed e, ps_QueueLength = int (Size (en_eventQueue e)),
          ps_MaxQueueSeen = en_maxQueueSeen e, ps_ActiveRequests = rs_ActiveRequests rmSnap,
          ps_TotalRequests = rs_TotalRequests rmSnap,
          ps_LastError = (case guardrailErr e of None \<Rightarrow> [] | Some err \<Rightarrow> LimitExceededError_Error err)\<rparr>)"

section \<open>The event loop\<close>

record tick =
  tk_elapsed :: duration
  tk_cancel :: bool
  tk_before :: "event list"
  tk_peek :: "event list"
  tk_sleep :: "event list"
  tk_real_elapsed :: duration
  tk_end_elapsed :: duration
  tk_end_done :: "nat \<Rightarrow> bool"

type_synonym 'w handler_exec = "nat \<Rightarrow> 'w \<times> engine \<Rightarrow> event \<Rightarrow> ('w \<times> engine) \<times> string option"

datatype 's loop_step = Continue 's | Break 's | Return 's "engine_error option"

definition schedule_events :: "event list \<Rightarrow> engine \<Rightarrow> engine" where
  "schedule_events evs e = foldl (\<lambda>e ev. ScheduleEvent ev e) e evs"

definition check_wall_clock :: "duration \<Rightarrow> engine \<Rightarrow> engine" where
  "check_wall_clock elapsed e =
     (let m = rl_MaxWallClockRun (en_limits e)
      in if m > 0 \<and> elapsed > m
         then triggerGuardFailure (Some (LimitExceededError ''max_wall_clock_runtime''
                (go_div elapsed nanos_per_ms) (go_div m nanos_per_ms))) e
         else e)"

definition observe_queue :: "engine \<Rightarrow> engine" where
  "observe_queue e = (let qLen = int (Size (en_eventQueue e))
                      in if qLen \<le> en_maxQueueSeen e then e else e\<lparr>en_maxQueueSeen := qLen\<rparr>)"

text \<open>The queue was found empty.\<close>

definition idle_step :: "gotime \<Rightarrow> tick \<Rightarrow> 'w \<times> engine \<Rightarrow> ('w \<times> engine) loop_step" where
  "idle_step endTime tk s =
     (let (w, e) = s; currentSimTime = st_Now (en_simTime e)
      in if currentSimTime < endTime
         then let e1 = schedule_events (tk_peek tk) e
              in if (case Peek (en_eventQueue e1) of
                       Some n \<Rightarrow> ev_type n = EventTypeSimulationEnd | None \<Rightarrow> False)
                 then Continue (w, schedule_events (tk_sleep tk) e1)
                 else let e2 = schedule_events (tk_sleep tk) e1
                      in if IsEmpty (en_eventQueue e2)
                         then if time_sub endTime currentSimTime < 200 * nanos_per_ms
                              then Break (w, e2\<lparr>en_simTime := st_Set (en_simTime e2) endTime\<rparr>)
                              else Continue (w, e2)
                         else Continue (w, e2)
         else Break (w, e))"

text \<open>The time the loop sleeps before an event in real-time mode. The sleep changes no state of
  the engine: it shows in the clocks of the later ticks.\<close>

definition throttle_wait :: "bool \<Rightarrow> duration \<Rightarrow> duration \<Rightarrow> duration \<Rightarrow> duration" where
  "throttle_wait realTimeMode simTimeAdvanced elapsedRealTime elapsedSimTime =
     (if realTimeMode \<and> simTimeAdvanced > 0 \<and> elapsedRealTime < elapsedSimTime
      then let waitTime = elapsedSimTime - elapsedRealTime
           in if waitTime > 10 * nanos_per_s then 10 * nanos_per_s else waitTime
      else 0)"

text \<open>The slices in which the loop waits for real time before it ends; \<open>done k\<close> is whether
  the run has been cancelled by slice \<open>k\<close>. The result is whether the wait was cut short.\<close>

function end_wait :: "(nat \<Rightarrow> bool) \<Rightarrow> nat \<Rightarrow> duration \<Rightarrow> bool" where
  "end_wait done k remaining =
     (if remaining > 0
      then let sleepStep = (if remaining > 200 * nanos_per_ms then 200 * nanos_per_ms else remaining)
           in if done k then True else end_wait done (Suc k) (remaining - sleepStep)
      else False)"
  by pat_completeness auto
termination
  by (relation "measure (\<lambda>(_, _, r). nat r)") (auto simp: Let_def)

declare end_wait.simps [simp del]

definition dispatch_event ::
  "'w handler_exec \<Rightarrow> gotime \<Rightarrow> gotime \<Rightarrow> tick \<Rightarrow> event \<Rightarrow> 'w \<times> engine \<Rightarrow> ('w \<times> engine) loop_step" where
  "dispatch_event exec startTime endTime tk event s =
     (let (w, e0) = s; processed = en_processed e0 + 1; e = e0\<lparr>en_processed := processed\<rparr>
      in if rl_MaxEventsProcessed (en_limits e) > 0 \<and> processed > rl_MaxEventsProcessed (en_limits e)
         then let e1 = triggerGuardFailure (Some (LimitExceededError ''max_events_processed'' processed
                         (rl_MaxEventsProcessed (en_limits e)))) e
              in Return (w, e1) (guardrailErr e1)
         else if ev_type event = EventTypeSimulationEnd \<and> ev_time event < endTime
         then Continue (w, ScheduleAt EventTypeSimulationEnd endTime None [] [] e)
         else let e1 = e\<lparr>en_simTime := st_Set (en_simTime e) (ev_time event)\<rparr>
              in if ev_type event = EventTypeSimulationEnd
                 then let elapsedSimTime = time_sub (ev_time event) startTime
                      in if en_realTimeMode e1 \<and> tk_end_elapsed tk < elapsedSimTime \<and>
                            end_wait (tk_end_done tk) 0 (elapsedSimTime - tk_end_elapsed tk)
                         then Return (w, e1\<lparr>en_runManager := rm_Cancel (en_runManager e1)\<rparr>)
                                (Some SimulationCancelled)
                         else Break (w, e1)
                 else case gm_get (en_handlers e1) (ev_type event) of
                        None \<Rightarrow> Continue (w, e1)
                      | Some h \<Rightarrow> Continue (fst (exec h (w, e1) event)))"

definition loop_body ::
  "'w handler_exec \<Rightarrow> gotime \<Rightarrow> gotime \<Rightarrow> tick \<Rightarrow> 'w \<times> engine \<Rightarrow> ('w \<times> engine) loop_step" where
  "loop_body exec startTime endTime tk s =
     (let (w, e0) = s;
          e1 = schedule_events (tk_before tk) e0;
          e2 = (if tk_cancel tk then e1\<lparr>en_runManager := rm_Cancel (en_runManager e1)\<rparr> else e1);
          e3 = check_wall_clock (tk_elapsed tk) e2
      in case guardrailErr e3 of
           Some err \<Rightarrow> Return (w, e3) (Some err)
         | None \<Rightarrow>
             if rm_cancelled (en_runManager e3) then Return (w, e3) (Some SimulationCancelled)
             else let (oev, q) = Next (en_eventQueue e3);
                      e4 = observe_queue (e3\<lparr>en_eventQueue := q\<rparr>)
                  in case oev of
                       None \<Rightarrow> idle_step endTime tk (w, e4)
                     | Some event \<Rightarrow> dispatch_event exec startTime endTime tk event (w, e4))"

text \<open>The loop over the ticks of a process. Running out of ticks is \<open>None\<close>: the loop has
  not returned yet.\<close>

fun run_loop ::
  "'w handler_exec \<Rightarrow> gotime \<Rightarrow> gotime \<Rightarrow> tick list \<Rightarrow> 'w \<times> engine \<Rightarrow>
   (('w \<times> engine) \<times> engine_error option) option" where
  "run_loop exec startTime endTime [] s = None"
| "run_loop exec startTime endTime (tk # tks) s =
     (case loop_body exec startTime endTime tk s of
        Continue s' \<Rightarrow> run_loop exec startTime endTime tks s'
      | Break s' \<Rightarrow> Some (s', None)
      | Return s' err \<Rightarrow> Some (s', err))"

text \<open>\<open>Run\<close> with its deferred completion of the run; \<open>now0\<close> and \<open>now1\<close> are the wall clock
  at its start and at its end.\<close>

definition engine_Run ::
  "'w handler_exec \<Rightarrow> gotime \<Rightarrow> gotime \<Rightarrow> duration \<Rightarrow> tick list \<Rightarrow> 'w \<times> engine \<Rightarrow>
   (go_error + ('w \<times> engine) \<times> engine_error option) option" where
  "engine_Run exec now0 now1 dur ticks s =
     (let (w, e0) = s;
          e1 = e0\<lparr>en_runManager := rm_Start now0 (en_runManager e0)\<rparr>;
          startTime = st_Now (en_simTime e1);
          endTime = startTime + dur;
          e2 = ScheduleAt EventTypeSimulationEnd endTime None [] [] (e1\<lparr>en_realTimeStart := now0\<rparr>)
      in case run_loop exec startTime endTime ticks (w, e2) of
           None \<Rightarrow> None
         | Some ((w', e'), err) \<Rightarrow>
             if run_status (GetRun (en_runManager e')) = RunRunning
             then Some (err_bind (rm_Complete now1 (en_runManager e')) (\<lambda>rm.
                    Inr ((w', e'\<lparr>en_runManager := rm\<rparr>), err)))
             else Some (Inr ((w', e'), err)))"

text \<open>Below the cap the sleep brings real time exactly to simulation time.\<close>

lemma throttle_wait_bounds:
  "0 \<le> throttle_wait rt adv r s" "throttle_wait rt adv r s \<le> 10 * nanos_per_s"
  "rt \<Longrightarrow> 0 < adv \<Longrightarrow> r < s \<Longrightarrow> s - r \<le> 10 * nanos_per_s \<Longrightarrow> r + throttle_wait rt adv r s = s"
  by (auto simp: throttle_wait_def Let_def)

section \<open>What the handlers may do\<close>

text \<open>A handler acts on the engine through its methods: it schedules events that are not in the
  past, updates the run manager, reports a guardrail failure or stops the engine.\<close>

inductive engine_api :: "engine \<Rightarrow> engine \<Rightarrow> bool" where
  schedule: "GetSimTime e \<le> ev_time ev \<Longrightarrow> engine_api e (ScheduleEvent ev e)"
| manager: "rm_step (en_runManager e) rm \<Longrightarrow> run_status (rm_run rm) = run_status (rm_run (en_runManager e)) \<Longrightarrow>
    engine_api e (e\<lparr>en_runManager := rm\<rparr>)"
| trigger: "engine_api e (TriggerLimitExceeded err e)"
| stop: "engine_api e (en_Stop e)"
| register: "engine_api e (RegisterHandler t h e)"

definition handlers_causal :: "'w handler_exec \<Rightarrow> bool" where
  "handlers_causal exec \<longleftrightarrow> (\<forall>h w e ev. engine_api\<^sup>*\<^sup>* e (snd (fst (exec h (w, e) ev))))"

text \<open>The iteration of a process in which no other goroutine schedules events.\<close>

definition quiet :: "tick \<Rightarrow> bool" where
  "quiet tk \<longleftrightarrow> tk_before tk = [] \<and> tk_peek tk = [] \<and> tk_sleep tk = []"

definition loop_inv :: "gotime \<Rightarrow> engine \<Rightarrow> bool" where
  "loop_inv endTime e \<longleftrightarrow> eq_inv (en_eventQueue e) \<and>
     (\<forall>ev \<in># eq_contents (en_eventQueue e). GetSimTime e \<le> ev_time ev) \<and>
     GetSimTime e \<le> endTime \<and>
     (en_guardErr e \<noteq> None \<longrightarrow> rm_cancelled (en_runManager e)) \<and>
     (\<not> rm_cancelled (en_runManager e) \<longrightarrow>
        (\<exists>ev \<in># eq_contents (en_eventQueue e). ev_type ev = EventTypeSimulationEnd \<and> ev_time ev = endTime))"

definition rm_running :: "run_manager \<Rightarrow> bool" where
  "rm_running rm \<longleftrightarrow> rm_reachable rm \<and> ls_maxResSize (rm_latencySummary rm) < 2 ^ 53 \<and>
     run_status (rm_run rm) = RunRunning"

lemma triggerGuardFailure_frame [simp]:
  "en_eventQueue (triggerGuardFailure err e) = en_eventQueue e"
  "en_simTime (triggerGuardFailure err e) = en_simTime e"
  "en_processed (triggerGuardFailure err e) = en_processed e"
  "en_limits (triggerGuardFailure err e) = en_limits e"
  "en_eventCounter (triggerGuardFailure err e) = en_eventCounter e"
  by (simp_all add: triggerGuardFailure_def)

lemma triggerGuardFailure_some [simp]:
  "en_guardErr (triggerGuardFailure (Some err) e) \<noteq> None"
  by (simp add: triggerGuardFailure_def)

lemma triggerGuardFailure_manager:
  "en_runManager (triggerGuardFailure err e) = en_runManager e \<or>
   en_runManager (triggerGuardFailure err e) = rm_Cancel (en_runManager e)"
  by (simp add: triggerGuardFailure_def)

lemma loop_inv_trigger: "loop_inv t e \<Longrightarrow> loop_inv t (triggerGuardFailure err e)"
  by (auto simp: loop_inv_def triggerGuardFailure_def GetSimTime_def rm_Cancel_def)

text \<open>\<open>ScheduleEvent\<close> either puts the event into the queue, with its type and time, or latches a
  guardrail failure.\<close>

definition stamped :: "int \<Rightarrow> event \<Rightarrow> event" where
  "stamped counter ev =
     ev\<lparr>ev_id := (if ev_id ev = [] then ''evt-'' @ itoa counter else ev_id ev),
        ev_sequence := (if ev_sequence ev = 0 then counter else ev_sequence ev)\<rparr>"

lemma stamped_simps [simp]: "ev_time (stamped c ev) = ev_time ev" "ev_type (stamped c ev) = ev_type ev"
  "ev_priority (stamped c ev) = ev_priority ev"
  by (simp_all add: stamped_def)

lemma ScheduleEvent_stamped:
  "ScheduleEvent ev e =
     (let c = en_eventCounter e + 1; e1 = e\<lparr>en_eventCounter := c\<rparr>; l = en_limits e;
          n = int (Size (en_eventQueue e)) + 1
      in if rl_MaxEventsScheduled l > 0 \<and> c > rl_MaxEventsScheduled l
         then triggerGuardFailure (Some (LimitExceededError ''max_events_scheduled'' c
                (rl_MaxEventsScheduled l))) e1
         else if rl_MaxEventQueueSize l > 0 \<and> n > rl_MaxEventQueueSize l
         then triggerGuardFailure (Some (LimitExceededError ''max_event_queue_size'' n
                (rl_MaxEventQueueSize l))) e1
         else e1\<lparr>en_eventQueue := Schedule (en_eventQueue e) (stamped c ev)\<rparr>)"
  by (simp add: ScheduleEvent_def stamped_def Let_def)

lemma ScheduleEvent_cases:
  obtains (queued) "ScheduleEvent ev e = e\<lparr>en_eventCounter := en_eventCounter e + 1,
      en_eventQueue := Schedule (en_eventQueue e) (stamped (en_eventCounter e + 1) ev)\<rparr>"
  | (guard) err where
      "ScheduleEvent ev e = triggerGuardFailure (Some err) (e\<lparr>en_eventCounter := en_eventCounter e + 1\<rparr>)"
  unfolding ScheduleEvent_stamped [of ev e] Let_def by metis

lemma ScheduleEvent_frame [simp]:
  "en_simTime (ScheduleEvent ev e) = en_simTime e"
  "en_processed (ScheduleEvent ev e) = en_processed e"
  "en_limits (ScheduleEvent ev e) = en_limits e"
  by (simp_all add: ScheduleEvent_def Let_def)

lemma ScheduleEvent_manager:
  "en_runManager (ScheduleEvent ev e) = en_runManager e \<or>
   en_runManager (ScheduleEvent ev e) = rm_Cancel (en_runManager e)"
  using triggerGuardFailure_manager by (simp add: ScheduleEvent_def Let_def triggerGuardFailure_def)

lemma loop_inv_counter [simp]: "loop_inv t (e\<lparr>en_eventCounter := c\<rparr>) = loop_inv t e"
  by (simp add: loop_inv_def GetSimTime_def)

lemma loop_inv_schedule:
  assumes "loop_inv t e" "GetSimTime e \<le> ev_time ev"
  shows "loop_inv t (ScheduleEvent ev e)"
proof (cases ev e rule: ScheduleEvent_cases)
  case queued
  then show ?thesis
    using assms by (auto simp: loop_inv_def GetSimTime_def evq.sched_inv evq.sched_contents)
next
  case (guard err)
  then show ?thesis using loop_inv_trigger [of t "e\<lparr>en_eventCounter := en_eventCounter e + 1\<rparr>"] assms by simp
qed

lemma rm_running_cancel: "rm_running rm \<Longrightarrow> rm_running (rm_Cancel rm)"
  using rm_reachable.step [OF _ rm_step.cancel, of rm]
  by (simp add: rm_running_def) (simp add: rm_Cancel_def)

lemma rm_running_schedule: "rm_running (en_runManager e) \<Longrightarrow> rm_running (en_runManager (ScheduleEvent ev e))"
  using ScheduleEvent_manager [of ev e] rm_running_cancel by auto

lemma rm_running_trigger:
  "rm_running (en_runManager e) \<Longrightarrow> rm_running (en_runManager (triggerGuardFailure err e))"
  using triggerGuardFailure_manager [of err e] rm_running_cancel by auto

text \<open>What one engine operation, and so every handler, keeps.\<close>

definition same_run :: "engine \<Rightarrow> engine \<Rightarrow> bool" where
  "same_run e e' \<longleftrightarrow> en_simTime e' = en_simTime e \<and> en_processed e' = en_processed e \<and>
     en_limits e' = en_limits e"

definition loop_ok :: "gotime \<Rightarrow> engine \<Rightarrow> bool" where
  "loop_ok t e \<longleftrightarrow> loop_inv t e \<and> rm_running (en_runManager e)"

lemma engine_api_ok: "engine_api e e' \<Longrightarrow> loop_ok t e \<Longrightarrow> loop_ok t e' \<and> same_run e e'"
proof (induction rule: engine_api.induct)
  case (schedule e ev)
  then show ?case
    using loop_inv_schedule rm_running_schedule by (simp add: loop_ok_def same_run_def)
next
  case (manager e rm)
  then have "rm_running rm"
    using rm_reachable.step rm_step_frame by (simp add: loop_ok_def rm_running_def) metis
  then show ?case
    using manager rm_step_frame [of "en_runManager e" rm]
    by (auto simp: loop_ok_def loop_inv_def same_run_def GetSimTime_def)
next
  case (trigger e err)
  then show ?case
    using loop_inv_trigger rm_running_trigger
    by (simp add: loop_ok_def same_run_def TriggerLimitExceeded_def)
next
  case (stop e)
  then show ?case
    using rm_running_cancel
    by (auto simp: loop_ok_def loop_inv_def same_run_def en_Stop_def eq_inv_clear GetSimTime_def rm_Cancel_def)
qed (auto simp: loop_ok_def loop_inv_def same_run_def RegisterHandler_def GetSimTime_def)

lemma engine_apis_ok: "engine_api\<^sup>*\<^sup>* e e' \<Longrightarrow> loop_ok t e \<Longrightarrow> loop_ok t e' \<and> same_run e e'"
proof (induction rule: rtranclp_induct)
  case base
  then show ?case by (simp add: same_run_def)
next
  case (step e1 e2)
  then show ?case using engine_api_ok [OF step.hyps(2)] by (auto simp: same_run_def)
qed

section \<open>One iteration of the loop\<close>

text \<open>What an iteration from a good state gives: it processes one more event and the clock moves
  forward, or it ends exactly at the end time, or it returns the reason of the cancelled run.\<close>

definition step_result :: "gotime \<Rightarrow> engine \<Rightarrow> ('w \<times> engine) loop_step \<Rightarrow> bool" where
  "step_result t e r = (case r of
     Continue (w', e') \<Rightarrow> loop_ok t e' \<and> GetSimTime e \<le> GetSimTime e' \<and>
       en_processed e' = en_processed e + 1 \<and> en_limits e' = en_limits e \<and>
       (rl_MaxEventsProcessed (en_limits e) > 0 \<longrightarrow> en_processed e' \<le> rl_MaxEventsProcessed (en_limits e))
   | Break (w', e') \<Rightarrow> rm_running (en_runManager e') \<and> GetSimTime e' = t \<and> GetSimTime e \<le> t \<and>
       en_guardErr e' = None
   | Return (w', e') err \<Rightarrow> rm_running (en_runManager e') \<and> GetSimTime e \<le> GetSimTime e' \<and>
       GetSimTime e' \<le> t \<and> err \<noteq> None \<and> rm_cancelled (en_runManager e') \<and>
       (err = en_guardErr e' \<or> err = Some SimulationCancelled))"

text \<open>The state in which an event has just been taken from the queue.\<close>

definition taken :: "gotime \<Rightarrow> event \<Rightarrow> engine \<Rightarrow> bool" where
  "taken t ev e \<longleftrightarrow> eq_inv (en_eventQueue e) \<and>
     (\<forall>x \<in># eq_contents (en_eventQueue e). ev_time ev \<le> ev_time x) \<and>
     GetSimTime e \<le> ev_time ev \<and> ev_time ev \<le> t \<and> en_guardErr e = None \<and>
     \<not> rm_cancelled (en_runManager e) \<and> rm_running (en_runManager e) \<and>
     (ev_type ev = EventTypeSimulationEnd \<and> ev_time ev = t \<or>
       (\<exists>x \<in># eq_contents (en_eventQueue e). ev_type x = EventTypeSimulationEnd \<and> ev_time x = t))"

lemma loop_inv_taken:
  assumes "loop_ok t e" "en_guardErr e = None" "\<not> rm_cancelled (en_runManager e)"
    and n: "Next (en_eventQueue e) = (oev, q)"
  shows "\<exists>ev. oev = Some ev \<and> taken t ev (observe_queue (e\<lparr>en_eventQueue := q\<rparr>))"
proof -
  have i: "eq_inv (en_eventQueue e)" "GetSimTime e \<le> t"
    "\<forall>ev \<in># eq_contents (en_eventQueue e). GetSimTime e \<le> ev_time ev"
    using assms(1) by (simp_all add: loop_ok_def loop_inv_def)
  obtain x where x: "x \<in># eq_contents (en_eventQueue e)" "ev_type x = EventTypeSimulationEnd" "ev_time x = t"
    using assms(1,3) by (auto simp: loop_ok_def loop_inv_def)
  then obtain ev where oev: "oev = Some ev"
    using evq.next_None [OF i(1)] n by (cases oev) auto
  note nx = evq.next_Some [OF i(1) n [unfolded oev]]
  have le: "ev_time ev \<le> ev_time y" if "y \<in># eq_contents (en_eventQueue e)" for y
    using nx(3) [OF that] by (auto simp: event_key_def less_eq_prod_def)
  have "x = ev \<or> x \<in># eq_contents q" using x(1) nx(1) by auto
  then have "taken t ev (observe_queue (e\<lparr>en_eventQueue := q\<rparr>))"
    using i x le nx(1,2) assms(1-3)
    by (auto simp: taken_def observe_queue_def Let_def GetSimTime_def loop_ok_def)
  with oev show ?thesis by blast
qed

lemma st_Now_Set [simp]: "st_Now (st_Set st t) = t"
  by (simp add: st_Now_def st_Set_def)

lemma dispatch_ok:
  assumes tk: "taken t ev e" and h: "handlers_causal exec"
  shows "step_result t e (dispatch_event exec t0 t tk1 ev (w, e))"
proof -
  define e1 where "e1 = e\<lparr>en_processed := en_processed e + 1\<rparr>"
  define e2 where "e2 = e1\<lparr>en_simTime := st_Set (en_simTime e1) (ev_time ev)\<rparr>"
  consider (limit) "rl_MaxEventsProcessed (en_limits e) > 0" "en_processed e + 1 > rl_MaxEventsProcessed (en_limits e)"
    | (early) "\<not> (rl_MaxEventsProcessed (en_limits e) > 0 \<and> en_processed e + 1 > rl_MaxEventsProcessed (en_limits e))"
        "ev_type ev = EventTypeSimulationEnd" "ev_time ev < t"
    | (final) "\<not> (rl_MaxEventsProcessed (en_limits e) > 0 \<and> en_processed e + 1 > rl_MaxEventsProcessed (en_limits e))"
        "ev_type ev = EventTypeSimulationEnd" "\<not> ev_time ev < t"
    | (handle) "\<not> (rl_MaxEventsProcessed (en_limits e) > 0 \<and> en_processed e + 1 > rl_MaxEventsProcessed (en_limits e))"
        "ev_type ev \<noteq> EventTypeSimulationEnd"
    by blast
  then show ?thesis
  proof cases
    case limit
    then show ?thesis
      using tk rm_running_cancel
      by (auto simp: dispatch_event_def step_result_def taken_def triggerGuardFailure_def guardrailErr_def
          GetSimTime_def rm_Cancel_def Let_def)
  next
    case early
    then have "loop_ok t e1"
      using tk by (force simp: loop_ok_def loop_inv_def taken_def e1_def GetSimTime_def)
    moreover have "GetSimTime e1 \<le> t" using tk by (auto simp: taken_def e1_def GetSimTime_def)
    ultimately have "loop_ok t (ScheduleAt EventTypeSimulationEnd t None [] [] e1)"
      by (simp add: ScheduleAt_def ScheduleAtPriority_def loop_ok_def loop_inv_schedule rm_running_schedule)
    then show ?thesis using early
      by (auto simp: dispatch_event_def step_result_def Let_def e1_def ScheduleAt_def ScheduleAtPriority_def
          GetSimTime_def)
  next
    case final
    then show ?thesis
      using tk rm_running_cancel
      by (auto simp: dispatch_event_def step_result_def taken_def GetSimTime_def rm_Cancel_def Let_def)
  next
    case handle
    then have ok: "loop_ok t e2"
      using tk by (auto simp: loop_ok_def loop_inv_def taken_def e2_def e1_def GetSimTime_def)
    have api: "step_result t e (Continue s)" if "engine_api\<^sup>*\<^sup>* e2 (snd s)" for s :: "'a \<times> engine"
      using engine_apis_ok [OF that ok] handle tk
      by (cases s) (auto simp: step_result_def same_run_def e2_def e1_def GetSimTime_def taken_def)
    have "dispatch_event exec t0 t tk1 ev (w, e) =
        (case gm_get (en_handlers e) (ev_type ev) of None \<Rightarrow> Continue (w, e2)
         | Some k \<Rightarrow> Continue (fst (exec k (w, e2) ev)))"
      using handle by (auto simp: dispatch_event_def Let_def e1_def e2_def split: option.split)
    then show ?thesis
      using api [of "(w, e2)"] api h by (auto simp: handlers_causal_def split: option.split)
  qed
qed

lemma check_wall_clock_ok: "loop_ok t e \<Longrightarrow> loop_ok t (check_wall_clock d e) \<and> same_run e (check_wall_clock d e)"
  using loop_inv_trigger rm_running_trigger
  by (simp add: check_wall_clock_def loop_ok_def same_run_def Let_def)

lemma loop_body_ok:
  assumes ok: "loop_ok t e" and h: "handlers_causal exec" and qt: "quiet tk"
  shows "step_result t e (loop_body exec t0 t tk (w, e))"
proof -
  define e2 where "e2 = (if tk_cancel tk then e\<lparr>en_runManager := rm_Cancel (en_runManager e)\<rparr> else e)"
  define e3 where "e3 = check_wall_clock (tk_elapsed tk) e2"
  have "loop_ok t e2" "same_run e e2"
    using ok rm_running_cancel
    by (auto simp: e2_def loop_ok_def loop_inv_def same_run_def GetSimTime_def rm_Cancel_def)
  then have e3: "loop_ok t e3" "same_run e e3"
    using check_wall_clock_ok [of t e2] by (auto simp: e3_def same_run_def)
  have le: "GetSimTime e3 \<le> t" "rm_running (en_runManager e3)"
    "en_guardErr e3 \<noteq> None \<longrightarrow> rm_cancelled (en_runManager e3)"
    using e3(1) by (simp_all add: loop_ok_def loop_inv_def)
  have body: "loop_body exec t0 t tk (w, e) =
      (case en_guardErr e3 of Some err \<Rightarrow> Return (w, e3) (Some err)
       | None \<Rightarrow> if rm_cancelled (en_runManager e3) then Return (w, e3) (Some SimulationCancelled)
           else case Next (en_eventQueue e3) of (oev, q) \<Rightarrow>
             (case oev of None \<Rightarrow> idle_step t tk (w, observe_queue (e3\<lparr>en_eventQueue := q\<rparr>))
              | Some ev \<Rightarrow> dispatch_event exec t0 t tk ev (w, observe_queue (e3\<lparr>en_eventQueue := q\<rparr>))))"
    using qt unfolding e3_def e2_def
    by (simp only: loop_body_def schedule_events_def quiet_def guardrailErr_def Let_def prod.case foldl_Nil)
  have sim: "GetSimTime e3 = GetSimTime e" using e3(2) by (simp add: same_run_def GetSimTime_def)
  show ?thesis
  proof (cases "en_guardErr e3 = None \<and> \<not> rm_cancelled (en_runManager e3)")
    case False
    then show ?thesis using le sim by (auto simp: body step_result_def split: option.split)
  next
    case True
    obtain oev q where n: "Next (en_eventQueue e3) = (oev, q)" by (cases "Next (en_eventQueue e3)")
    define e4 where "e4 = observe_queue (e3\<lparr>en_eventQueue := q\<rparr>)"
    obtain ev where ev: "oev = Some ev" "taken t ev e4"
      using loop_inv_taken [OF e3(1) _ _ n] True by (auto simp: e4_def)
    have "step_result t e4 (dispatch_event exec t0 t tk ev (w, e4))" by (rule dispatch_ok [OF ev(2) h])
    moreover have "same_run e e4"
      using e3(2) by (simp add: same_run_def e4_def observe_queue_def Let_def)
    ultimately have "step_result t e (dispatch_event exec t0 t tk ev (w, e4))"
      by (auto simp: step_result_def same_run_def GetSimTime_def split: loop_step.splits)
    then show ?thesis using True by (simp add: body n ev(1) e4_def)
  qed
qed

section \<open>The whole loop\<close>

definition loop_result :: "gotime \<Rightarrow> gotime \<Rightarrow> engine \<Rightarrow> engine_error option \<Rightarrow> bool" where
  "loop_result t1 t e' err \<longleftrightarrow> rm_running (en_runManager e') \<and> t1 \<le> GetSimTime e' \<and> GetSimTime e' \<le> t \<and>
     (err = None \<longrightarrow> GetSimTime e' = t \<and> en_guardErr e' = None) \<and>
     (err \<noteq> None \<longrightarrow> rm_cancelled (en_runManager e') \<and>
        (err = en_guardErr e' \<or> err = Some SimulationCancelled))"

lemma run_loop_returns:
  assumes "loop_ok t e" "handlers_causal exec" "\<forall>tk \<in> set tks. quiet tk"
    and "rl_MaxEventsProcessed (en_limits e) > 0"
    and "rl_MaxEventsProcessed (en_limits e) < en_processed e + int (length tks)"
    and "tks \<noteq> []"
  shows "\<exists>w' e' err. run_loop exec t0 t tks (w, e) = Some ((w', e'), err) \<and>
     loop_result (GetSimTime e) t e' err"
  using assms
proof (induction tks arbitrary: w e)
  case (Cons tk tks)
  have st: "step_result t e (loop_body exec t0 t tk (w, e))"
    using Cons.prems by (intro loop_body_ok) auto
  show ?case
  proof (cases "loop_body exec t0 t tk (w, e)")
    case (Continue s)
    obtain w1 e1 where s: "s = (w1, e1)" by (cases s)
    have e1: "loop_ok t e1" "GetSimTime e \<le> GetSimTime e1" "en_processed e1 = en_processed e + 1"
      "en_limits e1 = en_limits e" "en_processed e1 \<le> rl_MaxEventsProcessed (en_limits e)"
      using st Cons.prems(4) by (auto simp: Continue s step_result_def)
    have "\<exists>w' e' err. run_loop exec t0 t tks (w1, e1) = Some ((w', e'), err) \<and>
        loop_result (GetSimTime e1) t e' err"
      using Cons.prems e1 by (intro Cons.IH) auto
    then show ?thesis using e1(2) by (auto simp: Continue s loop_result_def)
  next
    case (Break s)
    with st show ?thesis by (cases s) (auto simp: step_result_def loop_result_def)
  next
    case (Return s err)
    with st show ?thesis by (cases s) (auto simp: step_result_def loop_result_def)
  qed
qed simp

lemma schedule_end_ok:
  assumes "eq_inv (en_eventQueue e)" "\<forall>ev \<in># eq_contents (en_eventQueue e). GetSimTime e \<le> ev_time ev"
    and "GetSimTime e \<le> t" "en_guardErr e \<noteq> None \<longrightarrow> rm_cancelled (en_runManager e)"
    and "rm_running (en_runManager e)"
  shows "loop_ok t (ScheduleAt EventTypeSimulationEnd t None [] [] e)"
proof -
  define ev where "ev = \<lparr>ev_id = [], ev_type = EventTypeSimulationEnd, ev_time = t, ev_priority = 0,
    ev_sequence = 0, ev_request = None, ev_service_id = [], ev_data = []\<rparr>"
  have "loop_inv t (ScheduleEvent ev e)"
  proof (cases ev e rule: ScheduleEvent_cases)
    case queued
    then show ?thesis
      using assms by (auto simp: loop_inv_def GetSimTime_def evq.sched_inv evq.sched_contents ev_def)
  next
    case (guard err)
    then show ?thesis
      using assms by (auto simp: loop_inv_def GetSimTime_def triggerGuardFailure_def rm_Cancel_def)
  qed
  then show ?thesis
    using rm_running_schedule [OF assms(5), of ev]
    by (simp add: loop_ok_def ScheduleAt_def ScheduleAtPriority_def ev_def)
qed

text \<open>A key refined by the schedule sequence sorts stably.\<close>

lemma sort_key_sequence:
  fixes f :: "'a \<Rightarrow> 'k :: linorder" and g :: "'a \<Rightarrow> int" and h :: "'a \<Rightarrow> 'h :: linorder"
  assumes "sorted (map g xs)" and h: "\<And>x y. h x \<le> h y \<longleftrightarrow> f x < f y \<or> f x = f y \<and> g x \<le> g y"
  shows "sort_key h xs = sort_key f xs"
proof (rule sym, rule properties_for_sort_key)
  show "mset (sort_key h xs) = mset xs" by simp
  show "filter (\<lambda>x. f k = f x) (sort_key h xs) = filter (\<lambda>x. f k = f x) xs" for k
  proof -
    have "sorted (map g (filter (\<lambda>x. f k = f x) xs))" by (rule sorted_filter [OF assms(1)])
    then have "sorted (map h (filter (\<lambda>x. f k = f x) xs))"
      by (induction xs) (auto simp: h)
    then show ?thesis by (simp add: filter_sort sort_key_id_if_sorted)
  qed
  have "sorted_wrt (\<lambda>x y. h x \<le> h y) (sort_key h xs)"
    using sorted_sort_key [of h xs] by (simp only: sorted_map)
  then have "sorted_wrt (\<lambda>x y. f x \<le> f y) (sort_key h xs)"
    by (rule sorted_wrt_mono_rel [rotated]) (auto simp: h)
  then show "sorted (map f (sort_key h xs))" by (simp only: sorted_map)
qed

lemma map_sort_key: "map p (sort_key (\<lambda>x. k (p x)) xs) = sort_key k (map p xs)"
proof (induction xs)
  case (Cons x xs)
  have "map p (insort_key (\<lambda>x. k (p x)) x ys) = insort_key k (p x) (map p ys)" for ys
    by (induction ys) auto
  with Cons show ?case by simp
qed simp

text \<open>The arguments of a call of \<open>ScheduleAtPriority\<close>, the events such calls make, and what of
  them an event carries.\<close>

type_synonym schedule_call =
  "event_type \<times> gotime \<times> int \<times> string option \<times> string \<times> (string, go_value) gomap"

definition schedule_call :: "schedule_call \<Rightarrow> engine \<Rightarrow> engine" where
  "schedule_call c e = (case c of (t, tm, p, r, s, d) \<Rightarrow> ScheduleAtPriority t tm p r s d e)"

definition call_of :: "event \<Rightarrow> schedule_call" where
  "call_of ev = (ev_type ev, ev_time ev, ev_priority ev, ev_request ev, ev_service_id ev, ev_data ev)"

definition call_key :: "schedule_call \<Rightarrow> int \<times> int" where
  "call_key c = (case c of (_, tm, p, _) \<Rightarrow> (tm, p))"

definition call_event :: "int \<Rightarrow> schedule_call \<Rightarrow> event" where
  "call_event n c = (case c of (t, tm, p, r, s, d) \<Rightarrow>
     \<lparr>ev_id = ''evt-'' @ itoa n, ev_type = t, ev_time = tm, ev_priority = p, ev_sequence = n,
      ev_request = r, ev_service_id = s, ev_data = d\<rparr>)"

fun call_events :: "int \<Rightarrow> schedule_call list \<Rightarrow> event list" where
  "call_events n [] = []"
| "call_events n (c # cs) = call_event (n + 1) c # call_events (n + 1) cs"

lemma schedule_call_unlimited:
  assumes "rl_MaxEventsScheduled (en_limits e) \<le> 0" "rl_MaxEventQueueSize (en_limits e) \<le> 0" "0 \<le> en_eventCounter e"
  shows "schedule_call c e = e\<lparr>en_eventCounter := en_eventCounter e + 1,
    en_eventQueue := Schedule (en_eventQueue e) (call_event (en_eventCounter e + 1) c)\<rparr>"
  using assms
  by (cases c) (simp add: schedule_call_def ScheduleAtPriority_def ScheduleEvent_def call_event_def Let_def)

lemma schedule_calls_unlimited:
  assumes "rl_MaxEventsScheduled (en_limits e) \<le> 0" "rl_MaxEventQueueSize (en_limits e) \<le> 0" "0 \<le> en_eventCounter e"
  shows "en_eventQueue (foldl (\<lambda>e c. schedule_call c e) e cs) =
    foldl Schedule (en_eventQueue e) (call_events (en_eventCounter e) cs)"
  using assms
  by (induction cs arbitrary: e) (simp_all add: schedule_call_unlimited)

lemma call_event_simps [simp]: "call_of (call_event m c) = c" "ev_sequence (call_event m c) = m"
  by (cases c; simp add: call_of_def call_event_def)+

lemma map_call_events [simp]: "map call_of (call_events n cs) = cs"
  by (induction n cs rule: call_events.induct) simp_all

lemma length_call_events [simp]: "length (call_events n cs) = length cs"
  by (induction n cs rule: call_events.induct) simp_all

lemma call_events_later: "ev \<in> set (call_events n cs) \<Longrightarrow> n < ev_sequence ev"
  by (induction n cs rule: call_events.induct) auto

lemma call_events_sequence:
  "sorted (map ev_sequence (call_events n cs)) \<and> distinct (map ev_sequence (call_events n cs))"
proof (induction n cs rule: call_events.induct)
  case (2 n c cs)
  then show ?case using call_events_later [of _ "n + 1" cs] by fastforce
qed simp

lemma event_key_call: "event_key x \<le> event_key y \<longleftrightarrow>
    call_key (call_of x) < call_key (call_of y) \<or>
    call_key (call_of x) = call_key (call_of y) \<and> ev_sequence x \<le> ev_sequence y"
  by (auto simp: event_key_def call_key_def call_of_def less_eq_prod_def less_prod_def)

section \<open>Properties\<close>

text \<open>C17: events scheduled through the engine come out of its queue in the stable order of time and
  priority: of two events with the same time and priority the one scheduled first is taken first,
  because \<open>ScheduleEvent\<close> stamps each event with the next sequence number.\<close>

theorem engine_schedule_stable:
  "map call_of (take_next Next (length cs) (en_eventQueue
     (foldl (\<lambda>e c. schedule_call c e) (NewEngineWithSimStart getenv pf now rid t0) cs))) =
   sort_key call_key cs"
proof -
  define es where "es = call_events 0 cs"
  have s: "sorted (map ev_sequence es)" "distinct (map ev_sequence es)" "map call_of es = cs"
    "length es = length cs"
    using call_events_sequence [of 0 cs] by (simp_all add: es_def)
  have "distinct (map event_key es)"
    using s(2) by (auto simp: distinct_map inj_on_def event_key_def)
  then have "take_next Next (length es) (foldl Schedule NewEventQueue es) = sort_key event_key es"
    by (rule drain_sorts)
  also have "\<dots> = sort_key (\<lambda>x. call_key (call_of x)) es"
    by (rule sort_key_sequence [OF s(1) event_key_call])
  finally show ?thesis
    using s(3,4) map_sort_key [of call_of call_key es]
    by (simp add: schedule_calls_unlimited NewEngineWithSimStart_def es_def)
qed


definition demo_exec :: "nat handler_exec" where
  "demo_exec h s ev = (case s of (n, e) \<Rightarrow>
     ((n + 1, ScheduleAfter EventTypeRequestStart 5 None ''api'' [] e), None))"

definition demo_engine :: engine where
  "demo_engine = SetRuntimeLimits \<lparr>rl_MaxEventsScheduled = 0, rl_MaxEventsProcessed = 9,
     rl_MaxEventQueueSize = 0, rl_MaxWallClockRun = 0\<rparr>
     (ScheduleAt EventTypeRequestStart 3 None ''api'' [] (RegisterHandler EventTypeRequestStart 0
       (NewEngineWithSimStart (\<lambda>_. []) (\<lambda>_. None) 0 ''run-1'' 0)))"

definition demo_tick :: tick where
  "demo_tick = \<lparr>tk_elapsed = 0, tk_cancel = False, tk_before = [], tk_peek = [], tk_sleep = [],
     tk_real_elapsed = 0, tk_end_elapsed = 0, tk_end_done = (\<lambda>_. False)\<rparr>"

lemma demo_exec_causal: "handlers_causal demo_exec"
  by (auto simp: handlers_causal_def demo_exec_def ScheduleAfter_def ScheduleAt_def ScheduleAtPriority_def
      GetSimTime_def intro!: r_into_rtranclp engine_api.schedule)

lemma demo_engine_ok:
  "eq_inv (en_eventQueue demo_engine)" "\<forall>ev \<in># eq_contents (en_eventQueue demo_engine). GetSimTime demo_engine \<le> ev_time ev"
  "en_guardErr demo_engine = None" "rm_reachable (en_runManager demo_engine)"
  "ls_maxResSize (rm_latencySummary (en_runManager demo_engine)) < 2 ^ 53"
  "en_processed demo_engine = 0" "rl_MaxEventsProcessed (en_limits demo_engine) = 9" "GetSimTime demo_engine = 0"
  using rm_reachable.init [of "\<lambda>_. []" "\<lambda>_. None" 0 "''run-1''"]
  by (simp_all add: demo_engine_def SetRuntimeLimits_def ScheduleAt_def ScheduleAtPriority_def ScheduleEvent_def
      RegisterHandler_def NewEngineWithSimStart_def Let_def evq.sched_inv evq.sched_contents eq_inv_new
      GetSimTime_def NewSimTime_def st_Now_def)
    (simp add: NewRunManager_def Let_def newLatencySummary_def loadPositiveIntEnv_def)



definition demo_running :: engine where
  "demo_running = ScheduleAt EventTypeSimulationEnd 20 None [] []
     (demo_engine\<lparr>en_runManager := rm_Start 0 (en_runManager demo_engine)\<rparr>)"

lemma demo_running_ok: "loop_ok 20 demo_running"
proof -
  have "rm_running (rm_Start 0 (en_runManager demo_engine))"
    using demo_engine_ok(4,5) rm_reachable.step [OF _ rm_step.start]
    by (simp add: rm_running_def) (simp add: rm_Start_def)
  then show ?thesis
    unfolding demo_running_def using demo_engine_ok by (intro schedule_end_ok) (auto simp: GetSimTime_def)
qed

lemma demo_continue:
  "case loop_body demo_exec 0 20 demo_tick (0, demo_running) of
     Continue (w', e') \<Rightarrow> GetSimTime e' = 3 | _ \<Rightarrow> False"
  by code_simp


lemma schedule_events_guard:
  "en_guardErr e = Some err \<Longrightarrow> en_guardErr (schedule_events evs e) = Some err \<and>
     en_processed (schedule_events evs e) = en_processed e \<and>
     en_simTime (schedule_events evs e) = en_simTime e"
  unfolding schedule_events_def
proof (induction evs arbitrary: e)
  case (Cons ev evs)
  have "en_guardErr (ScheduleEvent ev e) = Some err"
    using Cons.prems by (simp add: ScheduleEvent_stamped triggerGuardFailure_def Let_def)
  from Cons.IH [OF this] show ?case by simp
qed simp

text \<open>C19: the first guardrail failure wins. Once a failure is latched, no later failure replaces it,
  and the next iteration of the loop returns exactly that error before it takes another event,
  whatever the clock, the cancellation state and the events scheduled meanwhile.\<close>

theorem engine_guard_latched:
  assumes "en_guardErr e = Some err"
  shows "triggerGuardFailure err' e = e \<and>
     (\<exists>e'. loop_body exec startTime endTime tk (w, e) = Return (w, e') (Some err) \<and>
        en_processed e' = en_processed e \<and> GetSimTime e' = GetSimTime e)"
  using assms schedule_events_guard [OF assms, of "tk_before tk"]
  by (auto simp: loop_body_def check_wall_clock_def guardrailErr_def triggerGuardFailure_def
      GetSimTime_def Let_def)

theorem engine_guard_latched_witness:
  "\<exists>e'. loop_body demo_exec 0 20 demo_tick
     (0, triggerGuardFailure (Some (OtherError ''x'')) demo_engine) = Return (0, e') (Some (OtherError ''x''))"
  using engine_guard_latched [of "triggerGuardFailure (Some (OtherError ''x'')) demo_engine" "OtherError ''x''"
      None demo_exec 0 20 demo_tick 0] demo_engine_ok(3)
  by (auto simp: triggerGuardFailure_def)

text \<open>The scheduling guardrails. \<open>ScheduleEvent\<close> always counts the attempt. Over one of the two
  scheduling limits it leaves the queue as it is, latches a guardrail error and cancels the run;
  within the limits the queue gains exactly the event, numbered with the counter. So the queue never
  grows past a positive \<open>MaxEventQueueSize\<close>.\<close>

theorem schedule_event_limits:
  assumes "ev_sequence ev = 0"
  shows "en_eventCounter (ScheduleEvent ev e) = en_eventCounter e + 1 \<and>
     (let l = en_limits e; q = en_eventQueue e; q' = en_eventQueue (ScheduleEvent ev e) in
      if (0 < rl_MaxEventsScheduled l \<and> rl_MaxEventsScheduled l \<le> en_eventCounter e) \<or>
         (0 < rl_MaxEventQueueSize l \<and> rl_MaxEventQueueSize l \<le> int (Size q))
      then q' = q \<and> en_guardErr (ScheduleEvent ev e) \<noteq> None \<and>
           (en_guardErr e = None \<longrightarrow> rm_cancelled (en_runManager (ScheduleEvent ev e)))
      else (\<exists>ev'. eq_contents q' = add_mset ev' (eq_contents q) \<and>
              ev_sequence ev' = en_eventCounter e + 1 \<and> ev_time ev' = ev_time ev \<and>
              ev_priority ev' = ev_priority ev) \<and>
           en_guardErr (ScheduleEvent ev e) = en_guardErr e \<and>
           (0 < rl_MaxEventQueueSize l \<longrightarrow> int (Size q') \<le> rl_MaxEventQueueSize l))"
  using assms
  by (auto simp: ScheduleEvent_stamped Let_def triggerGuardFailure_def rm_Cancel_def evq.sched_contents stamped_def)

theorem schedule_event_limits_witness:
  "int (Size (en_eventQueue (ScheduleEvent (demo_event 4 0 0)
     (SetRuntimeLimits \<lparr>rl_MaxEventsScheduled = 0, rl_MaxEventsProcessed = 0,
        rl_MaxEventQueueSize = 1, rl_MaxWallClockRun = 0\<rparr>
       (NewEngineWithSimStart (\<lambda>_. []) (\<lambda>_. None) 0 ''run-1'' 0))))) \<le> 1"
  using schedule_event_limits [of "demo_event 4 0 0" "SetRuntimeLimits \<lparr>rl_MaxEventsScheduled = 0,
      rl_MaxEventsProcessed = 0, rl_MaxEventQueueSize = 1, rl_MaxWallClockRun = 0\<rparr>
      (NewEngineWithSimStart (\<lambda>_. []) (\<lambda>_. None) 0 ''run-1'' 0)"]
  by (simp add: demo_event_def SetRuntimeLimits_def NewEngineWithSimStart_def Size_def eq_Len_def
      NewEventQueue_def heap_init_def Let_def)

end
