(* ===== verification/Rate_Limiter.thy ===== *)
theory Rate_Limiter
  imports Go_Float
begin

text \<open>
  The token bucket rate limiter of \<open>internal/policy/rate_limiting.go\<close>: one bucket per service and
  endpoint, created full at its first request. The number of tokens is an unbounded integer: the
  product of elapsed seconds and rate stays below \<open>2 ^ 63\<close> for any rate a scenario can ask for.
  The properties bound the tokens of every bucket and give the exact sequence of answers until the
  first token is earned back.
\<close>

record token_bucket =
  bk_capacity :: int
  bk_tokens :: int
  bk_refillRate :: int
  bk_lastRefill :: gotime

record rate_limiting_policy =
  rlp_enabled :: bool
  rlp_rateLimitPerSecond :: int
  rlp_buckets :: "(string, token_bucket) gomap"

definition NewRateLimitingPolicy :: "bool \<Rightarrow> int \<Rightarrow> rate_limiting_policy" where
  "NewRateLimitingPolicy enabled rate =
     \<lparr>rlp_enabled = enabled, rlp_rateLimitPerSecond = rate, rlp_buckets = []\<rparr>"

text \<open>The refill both methods start with.\<close>

definition refill :: "gotime \<Rightarrow> token_bucket \<Rightarrow> token_bucket" where
  "refill now b =
     (let elapsed = time_sub now (bk_lastRefill b);
          tokensToAdd = ftrunc (fmul (duration_seconds elapsed) (of_int64 (bk_refillRate b)))
      in if tokensToAdd > 0
         then let tokens = bk_tokens b + tokensToAdd
              in b\<lparr>bk_tokens := (if tokens > bk_capacity b then bk_capacity b else tokens), bk_lastRefill := now\<rparr>
         else b)"

definition new_bucket :: "int \<Rightarrow> gotime \<Rightarrow> token_bucket" where
  "new_bucket rate now = \<lparr>bk_capacity = rate, bk_tokens = rate, bk_refillRate = rate, bk_lastRefill = now\<rparr>"

definition policy_key :: "string \<Rightarrow> string \<Rightarrow> string" where
  "policy_key serviceID endpointPath = serviceID @ '':'' @ endpointPath"

definition rl_AllowRequest ::
  "string \<Rightarrow> string \<Rightarrow> gotime \<Rightarrow> rate_limiting_policy \<Rightarrow> bool \<times> rate_limiting_policy" where
  "rl_AllowRequest serviceID endpointPath requestTime p =
     (if \<not> rlp_enabled p then (True, p)
      else let key = policy_key serviceID endpointPath;
               bucket = (case gm_get (rlp_buckets p) key of Some b \<Rightarrow> b
                         | None \<Rightarrow> new_bucket (rlp_rateLimitPerSecond p) requestTime);
               b = refill requestTime bucket
           in if bk_tokens b > 0
              then (True, p\<lparr>rlp_buckets := gm_put key (b\<lparr>bk_tokens := bk_tokens b - 1\<rparr>) (rlp_buckets p)\<rparr>)
              else (False, p\<lparr>rlp_buckets := gm_put key b (rlp_buckets p)\<rparr>))"

definition rl_GetRemainingQuota ::
  "string \<Rightarrow> string \<Rightarrow> gotime \<Rightarrow> rate_limiting_policy \<Rightarrow> int \<times> rate_limiting_policy" where
  "rl_GetRemainingQuota serviceID endpointPath now p =
     (if \<not> rlp_enabled p then (-1, p)
      else let key = policy_key serviceID endpointPath
           in case gm_get (rlp_buckets p) key of
                None \<Rightarrow> (rlp_rateLimitPerSecond p, p)
              | Some bucket \<Rightarrow> let b = refill now bucket
                  in (bk_tokens b, p\<lparr>rlp_buckets := gm_put key b (rlp_buckets p)\<rparr>))"

text \<open>The answers to a sequence of requests for one endpoint.\<close>

fun allow_sequence ::
  "string \<Rightarrow> string \<Rightarrow> gotime list \<Rightarrow> rate_limiting_policy \<Rightarrow> bool list \<times> rate_limiting_policy" where
  "allow_sequence s e [] p = ([], p)"
| "allow_sequence s e (t # ts) p =
     (let (ok, p') = rl_AllowRequest s e t p; (oks, p'') = allow_sequence s e ts p' in (ok # oks, p''))"

section \<open>Invariant\<close>

definition bucket_ok :: "int \<Rightarrow> token_bucket \<Rightarrow> bool" where
  "bucket_ok rate b \<longleftrightarrow> bk_capacity b = rate \<and> bk_refillRate b = rate \<and> 0 \<le> bk_tokens b \<and> bk_tokens b \<le> rate"

definition rl_inv :: "rate_limiting_policy \<Rightarrow> bool" where
  "rl_inv p \<longleftrightarrow> 0 \<le> rlp_rateLimitPerSecond p \<and>
     (\<forall>k b. gm_get (rlp_buckets p) k = Some b \<longrightarrow> bucket_ok (rlp_rateLimitPerSecond p) b)"

lemma bucket_ok_refill: "bucket_ok r b \<Longrightarrow> bucket_ok r (refill t b)"
  by (auto simp: bucket_ok_def refill_def Let_def)

lemma bucket_ok_new: "0 \<le> r \<Longrightarrow> bucket_ok r (new_bucket r t)"
  by (simp add: bucket_ok_def new_bucket_def)

lemma rl_inv_new [inv_intros]: "0 \<le> r \<Longrightarrow> rl_inv (NewRateLimitingPolicy e r)"
  by (simp add: rl_inv_def NewRateLimitingPolicy_def)

lemma rl_inv_allow [inv_intros]:
  assumes "rl_inv p"
  shows "rl_inv (snd (rl_AllowRequest s e t p))"
proof -
  let ?r = "rlp_rateLimitPerSecond p"
  let ?b = "case gm_get (rlp_buckets p) (policy_key s e) of Some b \<Rightarrow> b | None \<Rightarrow> new_bucket ?r t"
  have "bucket_ok ?r ?b" using assms by (auto simp: rl_inv_def bucket_ok_new split: option.split)
  then have "bucket_ok ?r (refill t ?b)" by (rule bucket_ok_refill)
  with assms show ?thesis by (auto simp: rl_AllowRequest_def rl_inv_def bucket_ok_def Let_def)
qed

lemma rl_inv_quota [inv_intros]: "rl_inv p \<Longrightarrow> rl_inv (snd (rl_GetRemainingQuota s e t p))"
  by (auto simp: rl_GetRemainingQuota_def rl_inv_def bucket_ok_refill Let_def split: option.split)

text \<open>The steps of a policy in use: any interleaving of requests and quota reads, at any times.\<close>

inductive rl_reachable :: "rate_limiting_policy \<Rightarrow> bool" where
  new: "0 \<le> r \<Longrightarrow> rl_reachable (NewRateLimitingPolicy e r)"
| allow: "rl_reachable p \<Longrightarrow> rl_reachable (snd (rl_AllowRequest s e t p))"
| quota: "rl_reachable p \<Longrightarrow> rl_reachable (snd (rl_GetRemainingQuota s e t p))"

lemma rl_reachable_inv: "rl_reachable p \<Longrightarrow> rl_inv p"
  by (induction rule: rl_reachable.induct) (simp_all add: inv_intros)

section \<open>Elapsed seconds\<close>

lemma go_div_nonneg: "0 \<le> a \<Longrightarrow> 0 < b \<Longrightarrow> go_div a b = a div b"
  by (cases "a = 0") (simp_all add: go_div_def)

lemma duration_seconds_nonneg_form:
  assumes "0 \<le> d" "d \<le> max_int64"
  shows "duration_seconds d = fl (of_int (d div nanos_per_s) + fl (of_int (d mod nanos_per_s) / of_int nanos_per_s))"
proof -
  have "\<bar>d div nanos_per_s\<bar> < 2 ^ 53" "\<bar>d mod nanos_per_s\<bar> < 2 ^ 53" "\<bar>nanos_per_s\<bar> < 2 ^ 53"
    using assms by auto
  then show ?thesis
    using assms by (simp add: duration_seconds_def go_div_nonneg go_mod_nonneg of_int64_exact fadd_def fdiv_def)
qed

lemma duration_seconds_mono:
  assumes "0 \<le> d" "d \<le> d'" "d' \<le> max_int64"
  shows "duration_seconds d \<le> duration_seconds d'"
proof -
  have q: "d div nanos_per_s \<le> d' div nanos_per_s" using assms by (simp add: zdiv_mono1)
  have m: "0 \<le> fl (of_int (x mod nanos_per_s) / of_int nanos_per_s)"
    "fl (of_int (x mod nanos_per_s) / of_int nanos_per_s) \<le> 1" for x :: int
  proof -
    show "0 \<le> fl (of_int (x mod nanos_per_s) / of_int nanos_per_s)" by (intro fl_nonneg) simp
    have "x mod nanos_per_s \<le> nanos_per_s" by (simp add: order_less_imp_le)
    then have "(of_int (x mod nanos_per_s) :: rat) \<le> of_int nanos_per_s" by (simp only: of_int_le_iff)
    then have "(of_int (x mod nanos_per_s) / of_int nanos_per_s :: rat) \<le> 1" by simp
    from fl_mono [OF this] show "fl (of_int (x mod nanos_per_s) / of_int nanos_per_s) \<le> 1"
      using fl_int [of 1] by simp
  qed
  have "(of_int (d div nanos_per_s) + fl (of_int (d mod nanos_per_s) / of_int nanos_per_s) :: rat)
      \<le> of_int (d' div nanos_per_s) + fl (of_int (d' mod nanos_per_s) / of_int nanos_per_s)"
  proof (cases "d div nanos_per_s = d' div nanos_per_s")
    case True
    have "d mod nanos_per_s \<le> d' mod nanos_per_s"
      using True assms(2) by (metis add_le_cancel_left mult_div_mod_eq)
    then have "(of_int (d mod nanos_per_s) / of_int nanos_per_s :: rat) \<le> of_int (d' mod nanos_per_s) / of_int nanos_per_s"
      by (simp add: divide_right_mono)
    from fl_mono [OF this] True show ?thesis by simp
  next
    case False
    then have "d div nanos_per_s + 1 \<le> d' div nanos_per_s" using q by simp
    then have "(of_int (d div nanos_per_s) + 1 :: rat) \<le> of_int (d' div nanos_per_s)"
      by (metis of_int_1 of_int_add of_int_le_iff)
    with m(1) [of d'] m(2) [of d] show ?thesis by linarith
  qed
  from fl_mono [OF this] show ?thesis
    using assms by (simp add: duration_seconds_nonneg_form)
qed

section \<open>Answers before the first refill\<close>

text \<open>The span of time after a refill in which no whole token is earned.\<close>

definition no_token_yet :: "int \<Rightarrow> duration \<Rightarrow> bool" where
  "no_token_yet rate d \<longleftrightarrow> 0 \<le> d \<and> d \<le> max_int64 \<and>
     ftrunc (fmul (duration_seconds d) (of_int64 rate)) = 0"

lemma duration_seconds_nonneg: "0 \<le> d \<Longrightarrow> d \<le> max_int64 \<Longrightarrow> 0 \<le> duration_seconds d"
  by (simp add: duration_seconds_nonneg_form fl_nonneg)

lemma refill_none:
  assumes "no_token_yet (bk_refillRate b) d" "0 \<le> bk_refillRate b"
    and "bk_lastRefill b \<le> t" "t - bk_lastRefill b \<le> d"
  shows "refill t b = b"
proof -
  let ?e = "t - bk_lastRefill b" and ?r = "of_int64 (bk_refillRate b)"
  have d: "0 \<le> d" "d \<le> max_int64" using assms(1) by (simp_all add: no_token_yet_def)
  have e: "time_sub t (bk_lastRefill b) = ?e" using assms(3,4) d by (simp add: time_sub_def)
  have "fmul (duration_seconds ?e) ?r \<le> fmul (duration_seconds d) ?r"
    using assms d duration_seconds_mono [of ?e d] duration_seconds_nonneg [of ?e] of_int64_nonneg [of "bk_refillRate b"]
    by (intro fmul_mono) auto
  moreover have nn: "0 \<le> fmul (duration_seconds ?e) ?r" "0 \<le> fmul (duration_seconds d) ?r"
    using assms d duration_seconds_nonneg [of ?e] duration_seconds_nonneg [of d] of_int64_nonneg [of "bk_refillRate b"]
    by (auto intro!: fmul_nonneg)
  ultimately have "ftrunc (fmul (duration_seconds ?e) ?r) \<le> 0"
    using assms(1) floor_mono by (fastforce simp: no_token_yet_def ftrunc_def)
  then show ?thesis by (simp add: refill_def e Let_def)
qed

lemma allow_sequence_answers:
  assumes "rlp_enabled p" "gm_get (rlp_buckets p) (policy_key s e) = Some b"
    and "bk_refillRate b = r" "0 \<le> r" "bk_lastRefill b = t0" "0 \<le> bk_tokens b" "no_token_yet r d"
    and "\<forall>t \<in> set ts. t0 \<le> t \<and> t - t0 \<le> d"
  shows "fst (allow_sequence s e ts p) = map (\<lambda>i. int i < bk_tokens b) [0..<length ts]"
  using assms
proof (induction ts arbitrary: p b)
  case (Cons t ts)
  have rf: "refill t b = b" using Cons.prems by (intro refill_none [where d = d]) auto
  define b' where "b' = (if bk_tokens b > 0 then b\<lparr>bk_tokens := bk_tokens b - 1\<rparr> else b)"
  define p' where "p' = p\<lparr>rlp_buckets := gm_put (policy_key s e) b' (rlp_buckets p)\<rparr>"
  have a: "rl_AllowRequest s e t p = (bk_tokens b > 0, p')"
    using Cons.prems(1,2) rf by (simp add: rl_AllowRequest_def p'_def b'_def Let_def)
  have "fst (allow_sequence s e ts p') = map (\<lambda>i. int i < bk_tokens b') [0..<length ts]"
    using Cons.prems by (intro Cons.IH) (auto simp: p'_def b'_def)
  moreover have "map (\<lambda>i. int i < bk_tokens b') [0..<length ts] = map (\<lambda>i. int (Suc i) < bk_tokens b) [0..<length ts]"
    using Cons.prems(6) by (auto simp: b'_def)
  ultimately show ?case
    by (cases "allow_sequence s e ts p'") (simp add: a upt_conv_Cons map_Suc_upt [symmetric] del: upt_Suc)
qed simp

section \<open>Properties\<close>

text \<open>In every state an enabled or disabled limiter reaches, whatever the times of the calls (they
  may run backwards), each bucket holds between zero tokens and its capacity, which is the
  configured rate.\<close>

theorem rate_limiter_bounds:
  assumes "rl_reachable p" "gm_get (rlp_buckets p) k = Some b"
  shows "0 \<le> bk_tokens b \<and> bk_tokens b \<le> bk_capacity b \<and> bk_capacity b = rlp_rateLimitPerSecond p"
  using rl_reachable_inv [OF assms(1)] assms(2) by (auto simp: rl_inv_def bucket_ok_def)

theorem rate_limiter_bounds_witness:
  "let p = snd (rl_AllowRequest ''api'' ''/a'' 5 (NewRateLimitingPolicy True 2)) in
   \<exists>b. gm_get (rlp_buckets p) (policy_key ''api'' ''/a'') = Some b \<and> bk_tokens b \<le> bk_capacity b"
proof -
  let ?p = "snd (rl_AllowRequest ''api'' ''/a'' 5 (NewRateLimitingPolicy True 2))"
  have r: "rl_reachable ?p" by (intro rl_reachable.intros) simp
  have "\<exists>b. gm_get (rlp_buckets ?p) (policy_key ''api'' ''/a'') = Some b"
    by (cases "0 < bk_tokens (refill 5 (new_bucket 2 5))")
      (simp_all add: rl_AllowRequest_def NewRateLimitingPolicy_def Let_def)
  then obtain b where b: "gm_get (rlp_buckets ?p) (policy_key ''api'' ''/a'') = Some b" ..
  from rate_limiter_bounds [OF r b] b show ?thesis by (simp add: Let_def)
qed

text \<open>C22: a fresh endpoint of an enabled limiter with rate \<open>r\<close> answers a burst exactly: as long as the
  requests arrive, in any order, within a span after the first one that earns no whole token,
  the first \<open>r\<close> are allowed and all later ones are refused.\<close>

theorem rate_limiter_burst:
  assumes "rlp_enabled p" "rlp_rateLimitPerSecond p = r" "0 \<le> r"
    and "gm_get (rlp_buckets p) (policy_key s e) = None"
    and "no_token_yet r d" "\<forall>t \<in> set ts. t0 \<le> t \<and> t - t0 \<le> d"
  shows "fst (allow_sequence s e (t0 # ts) p) =
     replicate (min (Suc (length ts)) (nat r)) True @ replicate (Suc (length ts) - nat r) False"
proof -
  define p1 where "p1 = p\<lparr>rlp_buckets := gm_put (policy_key s e) (new_bucket r t0) (rlp_buckets p)\<rparr>"
  have "rl_AllowRequest s e t0 p = rl_AllowRequest s e t0 p1"
    using assms(1,2,4) by (simp add: rl_AllowRequest_def p1_def Let_def)
  then have "fst (allow_sequence s e (t0 # ts) p) = fst (allow_sequence s e (t0 # ts) p1)" by simp
  also have "\<dots> = map (\<lambda>i. int i < bk_tokens (new_bucket r t0)) [0..<length (t0 # ts)]"
    using assms by (intro allow_sequence_answers [where ?t0.0 = t0 and d = d and r = r])
      (auto simp: p1_def new_bucket_def no_token_yet_def)
  also have "\<dots> = replicate (min (Suc (length ts)) (nat r)) True @ replicate (Suc (length ts) - nat r) False"
    using assms(3) by (intro nth_equalityI) (auto simp: new_bucket_def nth_append simp del: upt_Suc)
  finally show ?thesis .
qed

lemma demo_no_token: "no_token_yet 2 400000000"
  by code_simp

theorem rate_limiter_burst_witness:
  "fst (allow_sequence ''api'' ''/a'' [0, 400000000, 7] (NewRateLimitingPolicy True 2)) = [True, True, False]"
  using rate_limiter_burst [of "NewRateLimitingPolicy True 2" 2 "''api''" "''/a''" 400000000 "[400000000, 7]" 0]
    demo_no_token by (simp add: NewRateLimitingPolicy_def numeral_2_eq_2)

end
