(* ===== verification/Circuit_Breaker.thy ===== *)
theory Circuit_Breaker
  imports Rate_Limiter
begin

text \<open>
  The circuit breaker of \<open>internal/policy/circuit_breaker.go\<close>: one circuit per service and endpoint.
  The abstract breaker forgets the counters that do not matter in a state; the locale
  \<open>breaker_contract\<close> is what a client may rely on, and it is interpreted on the policy. The
  properties are the refinement of the abstract machine, the exact threshold at which a circuit
  opens, and its recovery.
\<close>

datatype circuit_kind = CircuitStateClosed | CircuitStateOpen | CircuitStateHalfOpen

record circuit_state =
  ci_state :: circuit_kind
  ci_failureCount :: int
  ci_successCount :: int
  ci_lastFailureTime :: gotime
  ci_lastStateChange :: gotime

record circuit_breaker_policy =
  cbp_enabled :: bool
  cbp_failureThreshold :: int
  cbp_successThreshold :: int
  cbp_timeout :: duration
  cbp_circuits :: "(string, circuit_state) gomap"

definition NewCircuitBreakerPolicy :: "bool \<Rightarrow> int \<Rightarrow> int \<Rightarrow> duration \<Rightarrow> circuit_breaker_policy" where
  "NewCircuitBreakerPolicy enabled failureThreshold successThreshold timeout =
     \<lparr>cbp_enabled = enabled, cbp_failureThreshold = failureThreshold,
      cbp_successThreshold = successThreshold, cbp_timeout = timeout, cbp_circuits = []\<rparr>"

text \<open>The four methods work on the circuit of the key of their service and endpoint.\<close>

definition new_circuit :: "gotime \<Rightarrow> circuit_state" where
  "new_circuit now = \<lparr>ci_state = CircuitStateClosed, ci_failureCount = 0, ci_successCount = 0,
     ci_lastFailureTime = 0, ci_lastStateChange = now\<rparr>"

definition allow_circuit ::
  "string \<Rightarrow> gotime \<Rightarrow> circuit_breaker_policy \<Rightarrow> bool \<times> circuit_breaker_policy" where
  "allow_circuit key now p =
     (if \<not> cbp_enabled p then (True, p)
      else let circuit = (case gm_get (cbp_circuits p) key of Some c \<Rightarrow> c | None \<Rightarrow> new_circuit now);
               p1 = p\<lparr>cbp_circuits := gm_put key circuit (cbp_circuits p)\<rparr>
           in if ci_state circuit = CircuitStateOpen
              then if time_sub now (ci_lastStateChange circuit) \<ge> cbp_timeout p
                   then (True, p\<lparr>cbp_circuits := gm_put key (circuit\<lparr>ci_state := CircuitStateHalfOpen,
                          ci_successCount := 0, ci_lastStateChange := now\<rparr>) (cbp_circuits p)\<rparr>)
                   else (False, p1)
              else (True, p1))"

definition cb_AllowRequest ::
  "string \<Rightarrow> string \<Rightarrow> gotime \<Rightarrow> circuit_breaker_policy \<Rightarrow> bool \<times> circuit_breaker_policy" where
  "cb_AllowRequest serviceID endpointPath now p = allow_circuit (policy_key serviceID endpointPath) now p"

definition success_circuit ::
  "string \<Rightarrow> gotime \<Rightarrow> circuit_breaker_policy \<Rightarrow> circuit_breaker_policy" where
  "success_circuit key now p =
     (if \<not> cbp_enabled p then p
      else (case gm_get (cbp_circuits p) key of
                None \<Rightarrow> p
              | Some circuit \<Rightarrow>
                  let circuit' =
                    (if ci_state circuit = CircuitStateHalfOpen
                     then let c = circuit\<lparr>ci_successCount := ci_successCount circuit + 1\<rparr>
                          in if ci_successCount c \<ge> cbp_successThreshold p
                             then c\<lparr>ci_state := CircuitStateClosed, ci_failureCount := 0, ci_lastStateChange := now\<rparr>
                             else c
                     else if ci_state circuit = CircuitStateClosed then circuit\<lparr>ci_failureCount := 0\<rparr>
                     else circuit)
                  in p\<lparr>cbp_circuits := gm_put key circuit' (cbp_circuits p)\<rparr>))"

definition cb_RecordSuccess ::
  "string \<Rightarrow> string \<Rightarrow> gotime \<Rightarrow> circuit_breaker_policy \<Rightarrow> circuit_breaker_policy" where
  "cb_RecordSuccess serviceID endpointPath now p = success_circuit (policy_key serviceID endpointPath) now p"

definition failure_circuit ::
  "string \<Rightarrow> gotime \<Rightarrow> circuit_breaker_policy \<Rightarrow> circuit_breaker_policy" where
  "failure_circuit key now p =
     (if \<not> cbp_enabled p then p
      else let circuit0 = (case gm_get (cbp_circuits p) key of Some c \<Rightarrow> c | None \<Rightarrow> new_circuit now);
               circuit = circuit0\<lparr>ci_failureCount := ci_failureCount circuit0 + 1, ci_lastFailureTime := now\<rparr>;
               circuit' =
                 (if ci_state circuit = CircuitStateHalfOpen
                  then circuit\<lparr>ci_state := CircuitStateOpen, ci_successCount := 0, ci_lastStateChange := now\<rparr>
                  else if ci_state circuit = CircuitStateClosed \<and> ci_failureCount circuit \<ge> cbp_failureThreshold p
                  then circuit\<lparr>ci_state := CircuitStateOpen, ci_lastStateChange := now\<rparr>
                  else circuit)
           in p\<lparr>cbp_circuits := gm_put key circuit' (cbp_circuits p)\<rparr>)"

definition cb_RecordFailure ::
  "string \<Rightarrow> string \<Rightarrow> gotime \<Rightarrow> circuit_breaker_policy \<Rightarrow> circuit_breaker_policy" where
  "cb_RecordFailure serviceID endpointPath now p = failure_circuit (policy_key serviceID endpointPath) now p"

definition state_circuit ::
  "string \<Rightarrow> gotime \<Rightarrow> circuit_breaker_policy \<Rightarrow> circuit_kind \<times> circuit_breaker_policy" where
  "state_circuit key now p =
     (if \<not> cbp_enabled p then (CircuitStateClosed, p)
      else (case gm_get (cbp_circuits p) key of
                None \<Rightarrow> (CircuitStateClosed, p)
              | Some circuit \<Rightarrow>
                  let circuit' =
                    (if ci_state circuit = CircuitStateOpen \<and> time_sub now (ci_lastStateChange circuit) \<ge> cbp_timeout p
                     then circuit\<lparr>ci_state := CircuitStateHalfOpen, ci_successCount := 0, ci_lastStateChange := now\<rparr>
                     else circuit)
                  in (ci_state circuit', p\<lparr>cbp_circuits := gm_put key circuit' (cbp_circuits p)\<rparr>)))"

definition cb_CheckAndGetState ::
  "string \<Rightarrow> string \<Rightarrow> gotime \<Rightarrow> circuit_breaker_policy \<Rightarrow> circuit_kind \<times> circuit_breaker_policy" where
  "cb_CheckAndGetState serviceID endpointPath now p = state_circuit (policy_key serviceID endpointPath) now p"

section \<open>The abstract breaker\<close>

text \<open>Closed with a number of failures since the last success, open since a time, or half-open with a
  number of successes.\<close>

datatype breaker = BClosed int | BOpen gotime | BHalfOpen int

fun br_tick :: "duration \<Rightarrow> gotime \<Rightarrow> breaker \<Rightarrow> breaker" where
  "br_tick timeout now (BOpen since) = (if time_sub now since \<ge> timeout then BHalfOpen 0 else BOpen since)"
| "br_tick timeout now b = b"

fun br_success :: "int \<Rightarrow> breaker \<Rightarrow> breaker" where
  "br_success thr (BClosed n) = BClosed 0"
| "br_success thr (BHalfOpen k) = (if k + 1 \<ge> thr then BClosed 0 else BHalfOpen (k + 1))"
| "br_success thr (BOpen since) = BOpen since"

fun br_failure :: "int \<Rightarrow> gotime \<Rightarrow> breaker \<Rightarrow> breaker" where
  "br_failure thr now (BClosed n) = (if n + 1 \<ge> thr then BOpen now else BClosed (n + 1))"
| "br_failure thr now (BHalfOpen k) = BOpen now"
| "br_failure thr now (BOpen since) = BOpen since"

fun br_open :: "breaker \<Rightarrow> bool" where
  "br_open (BOpen since) = True"
| "br_open b = False"

definition circuit_abs :: "circuit_state \<Rightarrow> breaker" where
  "circuit_abs c = (case ci_state c of
     CircuitStateClosed \<Rightarrow> BClosed (ci_failureCount c)
   | CircuitStateOpen \<Rightarrow> BOpen (ci_lastStateChange c)
   | CircuitStateHalfOpen \<Rightarrow> BHalfOpen (ci_successCount c))"

definition cb_view :: "circuit_breaker_policy \<Rightarrow> string \<Rightarrow> breaker" where
  "cb_view p k = (case gm_get (cbp_circuits p) k of None \<Rightarrow> BClosed 0 | Some c \<Rightarrow> circuit_abs c)"

locale breaker_contract =
  fixes view :: "'p \<Rightarrow> 'k \<Rightarrow> breaker"
    and allow :: "'k \<Rightarrow> gotime \<Rightarrow> 'p \<Rightarrow> bool \<times> 'p"
    and success :: "'k \<Rightarrow> gotime \<Rightarrow> 'p \<Rightarrow> 'p"
    and failure :: "'k \<Rightarrow> gotime \<Rightarrow> 'p \<Rightarrow> 'p"
    and ok :: "'p \<Rightarrow> bool"
    and fthr :: "'p \<Rightarrow> int" and sthr :: "'p \<Rightarrow> int" and timeout :: "'p \<Rightarrow> duration"
  assumes view_allow: "ok p \<Longrightarrow> view (snd (allow k t p)) k' =
      (if k' = k then br_tick (timeout p) t (view p k') else view p k')"
    and allow_answer: "ok p \<Longrightarrow> fst (allow k t p) \<longleftrightarrow> \<not> br_open (br_tick (timeout p) t (view p k))"
    and view_success: "ok p \<Longrightarrow> view (success k t p) k' = (if k' = k then br_success (sthr p) (view p k') else view p k')"
    and view_failure: "ok p \<Longrightarrow> view (failure k t p) k' = (if k' = k then br_failure (fthr p) t (view p k') else view p k')"
    and frame: "ok p \<Longrightarrow> ok (snd (allow k t p)) \<and> ok (success k t p) \<and> ok (failure k t p)"
    and params: "fthr (failure k t p) = fthr p" "sthr (success k t p) = sthr p"
      "sthr (snd (allow k t p)) = sthr p" "timeout (failure k t p) = timeout p" "sthr (failure k t p) = sthr p"
begin

lemma failures_view:
  assumes "ok p" "view p k = BClosed n" "0 \<le> n" "n < fthr p"
  shows "view (foldl (\<lambda>p t. failure k t p) p ts) k =
      (if n + int (length ts) < fthr p then BClosed (n + int (length ts)) else BOpen (ts ! nat (fthr p - n - 1)))"
  using assms
proof (induction ts arbitrary: p n)
  case (Cons t ts)
  have ok: "ok (failure k t p)" using frame Cons.prems(1) by blast
  show ?case
  proof (cases "n + 1 < fthr p")
    case True
    then have "view (failure k t p) k = BClosed (n + 1)" using Cons.prems by (simp add: view_failure)
    moreover have "nat (fthr p - n - 1) = Suc (nat (fthr p - (n + 1) - 1))" using True by simp
    ultimately show ?thesis using Cons.IH [OF ok, of "n + 1"] Cons.prems(3) True by (simp add: params algebra_simps)
  next
    case False
    then have v: "view (failure k t p) k = BOpen t" using Cons.prems by (simp add: view_failure)
    have "view q k = BOpen t \<Longrightarrow> ok q \<Longrightarrow> view (foldl (\<lambda>p t. failure k t p) q us) k = BOpen t" for q us
    proof (induction us arbitrary: q)
      case (Cons u us)
      then show ?case using frame by (simp add: view_failure)
    qed simp
    from this [OF v ok] False Cons.prems show ?thesis by simp
  qed
qed simp

lemma open_rejects:
  assumes "ok p" "view p k = BOpen since" "time_sub t since < timeout p"
  shows "\<not> fst (allow k t p)" "view (snd (allow k t p)) k = BOpen since"
  using assms by (simp_all add: allow_answer view_allow)

lemma recovers:
  assumes "ok p" "view p k = BHalfOpen n" "0 \<le> n" "int (length ts) + n = sthr p" "ts \<noteq> []"
  shows "view (foldl (\<lambda>p t. success k t p) p ts) k = BClosed 0"
  using assms
proof (induction ts arbitrary: p n)
  case (Cons t ts)
  have ok: "ok (success k t p)" using frame Cons.prems(1) by blast
  show ?case
  proof (cases ts)
    case Nil
    then show ?thesis using Cons.prems by (simp add: view_success)
  next
    case (Cons u us)
    then have "view (success k t p) k = BHalfOpen (n + 1)" using Cons.prems by (simp add: view_success)
    from Cons.IH [OF ok this] Cons.prems Cons show ?thesis by (simp add: params)
  qed
qed simp

end

section \<open>The policy implements the contract\<close>

lemma circuit_abs_new [simp]: "circuit_abs (new_circuit t) = BClosed 0"
  by (simp add: circuit_abs_def new_circuit_def)

lemma cb_view_put: "cb_view (p\<lparr>cbp_circuits := gm_put k c (cbp_circuits p)\<rparr>) k' =
    (if k' = k then circuit_abs c else cb_view p k')"
  by (simp add: cb_view_def)

lemmas circuit_defs = allow_circuit_def success_circuit_def failure_circuit_def state_circuit_def

interpretation cbc: breaker_contract cb_view allow_circuit success_circuit failure_circuit
  cbp_enabled cbp_failureThreshold cbp_successThreshold cbp_timeout
proof
  fix p :: circuit_breaker_policy and k k' :: string and t :: gotime
  define c where "c = (case gm_get (cbp_circuits p) k of Some c \<Rightarrow> c | None \<Rightarrow> new_circuit t)"
  have v: "cb_view p k = circuit_abs c" by (simp add: c_def cb_view_def split: option.split)
  assume ok: "cbp_enabled p"
  show "cb_view (snd (allow_circuit k t p)) k' = (if k' = k then br_tick (cbp_timeout p) t (cb_view p k') else cb_view p k')"
    using ok v unfolding allow_circuit_def c_def [symmetric] Let_def
    by (cases "ci_state c") (auto simp: cb_view_put circuit_abs_def)
  show "fst (allow_circuit k t p) \<longleftrightarrow> \<not> br_open (br_tick (cbp_timeout p) t (cb_view p k))"
    using ok v unfolding allow_circuit_def c_def [symmetric] Let_def
    by (cases "ci_state c") (auto simp: circuit_abs_def)
  show "cb_view (success_circuit k t p) k' = (if k' = k then br_success (cbp_successThreshold p) (cb_view p k') else cb_view p k')"
  proof (cases "gm_get (cbp_circuits p) k")
    case None
    then show ?thesis using ok by (simp add: success_circuit_def cb_view_def)
  next
    case (Some c)
    then have "cb_view p k = circuit_abs c" by (simp add: cb_view_def)
    then show ?thesis using ok Some
      by (cases "ci_state c") (auto simp: success_circuit_def cb_view_put circuit_abs_def Let_def)
  qed
  show "cb_view (failure_circuit k t p) k' = (if k' = k then br_failure (cbp_failureThreshold p) t (cb_view p k') else cb_view p k')"
    using ok v unfolding failure_circuit_def c_def [symmetric] Let_def
    by (cases "ci_state c") (auto simp: cb_view_put circuit_abs_def)
next
  fix p :: circuit_breaker_policy and k :: string and t :: gotime
  assume "cbp_enabled p"
  then show "cbp_enabled (snd (allow_circuit k t p)) \<and> cbp_enabled (success_circuit k t p) \<and>
      cbp_enabled (failure_circuit k t p)"
    by (auto simp: circuit_defs Let_def split: option.split)
qed (auto simp: circuit_defs Let_def split: option.split)

section \<open>Properties\<close>

text \<open>C10: the circuit breaker refines the abstract breaker. Every method of an enabled policy acts on
  the view of its own key as the abstract operation does and leaves every other key's view alone;
  \<open>AllowRequest\<close> answers whether the breaker, after the timeout check, is not open, and
  \<open>CheckAndGetState\<close> makes the same transition and reports its state.\<close>

theorem circuit_breaker_refines:
  assumes "cbp_enabled p"
  shows "cb_view (snd (cb_AllowRequest s e t p)) =
      (cb_view p)(policy_key s e := br_tick (cbp_timeout p) t (cb_view p (policy_key s e))) \<and>
    fst (cb_AllowRequest s e t p) = (\<not> br_open (br_tick (cbp_timeout p) t (cb_view p (policy_key s e)))) \<and>
    cb_view (cb_RecordSuccess s e t p) =
      (cb_view p)(policy_key s e := br_success (cbp_successThreshold p) (cb_view p (policy_key s e))) \<and>
    cb_view (cb_RecordFailure s e t p) =
      (cb_view p)(policy_key s e := br_failure (cbp_failureThreshold p) t (cb_view p (policy_key s e))) \<and>
    cb_view (snd (cb_CheckAndGetState s e t p)) = cb_view (snd (cb_AllowRequest s e t p)) \<and>
    (fst (cb_CheckAndGetState s e t p) = CircuitStateOpen) = (\<not> fst (cb_AllowRequest s e t p))"
proof -
  let ?k = "policy_key s e"
  have st: "cb_view (snd (state_circuit ?k t p)) = cb_view (snd (allow_circuit ?k t p)) \<and>
      (fst (state_circuit ?k t p) = CircuitStateOpen) = (\<not> fst (allow_circuit ?k t p))"
  proof (cases "gm_get (cbp_circuits p) ?k")
    case None
    then show ?thesis
      using assms by (auto simp: state_circuit_def allow_circuit_def cb_view_def new_circuit_def circuit_abs_def Let_def)
  next
    case (Some c)
    then show ?thesis
      using assms by (cases "ci_state c") (auto simp: state_circuit_def allow_circuit_def cb_view_put fun_eq_iff Let_def)
  qed
  show ?thesis
    using assms st
    by (simp add: cb_AllowRequest_def cb_RecordSuccess_def cb_RecordFailure_def cb_CheckAndGetState_def
        fun_eq_iff cbc.view_allow cbc.allow_answer cbc.view_success cbc.view_failure)
qed

definition demo_breaker :: circuit_breaker_policy where
  "demo_breaker = NewCircuitBreakerPolicy True 2 1 10"

theorem circuit_breaker_refines_witness:
  "cb_view (cb_RecordFailure ''api'' ''/a'' 3 demo_breaker) =
     (cb_view demo_breaker)(policy_key ''api'' ''/a'' := BClosed 1)"
  using circuit_breaker_refines [of demo_breaker "''api''" "''/a''" 3]
  by (simp add: demo_breaker_def NewCircuitBreakerPolicy_def cb_view_def)

text \<open>A circuit opens exactly at its threshold. From a closed circuit with no recorded failure,
  failures at any times \<open>ts\<close> leave it closed, counting them, while there are fewer than the failure
  threshold, and from then on it has been open since the time of the failure that reached it.\<close>

theorem circuit_opens_at_threshold:
  assumes "cbp_enabled p" "cb_view p (policy_key s e) = BClosed 0" "0 < cbp_failureThreshold p"
  shows "cb_view (foldl (\<lambda>p t. cb_RecordFailure s e t p) p ts) (policy_key s e) =
     (if int (length ts) < cbp_failureThreshold p then BClosed (int (length ts))
      else BOpen (ts ! nat (cbp_failureThreshold p - 1)))"
  using cbc.failures_view [OF assms(1,2), of ts] assms(3) by (simp add: cb_RecordFailure_def)

theorem circuit_opens_at_threshold_witness:
  "cb_view (foldl (\<lambda>p t. cb_RecordFailure ''api'' ''/a'' t p) demo_breaker [3, 5, 9]) (policy_key ''api'' ''/a'') = BOpen 5"
  using circuit_opens_at_threshold [of demo_breaker "''api''" "''/a''" "[3, 5, 9]"]
  by (simp add: demo_breaker_def NewCircuitBreakerPolicy_def cb_view_def)

text \<open>An open circuit refuses and recovers. Before its timeout it refuses every request and stays
  open since the same time. From the timeout on it admits a request, half-open; as many successes as
  the success threshold then close it with no failure counted, while one failure reopens it.\<close>

theorem circuit_recovers:
  assumes "cbp_enabled p" "cb_view p (policy_key s e) = BOpen since"
    and "int (length ts) = cbp_successThreshold p" "ts \<noteq> []"
  shows "let (ok, p') = cb_AllowRequest s e t p in
     if time_sub t since < cbp_timeout p then \<not> ok \<and> cb_view p' (policy_key s e) = BOpen since
     else ok \<and> cb_view p' (policy_key s e) = BHalfOpen 0 \<and>
       cb_view (foldl (\<lambda>p t. cb_RecordSuccess s e t p) p' ts) (policy_key s e) = BClosed 0 \<and>
       cb_view (cb_RecordFailure s e t' p') (policy_key s e) = BOpen t'"
proof -
  let ?k = "policy_key s e"
  obtain b p' where a: "allow_circuit ?k t p = (b, p')" by (cases "allow_circuit ?k t p")
  show ?thesis
  proof (cases "time_sub t since < cbp_timeout p")
    case True
    then show ?thesis using cbc.open_rejects [OF assms(1,2) True] a by (simp add: cb_AllowRequest_def)
  next
    case False
    have b: b and v: "cb_view p' ?k = BHalfOpen 0" and ok: "cbp_enabled p'"
      and thr: "cbp_successThreshold p' = cbp_successThreshold p"
      using cbc.allow_answer [OF assms(1), of ?k t] cbc.view_allow [OF assms(1), of ?k t ?k]
        cbc.frame [OF assms(1), of ?k t] cbc.params(3) [of ?k t p] a False assms(2) by simp_all
    have "cb_view (foldl (\<lambda>p t. success_circuit ?k t p) p' ts) ?k = BClosed 0"
      using cbc.recovers [OF ok v] assms(3,4) thr by simp
    moreover have "cb_view (failure_circuit ?k t' p') ?k = BOpen t'" using ok v by (simp add: cbc.view_failure)
    ultimately show ?thesis using False a b v
      by (simp add: cb_AllowRequest_def cb_RecordSuccess_def cb_RecordFailure_def)
  qed
qed

theorem circuit_recovers_witness:
  "let p = foldl (\<lambda>p t. cb_RecordFailure ''api'' ''/a'' t p) demo_breaker [3, 5];
       (ok, p') = cb_AllowRequest ''api'' ''/a'' 15 p
   in ok \<and> cb_view (cb_RecordSuccess ''api'' ''/a'' 16 p') (policy_key ''api'' ''/a'') = BClosed 0"
proof -
  let ?p = "foldl (\<lambda>p t. cb_RecordFailure ''api'' ''/a'' t p) demo_breaker [3, 5]"
  have "cbp_enabled ?p" "cb_view ?p (policy_key ''api'' ''/a'') = BOpen 5"
    "cbp_successThreshold ?p = 1" "cbp_timeout ?p = 10" by code_simp+
  with circuit_recovers [of ?p "''api''" "''/a''" 5 "[16]" 15 0] show ?thesis
    by (simp add: time_sub_def case_prod_unfold Let_def)
qed

end
