(* ===== verification/Scenario_Types.thy ===== *)
theory Scenario_Types
  imports Go_Float
begin

text \<open>
  The scenario of \<open>pkg/config/scenario_types.go\<close> and the policies of \<open>pkg/config/types.go\<close>,
  one record per struct. A pointer field that may be nil is an option.
\<close>

record latency_spec =
  la_Mean :: float64
  la_Sigma :: float64

definition zero_latency :: latency_spec where
  "zero_latency = \<lparr>la_Mean = 0, la_Sigma = 0\<rparr>"

record network_config =
  nc_SymmetricCrossZoneLatency :: bool
  nc_SameHostLatencyMs :: latency_spec
  nc_SameZoneLatencyMs :: latency_spec
  nc_DefaultCrossZoneLatencyMs :: latency_spec
  nc_CrossZoneLatencyMs :: "(string, (string, latency_spec) gomap) gomap"
  nc_ExternalLatencyMs :: latency_spec

record simulation_limits =
  sl_MaxTraceDepth :: int
  sl_MaxAsyncHops :: int

record host_spec =
  ho_ID :: string
  ho_Cores :: int
  ho_MemoryGB :: int
  ho_Zone :: string
  ho_Labels :: "(string, string) gomap"

record placement_policy =
  pp_RequiredZones :: "string list"
  pp_PreferredZones :: "string list"
  pp_AffinityZones :: "string list"
  pp_AntiAffinityZones :: "string list"
  pp_RequiredHostLabels :: "(string, string) gomap"
  pp_PreferredHostLabels :: "(string, string) gomap"
  pp_AntiAffinityServices :: "string list"
  pp_SpreadAcrossZones :: bool
  pp_MaxReplicasPerHost :: int

record queue_behavior =
  qb_Capacity :: int
  qb_ConsumerConcurrency :: int
  qb_MinConsumerConcurrency :: int
  qb_MaxConsumerConcurrency :: int
  qb_ConsumerTarget :: string
  qb_DeliveryLatencyMs :: latency_spec
  qb_AckTimeoutMs :: float64
  qb_MaxRedeliveries :: int
  qb_DLQTarget :: string
  qb_DropPolicy :: string
  qb_AsyncFireAndForget :: bool

record topic_subscriber =
  ts_Name :: string
  ts_ConsumerTarget :: string
  ts_ConsumerGroup :: string
  ts_ConsumerConcurrency :: int
  ts_MinConsumerConcurrency :: int
  ts_MaxConsumerConcurrency :: int
  ts_AckTimeoutMs :: float64
  ts_MaxRedeliveries :: int
  ts_DLQ :: string
  ts_DropPolicy :: string

record topic_behavior =
  tb_Partitions :: int
  tb_RetentionMs :: int
  tb_Capacity :: int
  tb_DeliveryLatencyMs :: latency_spec
  tb_PublishAck :: string
  tb_AsyncFireAndForget :: bool
  tb_Subscribers :: "topic_subscriber list"

record cache_behavior =
  cb_HitRate :: float64
  cb_HitLatencyMs :: latency_spec
  cb_MissLatencyMs :: latency_spec

record service_behavior =
  sb_FailureRate :: float64
  sb_SaturationLatencyFactor :: float64
  sb_MaxConnections :: int
  sb_Cache :: "cache_behavior option"
  sb_Queue :: "queue_behavior option"
  sb_Topic :: "topic_behavior option"

record scaling_policy =
  sp_Horizontal :: bool
  sp_VerticalCPU :: bool
  sp_VerticalMemory :: bool

record routing_policy =
  rp_Strategy :: string
  rp_StickyKeyFrom :: string
  rp_LocalityZoneFrom :: string
  rp_Weights :: "(string, float64) gomap"

record downstream_call =
  dc_To :: string
  dc_Mode :: string
  dc_Kind :: string
  dc_Probability :: float64
  dc_CallCountMean :: float64
  dc_CallLatencyMs :: latency_spec
  dc_TimeoutMs :: float64
  dc_FailureRate :: float64
  dc_Retryable :: "bool option"
  dc_DownstreamFractionCPU :: float64
  dc_PartitionKey :: string
  dc_PartitionKeyFrom :: string

record endpoint =
  ep_Path :: string
  ep_MeanCPUMs :: float64
  ep_CPUSigmaMs :: float64
  ep_DefaultMemoryMB :: float64
  ep_FailureRate :: float64
  ep_TimeoutMs :: float64
  ep_IOMs :: latency_spec
  ep_ConnectionPool :: int
  ep_Routing :: "routing_policy option"
  ep_Downstream :: "downstream_call list"
  ep_NetLatencyMs :: latency_spec

record service =
  sv_ID :: string
  sv_Kind :: string
  sv_Role :: string
  sv_Replicas :: int
  sv_Model :: string
  sv_CPUCores :: float64
  sv_MemoryMB :: float64
  sv_ExternalNetworkLatencyMs :: "latency_spec option"
  sv_Scaling :: "scaling_policy option"
  sv_Behavior :: "service_behavior option"
  sv_Placement :: "placement_policy option"
  sv_Routing :: "routing_policy option"
  sv_Endpoints :: "endpoint list"

record arrival_spec =
  ar_Type :: string
  ar_RateRPS :: float64
  ar_StdDevRPS :: float64
  ar_BurstRateRPS :: float64
  ar_BurstDurationSeconds :: float64
  ar_QuietDurationSeconds :: float64

record workload_pattern =
  wl_From :: string
  wl_SourceKind :: string
  wl_TrafficClass :: string
  wl_Metadata :: "(string, string) gomap"
  wl_To :: string
  wl_Arrival :: arrival_spec

record autoscaling_config =
  ac_Enabled :: bool
  ac_TargetCPUUtil :: float64
  ac_ScaleStep :: int

record retry_config =
  rc_Enabled :: bool
  rc_MaxRetries :: int
  rc_Backoff :: string
  rc_BaseMs :: int

record policies_config =
  pc_Autoscaling :: "autoscaling_config option"
  pc_Retries :: "retry_config option"

record scenario =
  sc_SchemaVersion :: "string option"
  sc_SimulationLimits :: "simulation_limits option"
  sc_Network :: "network_config option"
  sc_Hosts :: "host_spec list"
  sc_Services :: "service list"
  sc_Workload :: "workload_pattern list"
  sc_Policies :: "policies_config option"

end
