(* ===== verification/Policies.thy ===== *)
theory Policies
  imports Circuit_Breaker Scenario_Types
begin

text \<open>
  The retry and autoscaling policies of \<open>internal/policy/retry.go\<close> and \<open>autoscaling.go\<close> and the policy
  manager of \<open>types.go\<close>. Integer products of the retry policy wrap around as \<open>int\<close> does, since the
  source checks for overflow there. The properties bound and order the backoff, bound the replicas
  and show that scaling converges without thrashing.
\<close>

section \<open>Retries\<close>

record retry_policy =
  rp_enabled :: bool
  rp_maxRetries :: int
  rp_backoff :: string
  rp_baseMs :: int

definition maxBackoffMs :: int where
  "maxBackoffMs = 60000"

definition NewRetryPolicyFromConfig :: "retry_config \<Rightarrow> retry_policy" where
  "NewRetryPolicyFromConfig cfg = \<lparr>rp_enabled = rc_Enabled cfg, rp_maxRetries = rc_MaxRetries cfg,
     rp_backoff = rc_Backoff cfg, rp_baseMs = rc_BaseMs cfg\<rparr>"

definition NewRetryPolicy :: "bool \<Rightarrow> int \<Rightarrow> string \<Rightarrow> int \<Rightarrow> retry_policy" where
  "NewRetryPolicy enabled maxRetries backoff baseMs =
     \<lparr>rp_enabled = enabled, rp_maxRetries = maxRetries, rp_backoff = backoff, rp_baseMs = baseMs\<rparr>"

definition ShouldRetry :: "retry_policy \<Rightarrow> int \<Rightarrow> go_error option \<Rightarrow> bool" where
  "ShouldRetry p attempt err =
     (if \<not> rp_enabled p then False else if attempt \<ge> rp_maxRetries p then False else err \<noteq> None)"

text \<open>\<open>int(math.Pow(2, x))\<close> at an integer \<open>x\<close> between 0 and 20, where the power is exact.\<close>

definition exponential_ms :: "retry_policy \<Rightarrow> int \<Rightarrow> int" where
  "exponential_ms p attempt =
     (let exponent = of_int64 (attempt - 1)
      in if exponent > 20 then maxBackoffMs
         else let durationMs = wrap64 (rp_baseMs p * 2 ^ nat \<lfloor>exponent\<rfloor>)
              in if durationMs > maxBackoffMs \<or> durationMs < 0 then maxBackoffMs else durationMs)"

definition GetBackoffDuration :: "retry_policy \<Rightarrow> int \<Rightarrow> duration" where
  "GetBackoffDuration p attempt =
     (if \<not> rp_enabled p \<or> attempt \<le> 0 then 0
      else let durationMs =
             (if rp_backoff p = ''exponential'' then exponential_ms p attempt
              else if rp_backoff p = ''linear''
              then let d = wrap64 (rp_baseMs p * attempt)
                   in if d > maxBackoffMs \<or> d < 0 then maxBackoffMs else d
              else if rp_backoff p = ''constant'' then rp_baseMs p
              else exponential_ms p attempt)
           in wrap64 (durationMs * nanos_per_ms))"

definition GetMaxRetries :: "retry_policy \<Rightarrow> int" where
  "GetMaxRetries p = rp_maxRetries p"

section \<open>Autoscaling\<close>

record autoscaling_policy =
  ap_enabled :: bool
  ap_targetCPUUtil :: float64
  ap_scaleStep :: int
  ap_minReplicas :: int
  ap_maxReplicas :: int

definition scaleDownHysteresisFactor :: float64 where
  "scaleDownHysteresisFactor = fl (8 / 10)"

definition NewAutoscalingPolicyFromConfig :: "autoscaling_config \<Rightarrow> autoscaling_policy" where
  "NewAutoscalingPolicyFromConfig cfg =
     (let targetCPU = (if ac_TargetCPUUtil cfg \<le> 0 then fl (7 / 10) else ac_TargetCPUUtil cfg)
      in \<lparr>ap_enabled = ac_Enabled cfg, ap_targetCPUUtil = targetCPU, ap_scaleStep = ac_ScaleStep cfg,
          ap_minReplicas = 1, ap_maxReplicas = 100\<rparr>)"

definition NewAutoscalingPolicy :: "bool \<Rightarrow> float64 \<Rightarrow> int \<Rightarrow> int \<Rightarrow> int \<Rightarrow> autoscaling_policy" where
  "NewAutoscalingPolicy enabled targetCPUUtil scaleStep minReplicas maxReplicas =
     \<lparr>ap_enabled = enabled,
      ap_targetCPUUtil = (if targetCPUUtil \<le> 0 then fl (7 / 10) else targetCPUUtil),
      ap_scaleStep = scaleStep, ap_minReplicas = minReplicas, ap_maxReplicas = maxReplicas\<rparr>"

definition ShouldScaleUp :: "autoscaling_policy \<Rightarrow> int \<Rightarrow> float64 \<Rightarrow> bool" where
  "ShouldScaleUp p currentReplicas avgCPUUtil =
     (if \<not> ap_enabled p then False
      else if currentReplicas \<ge> ap_maxReplicas p then False
      else avgCPUUtil > ap_targetCPUUtil p)"

definition ShouldScaleDown :: "autoscaling_policy \<Rightarrow> int \<Rightarrow> float64 \<Rightarrow> bool" where
  "ShouldScaleDown p currentReplicas avgCPUUtil =
     (if \<not> ap_enabled p then False
      else if currentReplicas \<le> ap_minReplicas p then False
      else let scaleDownThreshold = fmul (ap_targetCPUUtil p) scaleDownHysteresisFactor
           in avgCPUUtil < scaleDownThreshold)"

definition GetTargetReplicas :: "autoscaling_policy \<Rightarrow> int \<Rightarrow> float64 \<Rightarrow> int" where
  "GetTargetReplicas p currentReplicas avgCPUUtil =
     (if \<not> ap_enabled p then currentReplicas
      else if \<not> ShouldScaleUp p currentReplicas avgCPUUtil \<and> \<not> ShouldScaleDown p currentReplicas avgCPUUtil
      then currentReplicas
      else let target = (if ShouldScaleUp p currentReplicas avgCPUUtil then currentReplicas + ap_scaleStep p
                         else currentReplicas - ap_scaleStep p);
               target1 = (if target < ap_minReplicas p then ap_minReplicas p else target)
           in if target1 > ap_maxReplicas p then ap_maxReplicas p else target1)"

section \<open>The policy manager\<close>

record policy_manager =
  pm_autoscaling :: "autoscaling_policy option"
  pm_rateLimiting :: "rate_limiting_policy option"
  pm_retry :: "retry_policy option"
  pm_circuitBreaker :: "circuit_breaker_policy option"

definition NewPolicyManager :: "policies_config option \<Rightarrow> policy_manager" where
  "NewPolicyManager policies =
     (let pm = \<lparr>pm_autoscaling = None, pm_rateLimiting = None, pm_retry = None, pm_circuitBreaker = None\<rparr>
      in case policies of
           None \<Rightarrow> pm
         | Some pc \<Rightarrow>
             let pm1 = (case pc_Autoscaling pc of
                          Some a \<Rightarrow> if ac_Enabled a then pm\<lparr>pm_autoscaling := Some (NewAutoscalingPolicyFromConfig a)\<rparr> else pm
                        | None \<Rightarrow> pm)
             in case pc_Retries pc of
                  Some r \<Rightarrow> if rc_Enabled r then pm1\<lparr>pm_retry := Some (NewRetryPolicyFromConfig r)\<rparr> else pm1
                | None \<Rightarrow> pm1)"

definition SetCircuitBreaker :: "circuit_breaker_policy option \<Rightarrow> policy_manager \<Rightarrow> policy_manager" where
  "SetCircuitBreaker cb pm = pm\<lparr>pm_circuitBreaker := cb\<rparr>"

definition UpdateAutoscaling :: "autoscaling_config option \<Rightarrow> policy_manager \<Rightarrow> policy_manager" where
  "UpdateAutoscaling cfg pm = (case cfg of
     None \<Rightarrow> pm\<lparr>pm_autoscaling := None\<rparr>
   | Some c \<Rightarrow> if \<not> ac_Enabled c then pm\<lparr>pm_autoscaling := None\<rparr>
               else pm\<lparr>pm_autoscaling := Some (NewAutoscalingPolicyFromConfig c)\<rparr>)"

section \<open>Backoff\<close>

lemma of_int64_le_20: "1 \<le> attempt \<Longrightarrow> of_int64 (attempt - 1) > 20 \<longleftrightarrow> attempt > 21"
proof -
  have e: "of_int64 20 = 20" "of_int64 21 = 21" by (simp_all add: of_int64_exact)
  show ?thesis if "1 \<le> attempt"
  proof
    assume "of_int64 (attempt - 1) > 20"
    then have "\<not> attempt - 1 \<le> 20" using of_int64_mono [of "attempt - 1" 20] e by auto
    then show "attempt > 21" by simp
  next
    assume "attempt > 21"
    then have "of_int64 21 \<le> of_int64 (attempt - 1)" by (intro of_int64_mono) simp
    then show "of_int64 (attempt - 1) > 20" using e by linarith
  qed
qed

text \<open>The reference backoff: without machine integers.\<close>

definition ideal_backoff_ms :: "retry_policy \<Rightarrow> int \<Rightarrow> int" where
  "ideal_backoff_ms p attempt =
     (if rp_backoff p = ''linear'' then min maxBackoffMs (rp_baseMs p * attempt)
      else if rp_backoff p = ''constant'' then rp_baseMs p
      else min maxBackoffMs (rp_baseMs p * 2 ^ nat (attempt - 1)))"

lemma exponential_ms_ideal:
  assumes "1 \<le> attempt" "1 \<le> rp_baseMs p" "rp_baseMs p < 2 ^ 42"
  shows "exponential_ms p attempt = min maxBackoffMs (rp_baseMs p * 2 ^ nat (attempt - 1))"
proof (cases "attempt > 21")
  case True
  then have "(2::int) ^ 16 \<le> 2 ^ nat (attempt - 1)" by (intro power_increasing) auto
  then have "1 * 2 ^ 16 \<le> rp_baseMs p * 2 ^ nat (attempt - 1)" using assms by (intro mult_mono) auto
  then show ?thesis using of_int64_le_20 [OF assms(1)] True by (simp add: exponential_ms_def maxBackoffMs_def Let_def)
next
  case False
  then have e: "of_int64 (attempt - 1) = of_int (attempt - 1)" using assms(1) by (intro of_int64_exact) simp
  have "rp_baseMs p * 2 ^ nat (attempt - 1) \<le> 2 ^ 42 * 2 ^ 20"
    using assms False by (intro mult_mono power_increasing) auto
  moreover have nn: "0 \<le> rp_baseMs p * 2 ^ nat (attempt - 1)" using assms by simp
  ultimately have w: "wrap64 (rp_baseMs p * 2 ^ nat (attempt - 1)) = rp_baseMs p * 2 ^ nat (attempt - 1)"
    by (intro wrap64_id) auto
  have "\<not> of_int64 (attempt - 1) > 20" using of_int64_le_20 [OF assms(1)] False by simp
  then show ?thesis using w nn by (auto simp: exponential_ms_def maxBackoffMs_def e Let_def min_def)
qed

lemma exponential_ms_bounds: "0 \<le> exponential_ms p attempt \<and> exponential_ms p attempt \<le> maxBackoffMs"
  by (auto simp: exponential_ms_def maxBackoffMs_def Let_def)

lemma wrap64_ms: "0 \<le> d \<Longrightarrow> d \<le> 2 ^ 42 \<Longrightarrow> wrap64 (d * nanos_per_ms) = d * nanos_per_ms"
  by (intro wrap64_id) auto

section \<open>Scaling\<close>

lemma scale_down_below_target:
  assumes "fl (ap_targetCPUUtil p) = ap_targetCPUUtil p" "0 \<le> ap_targetCPUUtil p"
  shows "fmul (ap_targetCPUUtil p) scaleDownHysteresisFactor \<le> ap_targetCPUUtil p"
proof -
  have "scaleDownHysteresisFactor \<le> 1"
    using fl_mono [of "8 / 10" 1] fl_int [of 1] by (simp add: scaleDownHysteresisFactor_def)
  then have "ap_targetCPUUtil p * scaleDownHysteresisFactor \<le> ap_targetCPUUtil p * 1"
    using assms(2) by (intro mult_left_mono) auto
  from fl_mono [OF this] show ?thesis using assms(1) by (simp add: fmul_def)
qed

text \<open>A policy as the constructors make it: a positive target that is a \<open>float64\<close> value, and bounds
  in order.\<close>

definition autoscaling_ok :: "autoscaling_policy \<Rightarrow> bool" where
  "autoscaling_ok p \<longleftrightarrow> ap_enabled p \<and> fl (ap_targetCPUUtil p) = ap_targetCPUUtil p \<and> 0 < ap_targetCPUUtil p \<and>
     0 < ap_scaleStep p \<and> ap_minReplicas p \<le> ap_maxReplicas p"

lemma scale_exclusive:
  assumes "autoscaling_ok p"
  shows "\<not> (ShouldScaleUp p r u \<and> ShouldScaleDown p r u)"
  using assms scale_down_below_target [of p]
  by (auto simp: autoscaling_ok_def ShouldScaleUp_def ShouldScaleDown_def Let_def)

lemma target_up:
  assumes "autoscaling_ok p" "ap_minReplicas p \<le> r" "r \<le> ap_maxReplicas p" "u > ap_targetCPUUtil p"
  shows "GetTargetReplicas p r u = min (ap_maxReplicas p) (r + ap_scaleStep p)"
  using assms scale_down_below_target [of p]
  by (auto simp: autoscaling_ok_def GetTargetReplicas_def ShouldScaleUp_def ShouldScaleDown_def Let_def)

lemma target_down:
  assumes "autoscaling_ok p" "ap_minReplicas p \<le> r" "r \<le> ap_maxReplicas p"
    and "u < fmul (ap_targetCPUUtil p) scaleDownHysteresisFactor"
  shows "GetTargetReplicas p r u = max (ap_minReplicas p) (r - ap_scaleStep p)"
  using assms scale_down_below_target [of p]
  by (auto simp: autoscaling_ok_def GetTargetReplicas_def ShouldScaleUp_def ShouldScaleDown_def Let_def)

lemma target_iterate_up:
  assumes "autoscaling_ok p" "ap_minReplicas p \<le> r" "r \<le> ap_maxReplicas p" "u > ap_targetCPUUtil p"
  shows "((\<lambda>r. GetTargetReplicas p r u) ^^ n) r = min (ap_maxReplicas p) (r + int n * ap_scaleStep p)"
proof (induction n)
  case (Suc n)
  let ?x = "min (ap_maxReplicas p) (r + int n * ap_scaleStep p)"
  have s: "0 < ap_scaleStep p" using assms(1) by (simp add: autoscaling_ok_def)
  then have "0 \<le> int n * ap_scaleStep p" by simp
  then have "ap_minReplicas p \<le> ?x" using assms(2,3) by simp
  then have "GetTargetReplicas p ?x u = min (ap_maxReplicas p) (?x + ap_scaleStep p)"
    using assms by (intro target_up) auto
  with Suc s show ?case by (auto simp: algebra_simps min_def)
qed (use assms in simp)

lemma target_iterate_down:
  assumes "autoscaling_ok p" "ap_minReplicas p \<le> r" "r \<le> ap_maxReplicas p"
    and "u < fmul (ap_targetCPUUtil p) scaleDownHysteresisFactor"
  shows "((\<lambda>r. GetTargetReplicas p r u) ^^ n) r = max (ap_minReplicas p) (r - int n * ap_scaleStep p)"
proof (induction n)
  case (Suc n)
  let ?x = "max (ap_minReplicas p) (r - int n * ap_scaleStep p)"
  have s: "0 < ap_scaleStep p" "ap_minReplicas p \<le> ap_maxReplicas p" using assms(1) by (simp_all add: autoscaling_ok_def)
  then have "0 \<le> int n * ap_scaleStep p" by simp
  then have "?x \<le> ap_maxReplicas p" using assms(3) s(2) by linarith
  then have "GetTargetReplicas p ?x u = max (ap_minReplicas p) (?x - ap_scaleStep p)"
    using assms by (intro target_down) auto
  with Suc s show ?case by (auto simp: algebra_simps max_def)
qed (use assms in simp)

section \<open>Properties\<close>

text \<open>Apart from the constant policy, a backoff is never negative and never longer than a minute,
  for every base and attempt, also where the product overflows \<open>int\<close>.\<close>

theorem retry_backoff_bounded:
  assumes "rp_backoff p \<noteq> ''constant''"
  shows "0 \<le> GetBackoffDuration p attempt \<and> GetBackoffDuration p attempt \<le> maxBackoffMs * nanos_per_ms"
proof -
  have w: "wrap64 (d * nanos_per_ms) = d * nanos_per_ms" if "0 \<le> d \<and> d \<le> maxBackoffMs" for d
    using that by (intro wrap64_ms) (auto simp: maxBackoffMs_def)
  have "0 \<le> d \<and> d \<le> maxBackoffMs"
    if "d = (let d = wrap64 (rp_baseMs p * attempt) in if d > maxBackoffMs \<or> d < 0 then maxBackoffMs else d)" for d
    using that by (auto simp: maxBackoffMs_def Let_def)
  then show ?thesis
    using assms exponential_ms_bounds [of p attempt] w
    by (auto simp: GetBackoffDuration_def maxBackoffMs_def Let_def)
qed

theorem retry_backoff_bounded_witness:
  "GetBackoffDuration (NewRetryPolicy True 3 ''linear'' 9223372036854775807) 5 \<le> 60000 * nanos_per_ms"
  using retry_backoff_bounded [of "NewRetryPolicy True 3 ''linear'' 9223372036854775807" 5]
  by (simp add: NewRetryPolicy_def maxBackoffMs_def)

text \<open>For a base of at least a millisecond and below \<open>2 ^ 42\<close> milliseconds and up to \<open>2 ^ 20\<close>
  attempts the machine arithmetic computes the mathematical backoff: base times attempt, or base
  times a power of two, capped at a minute, or the constant base. So later attempts never wait
  less.\<close>

theorem retry_backoff_ideal:
  assumes "rp_enabled p" "1 \<le> rp_baseMs p" "rp_baseMs p < 2 ^ 42" "1 \<le> a" "a \<le> b" "b \<le> 2 ^ 20"
  shows "GetBackoffDuration p a = ideal_backoff_ms p a * nanos_per_ms \<and>
     GetBackoffDuration p a \<le> GetBackoffDuration p b"
proof -
  have one: "GetBackoffDuration p n = ideal_backoff_ms p n * nanos_per_ms" if n: "1 \<le> n" "n \<le> 2 ^ 20" for n
  proof -
    have "rp_baseMs p * n \<le> 2 ^ 42 * 2 ^ 20" using assms n by (intro mult_mono) auto
    moreover have nn: "0 \<le> rp_baseMs p * n" using assms n by simp
    ultimately have w: "wrap64 (rp_baseMs p * n) = rp_baseMs p * n" by (intro wrap64_id) auto
    note e = exponential_ms_ideal [OF n(1) assms(2,3)]
    have i: "0 \<le> ideal_backoff_ms p n" "ideal_backoff_ms p n \<le> 2 ^ 42"
      using assms n by (auto simp: ideal_backoff_ms_def maxBackoffMs_def)
    have "GetBackoffDuration p n = wrap64 (ideal_backoff_ms p n * nanos_per_ms)"
      using assms(1) n(1) w nn e by (auto simp: GetBackoffDuration_def ideal_backoff_ms_def maxBackoffMs_def Let_def)
    then show ?thesis using wrap64_ms [OF i] by simp
  qed
  have "(2::int) ^ nat (a - 1) \<le> 2 ^ nat (b - 1)" using assms by (intro power_increasing) auto
  then have "rp_baseMs p * 2 ^ nat (a - 1) \<le> rp_baseMs p * 2 ^ nat (b - 1)" "rp_baseMs p * a \<le> rp_baseMs p * b"
    using assms by (auto intro: mult_left_mono)
  then have "ideal_backoff_ms p a \<le> ideal_backoff_ms p b" by (auto simp: ideal_backoff_ms_def)
  then show ?thesis using one assms by simp
qed

theorem retry_backoff_ideal_witness:
  "GetBackoffDuration (NewRetryPolicy True 5 ''exponential'' 100) 4 = 800 * nanos_per_ms"
  using retry_backoff_ideal [of "NewRetryPolicy True 5 ''exponential'' 100" 4 6]
  by (simp add: NewRetryPolicy_def ideal_backoff_ms_def maxBackoffMs_def)

text \<open>C23: autoscaling never thrashes and converges. Scaling up and down are never both asked for;
  between the scale-down threshold and the target nothing changes; under a load that stays above
  the target the replicas reach the maximum, and below the threshold the minimum, in as many steps
  as the distance divided by the scale step, and never leave the bounds.\<close>

theorem autoscaling_converges:
  assumes "autoscaling_ok p" "ap_minReplicas p \<le> r" "r \<le> ap_maxReplicas p"
  shows "\<not> (ShouldScaleUp p r u \<and> ShouldScaleDown p r u) \<and>
    (let next_replicas = (\<lambda>r. GetTargetReplicas p r u); low = fmul (ap_targetCPUUtil p) scaleDownHysteresisFactor in
     (low \<le> u \<and> u \<le> ap_targetCPUUtil p \<longrightarrow> next_replicas r = r) \<and>
     (ap_targetCPUUtil p < u \<longrightarrow>
        (next_replicas ^^ n) r = min (ap_maxReplicas p) (r + int n * ap_scaleStep p)) \<and>
     (u < low \<longrightarrow> (next_replicas ^^ n) r = max (ap_minReplicas p) (r - int n * ap_scaleStep p)))"
  using scale_exclusive [OF assms(1)] target_iterate_up [OF assms] target_iterate_down [OF assms]
  by (auto simp: Let_def GetTargetReplicas_def ShouldScaleUp_def ShouldScaleDown_def)

definition demo_autoscaling :: autoscaling_policy where
  "demo_autoscaling = NewAutoscalingPolicy True (1 / 2) 3 1 10"

lemma demo_autoscaling_ok: "autoscaling_ok demo_autoscaling"
proof -
  have "fl (1 / 2) = 1 / 2" by code_simp
  then show ?thesis by (simp add: autoscaling_ok_def demo_autoscaling_def NewAutoscalingPolicy_def)
qed

theorem autoscaling_converges_witness:
  "((\<lambda>r. GetTargetReplicas demo_autoscaling r 1) ^^ 4) 2 = 10"
  using autoscaling_converges [OF demo_autoscaling_ok, of 2 1 4]
  by (simp add: demo_autoscaling_def NewAutoscalingPolicy_def Let_def)

section \<open>The limits of the overflow check\<close>

text \<open>The test after the multiplication sees a negative product and one above the maximum, but not a
  product that wraps to a small non-negative value; and the constant strategy is not capped.\<close>

lemma backoff_overflow_missed:
  "GetBackoffDuration (NewRetryPolicy True 30 ''exponential'' (2 ^ 44)) 21 = 0"
  by code_simp

lemma constant_backoff_uncapped:
  "GetBackoffDuration (NewRetryPolicy True 3 ''constant'' 90000) 1 = 90000 * nanos_per_ms"
  by code_simp

end
