(* ===== verification/Sim_Proto.thy ===== *)
theory Sim_Proto
  imports Go_Float
begin

text \<open>
  The messages of the service's protocol that the run store, the executor and the optimizer exchange, as
  \<open>gen/go/simulation/v1/simulation.pb.go\<close> declares them: an optional or message field is an option, a
  repeated field a list. Enumerations of the protocol are open: a scaling action may have a number that has no name.
  The statistics per endpoint and per instance of \<open>RunMetrics\<close>, which none of the modelled code reads, are left out, and
  the configuration snapshot of an optimization step is the parameter of its record.
\<close>

datatype proto_run_status =
    RUN_STATUS_UNSPECIFIED
  | RUN_STATUS_PENDING
  | RUN_STATUS_RUNNING
  | RUN_STATUS_COMPLETED
  | RUN_STATUS_FAILED
  | RUN_STATUS_CANCELLED
  | RUN_STATUS_STOPPED

datatype batch_search_strategy =
    BATCH_SEARCH_STRATEGY_UNSPECIFIED
  | BATCH_SEARCH_STRATEGY_BEAM

datatype batch_scaling_action =
    BATCH_SCALING_ACTION_UNSPECIFIED
  | SERVICE_SCALE_OUT
  | SERVICE_SCALE_IN
  | SERVICE_SCALE_UP_CPU
  | SERVICE_SCALE_DOWN_CPU
  | SERVICE_SCALE_UP_MEMORY
  | SERVICE_SCALE_DOWN_MEMORY
  | HOST_SCALE_OUT
  | HOST_SCALE_IN
  | HOST_SCALE_UP_CPU
  | HOST_SCALE_DOWN_CPU
  | HOST_SCALE_UP_MEMORY
  | HOST_SCALE_DOWN_MEMORY
  | QUEUE_SCALE_UP_CONCURRENCY
  | QUEUE_SCALE_DOWN_CONCURRENCY
  | TOPIC_SUBSCRIBER_SCALE_UP_CONCURRENCY
  | TOPIC_SUBSCRIBER_SCALE_DOWN_CONCURRENCY
  | UNRECOGNIZED_ACTION int

record host_metrics_pb =
  xh_HostId :: string
  xh_CpuUtilization :: float64
  xh_MemoryUtilization :: float64

record service_metrics_pb =
  xs_ServiceName :: string
  xs_RequestCount :: int
  xs_ErrorCount :: int
  xs_LatencyP50Ms :: float64
  xs_LatencyP95Ms :: float64
  xs_LatencyP99Ms :: float64
  xs_LatencyMeanMs :: float64
  xs_CpuUtilization :: float64
  xs_MemoryUtilization :: float64
  xs_ActiveReplicas :: int
  xs_ConcurrentRequests :: int
  xs_QueueLength :: int
  xs_QueueWaitP50Ms :: float64
  xs_QueueWaitP95Ms :: float64
  xs_QueueWaitP99Ms :: float64
  xs_QueueWaitMeanMs :: float64
  xs_ProcessingLatencyP50Ms :: float64
  xs_ProcessingLatencyP95Ms :: float64
  xs_ProcessingLatencyP99Ms :: float64
  xs_ProcessingLatencyMeanMs :: float64

record run_metrics_pb =
  xm_TotalRequests :: int
  xm_SuccessfulRequests :: int
  xm_FailedRequests :: int
  xm_LatencyP50Ms :: float64
  xm_LatencyP95Ms :: float64
  xm_LatencyP99Ms :: float64
  xm_LatencyMeanMs :: float64
  xm_ThroughputRps :: float64
  xm_IngressRequests :: int
  xm_InternalRequests :: int
  xm_IngressThroughputRps :: float64
  xm_IngressFailedRequests :: int
  xm_IngressErrorRate :: float64
  xm_AttemptFailedRequests :: int
  xm_AttemptErrorRate :: float64
  xm_RetryAttempts :: int
  xm_TimeoutErrors :: int
  xm_QueueEnqueueCountTotal :: int
  xm_QueueDequeueCountTotal :: int
  xm_QueueDropCountTotal :: int
  xm_QueueRedeliveryCountTotal :: int
  xm_QueueDlqCountTotal :: int
  xm_QueueDepthSum :: float64
  xm_TopicPublishCountTotal :: int
  xm_TopicDeliverCountTotal :: int
  xm_TopicDropCountTotal :: int
  xm_TopicRedeliveryCountTotal :: int
  xm_TopicDlqCountTotal :: int
  xm_TopicBacklogDepthSum :: float64
  xm_TopicConsumerLagSum :: float64
  xm_QueueOldestMessageAgeMs :: float64
  xm_TopicOldestMessageAgeMs :: float64
  xm_MaxQueueDepth :: float64
  xm_MaxTopicBacklogDepth :: float64
  xm_MaxTopicConsumerLag :: float64
  xm_QueueDropRate :: float64
  xm_TopicDropRate :: float64
  xm_ServiceMetrics :: "service_metrics_pb list"
  xm_HostMetrics :: "host_metrics_pb list"
  xm_LocalityHitRate :: float64
  xm_CrossZoneRequestCountTotal :: int
  xm_SameZoneRequestCountTotal :: int
  xm_CrossZoneRequestFraction :: float64
  xm_CrossZoneLatencyPenaltyMsTotal :: float64
  xm_CrossZoneLatencyPenaltyMsMean :: float64
  xm_SameZoneLatencyPenaltyMsTotal :: float64
  xm_SameZoneLatencyPenaltyMsMean :: float64
  xm_ExternalLatencyMsTotal :: float64
  xm_ExternalLatencyMsMean :: float64
  xm_TopologyLatencyPenaltyMsTotal :: float64
  xm_TopologyLatencyPenaltyMsMean :: float64

record utilization_band =
  ub_Low :: float64
  ub_High :: float64

record batch_step_sizes =
  bss_ReplicaStep :: int
  bss_ServiceCpuRatio :: float64
  bss_ServiceMemoryRatio :: float64
  bss_HostCountStep :: int
  bss_HostCpuStepCores :: int
  bss_HostMemoryStepGb :: int

record batch_cost_weights =
  bcw_ServiceCpu :: float64
  bcw_ServiceMemoryGb :: float64
  bcw_Replicas :: float64
  bcw_Hosts :: float64
  bcw_HostCpu :: float64
  bcw_HostMemoryGb :: float64
  bcw_Churn :: float64

record batch_penalty_weights =
  bpw_P95 :: float64
  bpw_P99 :: float64
  bpw_ErrorRate :: float64
  bpw_Throughput :: float64
  bpw_ServiceCpuBalance :: float64
  bpw_ServiceMemoryBalance :: float64
  bpw_HostCpuBalance :: float64
  bpw_HostMemoryBalance :: float64
  bpw_QueueDepth :: float64
  bpw_TopicBacklog :: float64
  bpw_TopicLag :: float64
  bpw_QueueOldestAge :: float64
  bpw_TopicOldestAge :: float64
  bpw_QueueDrop :: float64
  bpw_TopicDrop :: float64
  bpw_QueueDlq :: float64
  bpw_TopicDlq :: float64
  bpw_Locality :: float64
  bpw_CrossZone :: float64
  bpw_TopologyLatency :: float64

record batch_optimization_config =
  bo_SearchStrategy :: batch_search_strategy
  bo_AllowedActions :: "batch_scaling_action list"
  bo_FreezeWorkload :: "bool option"
  bo_FreezePolicies :: "bool option"
  bo_MaxP95LatencyMs :: float64
  bo_MaxP99LatencyMs :: float64
  bo_MaxErrorRate :: float64
  bo_MinThroughputRps :: float64
  bo_ServiceCpuUtilizationBand :: "utilization_band option"
  bo_ServiceMemoryUtilizationBand :: "utilization_band option"
  bo_HostCpuUtilizationBand :: "utilization_band option"
  bo_HostMemoryUtilizationBand :: "utilization_band option"
  bo_MinHosts :: int
  bo_MaxHosts :: int
  bo_MinReplicasPerService :: int
  bo_MaxReplicasPerService :: int
  bo_MinCpuCoresPerInstance :: float64
  bo_MaxCpuCoresPerInstance :: float64
  bo_MinMemoryMbPerInstance :: float64
  bo_MaxMemoryMbPerInstance :: float64
  bo_MinHostCpuCores :: int
  bo_MaxHostCpuCores :: int
  bo_MinHostMemoryGb :: int
  bo_MaxHostMemoryGb :: int
  bo_StepSizes :: "batch_step_sizes option"
  bo_BeamWidth :: int
  bo_MaxSearchDepth :: int
  bo_MaxNeighborsPerState :: int
  bo_ReevaluationsPerCandidate :: int
  bo_InfeasibleBeamWidth :: int
  bo_CostWeights :: "batch_cost_weights option"
  bo_PenaltyWeights :: "batch_penalty_weights option"
  bo_EnableLocalRefinement :: "bool option"
  bo_DeterministicCandidateSeeds :: "bool option"
  bo_MaxQueueDepthSum :: float64
  bo_MaxTopicBacklogDepthSum :: float64
  bo_MaxTopicConsumerLagSum :: float64
  bo_MaxQueueOldestMessageAgeMs :: float64
  bo_MaxTopicOldestMessageAgeMs :: float64
  bo_MaxQueueDropCount :: float64
  bo_MaxTopicDropCount :: float64
  bo_MaxQueueDlqCount :: float64
  bo_MaxTopicDlqCount :: float64
  bo_MinLocalityHitRate :: float64
  bo_MaxCrossZoneRequestFraction :: float64
  bo_MaxTopologyLatencyPenaltyMeanMs :: float64

record optimization_config =
  oc_Objective :: string
  oc_MaxIterations :: int
  oc_StepSize :: float64
  oc_EvaluationDurationMs :: int
  oc_Online :: bool
  oc_TargetP95LatencyMs :: float64
  oc_ControlIntervalMs :: int
  oc_MinHosts :: int
  oc_MaxHosts :: int
  oc_ScaleDownCpuUtilMax :: float64
  oc_ScaleDownMemUtilMax :: float64
  oc_OptimizationTargetPrimary :: string
  oc_TargetUtilHigh :: float64
  oc_TargetUtilLow :: float64
  oc_ScaleDownHostCpuUtilMax :: float64
  oc_MaxEvaluations :: int
  oc_MinReplicasPerService :: int
  oc_MinCpuCoresPerInstance :: float64
  oc_MinMemoryMbPerInstance :: float64
  oc_ScaleDownStabilizationWindowMs :: int
  oc_ScaleDownCooldownMs :: int
  oc_DrainTimeoutMs :: int
  oc_MemoryDownsizeHeadroomMb :: float64
  oc_ScaleDownHostMemUtilMax :: float64
  oc_MaxControllerSteps :: int
  oc_MaxOnlineDurationMs :: int
  oc_AllowUnboundedOnline :: bool
  oc_MaxNoopIntervals :: int
  oc_LeaseTtlMs :: int
  oc_Batch :: "batch_optimization_config option"
  oc_MinLocalityHitRate :: float64
  oc_MaxCrossZoneRequestFraction :: float64
  oc_MaxTopologyLatencyPenaltyMeanMs :: float64

record run_input =
  ri_ScenarioYaml :: string
  ri_ConfigYaml :: string
  ri_DurationMs :: int
  ri_Seed :: int
  ri_RealTimeMode :: bool
  ri_Optimization :: "optimization_config option"
  ri_CallbackUrl :: string
  ri_CallbackSecret :: string

record proto_run =
  xr_Id :: string
  xr_Status :: proto_run_status
  xr_CreatedAtUnixMs :: int
  xr_StartedAtUnixMs :: int
  xr_EndedAtUnixMs :: int
  xr_Error :: string
  xr_BestRunId :: string
  xr_BestScore :: float64
  xr_Iterations :: int
  xr_CandidateRunIds :: "string list"
  xr_OnlineCompletionReason :: string
  xr_BatchRecommendationFeasible :: bool
  xr_BatchViolationScore :: float64
  xr_BatchEfficiencyScore :: float64
  xr_BatchRecommendationSummary :: string

record 'f optimization_step_pb =
  os_IterationIndex :: int
  os_TargetP95Ms :: float64
  os_ScoreP95Ms :: float64
  os_Reason :: string
  os_PreviousConfig :: "'f option"
  os_CurrentConfig :: "'f option"

end
