(* ===== verification/Scenario_Config.thy ===== *)
theory Scenario_Config
  imports Scenario_Types Sim_Proto
begin

text \<open>
  Defaults and validation of a scenario: \<open>pkg/config/queue_behavior.go\<close>,
  \<open>topic_behavior.go\<close>, \<open>downstream.go\<close>, \<open>arrival.go\<close>, \<open>scaling_policy.go\<close> and the scenario part of
  \<open>loader.go\<close>. The maps the validator builds as sets of identifiers are lists here; a wrapped error
  is identified by the outermost format string.
\<close>

section \<open>Behaviour defaults\<close>

definition DefaultQueueBehavior :: queue_behavior where
  "DefaultQueueBehavior =
     \<lparr>qb_Capacity = 10000, qb_ConsumerConcurrency = 1, qb_MinConsumerConcurrency = 0,
      qb_MaxConsumerConcurrency = 0, qb_ConsumerTarget = [],
      qb_DeliveryLatencyMs = \<lparr>la_Mean = 1, la_Sigma = 0\<rparr>, qb_AckTimeoutMs = 30000,
      qb_MaxRedeliveries = 3, qb_DLQTarget = [], qb_DropPolicy = ''block'', qb_AsyncFireAndForget = False\<rparr>"

definition EffectiveQueueBehavior :: "queue_behavior option \<Rightarrow> queue_behavior" where
  "EffectiveQueueBehavior oq =
     (let d = DefaultQueueBehavior in case oq of None \<Rightarrow> d | Some q \<Rightarrow>
      d\<lparr>qb_Capacity := (if qb_Capacity q = -1 then 0 else if qb_Capacity q > 0 then qb_Capacity q else qb_Capacity d),
        qb_ConsumerConcurrency :=
          (if qb_ConsumerConcurrency q > 0 then qb_ConsumerConcurrency q else qb_ConsumerConcurrency d),
        qb_MinConsumerConcurrency :=
          (if qb_MinConsumerConcurrency q > 0 then qb_MinConsumerConcurrency q else qb_MinConsumerConcurrency d),
        qb_MaxConsumerConcurrency :=
          (if qb_MaxConsumerConcurrency q > 0 then qb_MaxConsumerConcurrency q else qb_MaxConsumerConcurrency d),
        qb_ConsumerTarget :=
          (if trim_space (qb_ConsumerTarget q) \<noteq> [] then trim_space (qb_ConsumerTarget q) else qb_ConsumerTarget d),
        qb_DeliveryLatencyMs :=
          (if la_Mean (qb_DeliveryLatencyMs q) > 0 \<or> la_Sigma (qb_DeliveryLatencyMs q) > 0
           then qb_DeliveryLatencyMs q else qb_DeliveryLatencyMs d),
        qb_AckTimeoutMs := (if qb_AckTimeoutMs q > 0 then qb_AckTimeoutMs q else qb_AckTimeoutMs d),
        qb_MaxRedeliveries := (if qb_MaxRedeliveries q \<ge> 0 then qb_MaxRedeliveries q else qb_MaxRedeliveries d),
        qb_DLQTarget := (if trim_space (qb_DLQTarget q) \<noteq> [] then trim_space (qb_DLQTarget q) else qb_DLQTarget d),
        qb_DropPolicy := (if trim_space (qb_DropPolicy q) \<noteq> [] then trim_space (qb_DropPolicy q) else qb_DropPolicy d),
        qb_AsyncFireAndForget := (if qb_AsyncFireAndForget q then True else qb_AsyncFireAndForget d)\<rparr>)"

definition DefaultTopicBehavior :: topic_behavior where
  "DefaultTopicBehavior =
     \<lparr>tb_Partitions = 1, tb_RetentionMs = 600000, tb_Capacity = 10000,
      tb_DeliveryLatencyMs = \<lparr>la_Mean = 1, la_Sigma = 0\<rparr>, tb_PublishAck = ''leader_ack'',
      tb_AsyncFireAndForget = False, tb_Subscribers = []\<rparr>"

definition EffectiveTopicBehavior :: "topic_behavior option \<Rightarrow> topic_behavior" where
  "EffectiveTopicBehavior ot =
     (let d = DefaultTopicBehavior in case ot of None \<Rightarrow> d | Some t \<Rightarrow>
      d\<lparr>tb_Partitions := (if tb_Partitions t > 0 then tb_Partitions t else tb_Partitions d),
        tb_RetentionMs := (if tb_RetentionMs t > 0 then tb_RetentionMs t else tb_RetentionMs d),
        tb_Capacity := (if tb_Capacity t = -1 then 0 else if tb_Capacity t > 0 then tb_Capacity t else tb_Capacity d),
        tb_DeliveryLatencyMs :=
          (if la_Mean (tb_DeliveryLatencyMs t) > 0 \<or> la_Sigma (tb_DeliveryLatencyMs t) > 0
           then tb_DeliveryLatencyMs t else tb_DeliveryLatencyMs d),
        tb_PublishAck := (if trim_space (tb_PublishAck t) \<noteq> [] then trim_space (tb_PublishAck t) else tb_PublishAck d),
        tb_AsyncFireAndForget := (if tb_AsyncFireAndForget t then True else tb_AsyncFireAndForget d),
        tb_Subscribers := (if tb_Subscribers t \<noteq> [] then tb_Subscribers t else tb_Subscribers d)\<rparr>)"

definition dc_IsAsync :: "downstream_call \<Rightarrow> bool" where
  "dc_IsAsync d = (let m = to_lower (trim_space (dc_Mode d)) in m = ''async'' \<or> m = ''event'')"

definition dc_IsRetryable :: "downstream_call \<Rightarrow> bool" where
  "dc_IsRetryable d = (case dc_Retryable d of None \<Rightarrow> True | Some b \<Rightarrow> b)"

definition NormalizeArrivalType :: "string \<Rightarrow> go_error + string" where
  "NormalizeArrivalType t0 =
     (let t1 = trim_space (to_lower t0)
      in if t1 = [] then Inl (Err ''arrival type cannot be empty'')
         else let t = (if t1 = ''burst'' then ''bursty'' else t1)
              in if t \<in> set [''poisson'', ''exponential'', ''uniform'', ''normal'', ''gaussian'', ''bursty'', ''constant'']
                 then Inr t else Inl (Err ''invalid arrival type %q''))"

section \<open>Scaling permissions\<close>

definition ServiceAllowsBatchScalingAction :: "service option \<Rightarrow> batch_scaling_action \<Rightarrow> bool" where
  "ServiceAllowsBatchScalingAction osvc act = (case osvc of
     None \<Rightarrow> False
   | Some svc \<Rightarrow> (case sv_Scaling svc of
       None \<Rightarrow> \<not> equal_fold (trim_space (sv_Kind svc)) ''database''
     | Some p \<Rightarrow> (case act of
         SERVICE_SCALE_OUT \<Rightarrow> sp_Horizontal p
       | SERVICE_SCALE_IN \<Rightarrow> sp_Horizontal p
       | SERVICE_SCALE_UP_CPU \<Rightarrow> sp_VerticalCPU p
       | SERVICE_SCALE_DOWN_CPU \<Rightarrow> sp_VerticalCPU p
       | SERVICE_SCALE_UP_MEMORY \<Rightarrow> sp_VerticalMemory p
       | SERVICE_SCALE_DOWN_MEMORY \<Rightarrow> sp_VerticalMemory p
       | _ \<Rightarrow> True)))"

definition ServiceAllowsHorizontalScaling :: "service option \<Rightarrow> bool" where
  "ServiceAllowsHorizontalScaling svc = ServiceAllowsBatchScalingAction svc SERVICE_SCALE_OUT"

definition ServiceAllowsVerticalCPU :: "service option \<Rightarrow> bool" where
  "ServiceAllowsVerticalCPU svc = ServiceAllowsBatchScalingAction svc SERVICE_SCALE_UP_CPU"

definition ServiceAllowsVerticalMemory :: "service option \<Rightarrow> bool" where
  "ServiceAllowsVerticalMemory svc = ServiceAllowsBatchScalingAction svc SERVICE_SCALE_UP_MEMORY"

section \<open>Validation\<close>

definition parseDownstreamTargetForValidation :: "string \<Rightarrow> go_error + string \<times> string" where
  "parseDownstreamTargetForValidation target0 =
     (let target = trim_space target0
      in if target = [] then Inl (Err ''target cannot be empty'')
         else if CHR '':'' \<in> set target
         then let (a, b) = split_first (CHR '':'') target; serviceID = trim_space a; path = trim_space b
              in if serviceID = [] \<or> path = [] then Inl (Err ''service and path must be non-empty'')
                 else Inr (serviceID, path)
         else Inr (target, ''/''))"

text \<open>The check shared by every reference to an endpoint: the target parses, its service exists
  and the pair is an endpoint.\<close>

definition check_target :: "string list \<Rightarrow> string list \<Rightarrow> string \<Rightarrow> string \<Rightarrow> string \<Rightarrow> string \<Rightarrow> go_error + string" where
  "check_target serviceIDs endpointRef target badTarget noService noEndpoint =
     (case parseDownstreamTargetForValidation target of
        Inl _ \<Rightarrow> Inl (Err badTarget)
      | Inr (cs, cp) \<Rightarrow>
          if cs \<notin> set serviceIDs then Inl (Err noService)
          else if cs @ '':'' @ cp \<notin> set endpointRef then Inl (Err noEndpoint)
          else Inr cs)"

definition valid_drop_policies :: "string list" where
  "valid_drop_policies = [''block'', ''reject'', ''drop_oldest'', ''drop_newest'']"

definition ValidateQueueBehavior :: "queue_behavior option \<Rightarrow> string list \<Rightarrow> string list \<Rightarrow> go_error + unit" where
  "ValidateQueueBehavior oq endpointRef serviceIDs = (case oq of
     None \<Rightarrow> Inl (Err ''behavior.queue is required for kind queue'')
   | Some q \<Rightarrow>
     err_bind (err_checks
       [(qb_Capacity q < -1, ''behavior.queue.capacity must be >= -1''),
        (qb_ConsumerConcurrency q < 0, ''behavior.queue.consumer_concurrency cannot be negative''),
        (qb_MinConsumerConcurrency q < 0, ''behavior.queue.min_consumer_concurrency cannot be negative''),
        (qb_MaxConsumerConcurrency q < 0, ''behavior.queue.max_consumer_concurrency cannot be negative''),
        (la_Mean (qb_DeliveryLatencyMs q) < 0 \<or> la_Sigma (qb_DeliveryLatencyMs q) < 0,
           ''behavior.queue.delivery_latency_ms mean/sigma cannot be negative''),
        (qb_AckTimeoutMs q < 0, ''behavior.queue.ack_timeout_ms cannot be negative''),
        (qb_MaxRedeliveries q < 0, ''behavior.queue.max_redeliveries cannot be negative'')]) (\<lambda>_.
     let eff = EffectiveQueueBehavior (Some q) in
     err_bind (err_checks [(trim_space (qb_ConsumerTarget eff) = [], ''behavior.queue.consumer_target is required'')]) (\<lambda>_.
     err_bind (check_target serviceIDs endpointRef (trim_space (qb_ConsumerTarget eff))
       ''behavior.queue.consumer_target: '' ''queue consumer_target service does not exist''
       ''queue consumer_target endpoint does not exist'') (\<lambda>_.
     err_bind (err_checks
       [(qb_ConsumerConcurrency eff < 0, ''behavior.queue.consumer_concurrency cannot be negative''),
        (qb_MinConsumerConcurrency eff < 0, ''behavior.queue.min_consumer_concurrency cannot be negative''),
        (qb_MaxConsumerConcurrency eff < 0, ''behavior.queue.max_consumer_concurrency cannot be negative''),
        (qb_MinConsumerConcurrency eff > 0 \<and> qb_MinConsumerConcurrency eff < 1, ''behavior.queue.min_consumer_concurrency must be >= 1 when set''),
        (qb_MaxConsumerConcurrency eff > 0 \<and> qb_MaxConsumerConcurrency eff < 1, ''behavior.queue.max_consumer_concurrency must be >= 1 when set''),
        (qb_MinConsumerConcurrency eff > 0 \<and> qb_MaxConsumerConcurrency eff > 0 \<and> qb_MinConsumerConcurrency eff > qb_MaxConsumerConcurrency eff,
           ''behavior.queue min_consumer_concurrency cannot exceed max_consumer_concurrency''),
        (qb_ConsumerConcurrency eff > 0 \<and> qb_MinConsumerConcurrency eff > 0 \<and> qb_ConsumerConcurrency eff < qb_MinConsumerConcurrency eff,
           ''behavior.queue.consumer_concurrency cannot be below min_consumer_concurrency''),
        (qb_ConsumerConcurrency eff > 0 \<and> qb_MaxConsumerConcurrency eff > 0 \<and> qb_ConsumerConcurrency eff > qb_MaxConsumerConcurrency eff,
           ''behavior.queue.consumer_concurrency cannot exceed max_consumer_concurrency''),
        (to_lower (trim_space (qb_DropPolicy eff)) \<notin> set valid_drop_policies, ''behavior.queue.drop_policy must be block, reject, drop_oldest, or drop_newest'')]) (\<lambda>_.
     if trim_space (qb_DLQTarget eff) \<noteq> []
     then err_bind (check_target serviceIDs endpointRef (trim_space (qb_DLQTarget eff))
       ''behavior.queue.dlq: '' ''queue dlq service does not exist'' ''queue dlq endpoint does not exist'') (\<lambda>_. Inr ())
     else Inr ())))))"

definition subscriber_checks :: "topic_subscriber \<Rightarrow> topic_subscriber \<Rightarrow> (bool \<times> string) list" where
  "subscriber_checks sub rawSub =
     [(ts_ConsumerConcurrency rawSub < 0, ''consumer_concurrency cannot be negative''),
      (ts_MinConsumerConcurrency rawSub < 0, ''min_consumer_concurrency cannot be negative''),
      (ts_MaxConsumerConcurrency rawSub < 0, ''max_consumer_concurrency cannot be negative''),
      (ts_AckTimeoutMs rawSub < 0, ''ack_timeout_ms cannot be negative''),
      (ts_MaxRedeliveries rawSub < 0, ''max_redeliveries cannot be negative''),
      (ts_MinConsumerConcurrency sub > 0 \<and> ts_MinConsumerConcurrency sub < 1, ''min_consumer_concurrency must be >= 1 when set''),
      (ts_MaxConsumerConcurrency sub > 0 \<and> ts_MaxConsumerConcurrency sub < 1, ''max_consumer_concurrency must be >= 1 when set''),
      (ts_MinConsumerConcurrency sub > 0 \<and> ts_MaxConsumerConcurrency sub > 0 \<and>
         ts_MinConsumerConcurrency sub > ts_MaxConsumerConcurrency sub, ''min_consumer_concurrency cannot exceed max_consumer_concurrency''),
      (ts_ConsumerConcurrency sub > 0 \<and> ts_MinConsumerConcurrency sub > 0 \<and>
         ts_ConsumerConcurrency sub < ts_MinConsumerConcurrency sub, ''consumer_concurrency cannot be below min_consumer_concurrency''),
      (ts_ConsumerConcurrency sub > 0 \<and> ts_MaxConsumerConcurrency sub > 0 \<and>
         ts_ConsumerConcurrency sub > ts_MaxConsumerConcurrency sub, ''consumer_concurrency cannot exceed max_consumer_concurrency''),
      (let dp0 = to_lower (trim_space (ts_DropPolicy sub)); dp = (if dp0 = [] then ''block'' else dp0)
       in dp \<notin> set valid_drop_policies, ''drop_policy must be block, reject, drop_oldest, or drop_newest'')]"

text \<open>The loop over the subscribers, with the groups and names seen so far. It reads each
  subscriber of the merged behaviour and of the raw one, which have the same index.\<close>

fun validate_subscribers ::
  "string list \<Rightarrow> string list \<Rightarrow> string list \<Rightarrow> string list \<Rightarrow> (topic_subscriber \<times> topic_subscriber) list \<Rightarrow> go_error + unit" where
  "validate_subscribers endpointRef serviceIDs groups names [] = Inr ()"
| "validate_subscribers endpointRef serviceIDs groups names ((sub, rawSub) # rest) =
     err_bind (err_checks [(trim_space (ts_ConsumerTarget sub) = [], ''consumer_target is required'')]) (\<lambda>_.
     err_bind (check_target serviceIDs endpointRef (trim_space (ts_ConsumerTarget sub))
       ''behavior.topic.subscribers.consumer_target: '' ''topic subscriber consumer_target service does not exist''
       ''topic subscriber consumer_target endpoint does not exist'') (\<lambda>_.
     let g = trim_space (ts_ConsumerGroup sub); nm = trim_space (ts_Name sub) in
     err_bind (err_checks
       [(g = [], ''consumer_group is required''),
        (g \<in> set groups, ''duplicate behavior.topic subscriber consumer_group''),
        (nm \<noteq> [] \<and> nm \<in> set names, ''duplicate behavior.topic subscriber name'')]) (\<lambda>_.
     err_bind (err_checks (subscriber_checks sub rawSub)) (\<lambda>_.
     err_bind (if trim_space (ts_DLQ sub) \<noteq> []
               then err_bind (check_target serviceIDs endpointRef (trim_space (ts_DLQ sub))
                 ''behavior.topic.subscribers.dlq: '' ''topic subscriber dlq service does not exist''
                 ''topic subscriber dlq endpoint does not exist'') (\<lambda>_. Inr ())
               else Inr ()) (\<lambda>_.
     validate_subscribers endpointRef serviceIDs (g # groups) (if nm \<noteq> [] then nm # names else names) rest)))))"

definition ValidateTopicBehavior :: "topic_behavior option \<Rightarrow> string list \<Rightarrow> string list \<Rightarrow> go_error + unit" where
  "ValidateTopicBehavior ot endpointRef serviceIDs = (case ot of
     None \<Rightarrow> Inl (Err ''behavior.topic is required for kind topic'')
   | Some t \<Rightarrow>
     err_bind (err_checks
       [(tb_Partitions t < 0, ''behavior.topic.partitions cannot be negative''),
        (tb_RetentionMs t < 0, ''behavior.topic.retention_ms cannot be negative''),
        (tb_Capacity t < -1, ''behavior.topic.capacity must be >= -1''),
        (la_Mean (tb_DeliveryLatencyMs t) < 0 \<or> la_Sigma (tb_DeliveryLatencyMs t) < 0,
           ''behavior.topic.delivery_latency_ms mean/sigma cannot be negative'')]) (\<lambda>_.
     let eff = EffectiveTopicBehavior (Some t) in
     err_bind (err_checks
       [(tb_Subscribers eff = [], ''behavior.topic.subscribers must be non-empty''),
        (tb_Partitions eff < 1, ''behavior.topic.partitions must be >= 1'')]) (\<lambda>_.
     validate_subscribers endpointRef serviceIDs [] [] (zip (tb_Subscribers eff) (tb_Subscribers t)))))"

fun validate_hosts :: "string list \<Rightarrow> host_spec list \<Rightarrow> go_error + unit" where
  "validate_hosts hostIDs [] = Inr ()"
| "validate_hosts hostIDs (host # rest) =
     err_bind (err_checks
       [(ho_ID host = [], ''host id cannot be empty''),
        (ho_ID host \<in> set hostIDs, ''duplicate host id''),
        (ho_Cores host \<le> 0, ''host %s: cores must be positive''),
        (ho_MemoryGB host < 0, ''host %s: memory_gb cannot be negative'')]) (\<lambda>_.
     validate_hosts (ho_ID host # hostIDs) rest)"

definition norm_kind :: "service \<Rightarrow> string" where
  "norm_kind svc = to_lower (trim_space (sv_Kind svc))"

definition valid_kinds :: "string list" where
  "valid_kinds = [[], ''api_gateway'', ''service'', ''database'', ''cache'', ''external'', ''queue'', ''topic'']"

definition behavior_checks :: "service_behavior \<Rightarrow> (bool \<times> string) list" where
  "behavior_checks b =
     [(sb_FailureRate b < 0 \<or> sb_FailureRate b > 1, ''behavior.failure_rate must be in [0,1]''),
      (sb_SaturationLatencyFactor b < 0, ''behavior.saturation_latency_factor cannot be negative''),
      (sb_MaxConnections b < 0, ''behavior.max_connections cannot be negative'')] @
     (case sb_Cache b of None \<Rightarrow> [] | Some c \<Rightarrow>
       [(cb_HitRate c < 0 \<or> cb_HitRate c > 1, ''behavior.cache.hit_rate must be in [0,1]''),
        (la_Mean (cb_HitLatencyMs c) < 0 \<or> la_Sigma (cb_HitLatencyMs c) < 0, ''behavior.cache.hit_latency_ms mean/sigma cannot be negative''),
        (la_Mean (cb_MissLatencyMs c) < 0 \<or> la_Sigma (cb_MissLatencyMs c) < 0, ''behavior.cache.miss_latency_ms mean/sigma cannot be negative'')])"

definition endpoint_checks :: "endpoint \<Rightarrow> (bool \<times> string) list" where
  "endpoint_checks ep =
     [(ep_Path ep = [], ''endpoint path cannot be empty''),
      (ep_MeanCPUMs ep < 0, ''mean_cpu_ms cannot be negative''),
      (ep_CPUSigmaMs ep < 0, ''cpu_sigma_ms cannot be negative''),
      (la_Mean (ep_NetLatencyMs ep) < 0, ''net_latency_ms.mean cannot be negative''),
      (la_Sigma (ep_NetLatencyMs ep) < 0, ''net_latency_ms.sigma cannot be negative''),
      (ep_FailureRate ep < 0 \<or> ep_FailureRate ep > 1, ''failure_rate must be in [0,1]''),
      (ep_TimeoutMs ep < 0, ''timeout_ms cannot be negative''),
      (la_Mean (ep_IOMs ep) < 0 \<or> la_Sigma (ep_IOMs ep) < 0, ''io_ms mean/sigma cannot be negative''),
      (ep_ConnectionPool ep < 0, ''connection_pool cannot be negative'')]"

fun validate_services :: "string list \<Rightarrow> service list \<Rightarrow> go_error + unit" where
  "validate_services serviceIDs [] = Inr ()"
| "validate_services serviceIDs (svc # rest) =
     err_bind (err_checks
       ([(sv_ID svc = [], ''service id cannot be empty''),
         (sv_ID svc \<in> set serviceIDs, ''duplicate service id''),
         (sv_Replicas svc \<le> 0, ''service %s: replicas must be positive''),
         (norm_kind svc \<notin> set valid_kinds, ''service %s: unknown or unsupported kind %q''),
         (sv_Model svc \<notin> set [''cpu'', ''mixed'', ''db_latency''], ''service %s: invalid model %s''),
         (sv_Endpoints svc = [], ''service %s: at least one endpoint must be defined'')] @
        (case sv_Behavior svc of None \<Rightarrow> [] | Some b \<Rightarrow> behavior_checks b))) (\<lambda>_.
     err_bind (err_iter (\<lambda>ep. err_checks (endpoint_checks ep)) (sv_Endpoints svc)) (\<lambda>_.
     validate_services (sv_ID svc # serviceIDs) rest))"

definition validDownstreamModes :: "string list" where
  "validDownstreamModes = [[], ''sync'', ''async'', ''event'']"

definition validDownstreamKinds :: "string list" where
  "validDownstreamKinds = [[], ''rest'', ''grpc'', ''db'', ''queue'', ''topic'', ''external'']"

definition validate_downstream ::
  "string list \<Rightarrow> string list \<Rightarrow> (string, string) gomap \<Rightarrow> downstream_call \<Rightarrow> go_error + unit" where
  "validate_downstream serviceIDs endpointRef serviceKindByID ds =
     err_bind (err_checks [(dc_To ds = [], ''downstream to cannot be empty'')]) (\<lambda>_.
     err_bind (check_target serviceIDs endpointRef (dc_To ds)
       ''downstream to %q: %w'' ''downstream service does not exist'' ''downstream endpoint does not exist'') (\<lambda>tgtSvc.
     let mode = to_lower (trim_space (dc_Mode ds)); kind = to_lower (trim_space (dc_Kind ds));
         tgtKind = gm_get_or [] serviceKindByID tgtSvc in
     err_checks
       [(mode \<notin> set validDownstreamModes, ''invalid downstream mode %q''),
        (kind \<notin> set validDownstreamKinds, ''invalid downstream kind %q''),
        (dc_Probability ds < 0 \<or> dc_Probability ds > 1, ''downstream probability must be in [0,1]''),
        (dc_TimeoutMs ds < 0, ''downstream timeout_ms cannot be negative''),
        (dc_FailureRate ds < 0 \<or> dc_FailureRate ds > 1, ''downstream failure_rate must be in [0,1]''),
        (dc_DownstreamFractionCPU ds < 0 \<or> dc_DownstreamFractionCPU ds > 1, ''downstream_fraction_cpu must be in [0,1]''),
        (kind = ''queue'' \<and> tgtKind \<noteq> ''queue'', ''downstream kind queue requires target service to have kind queue''),
        (tgtKind = ''queue'' \<and> kind \<noteq> [] \<and> kind \<noteq> ''queue'', ''downstream to queue service must use kind queue (or omit kind)''),
        (kind = ''topic'' \<and> tgtKind \<noteq> ''topic'', ''downstream kind topic requires target service to have kind topic''),
        (tgtKind = ''topic'' \<and> kind \<noteq> [] \<and> kind \<noteq> ''topic'', ''downstream to topic service must use kind topic (or omit kind)'')]))"

text \<open>One workload pattern; the result is the pattern with its normalized arrival type.\<close>

definition validate_workload :: "string list \<Rightarrow> string list \<Rightarrow> workload_pattern \<Rightarrow> go_error + workload_pattern" where
  "validate_workload serviceIDs endpointRef wl =
     err_bind (err_checks
       [(wl_From wl = [], ''workload %d: from cannot be empty''),
        (wl_To wl = [], ''workload %d: to cannot be empty''),
        (ar_Type (wl_Arrival wl) = [], ''workload %d: arrival type cannot be empty'')]) (\<lambda>_.
     err_bind (NormalizeArrivalType (ar_Type (wl_Arrival wl))) (\<lambda>norm.
     let wl' = wl\<lparr>wl_Arrival := (wl_Arrival wl)\<lparr>ar_Type := norm\<rparr>\<rparr> in
     err_bind (err_checks [(ar_RateRPS (wl_Arrival wl') \<le> 0, ''workload %d: arrival rate_rps must be positive'')]) (\<lambda>_.
     err_bind (check_target serviceIDs endpointRef (wl_To wl')
       ''workload %d: invalid to %q: %w'' ''workload %d: target service %s does not exist''
       ''workload %d: target endpoint %s:%s does not exist'') (\<lambda>_. Inr wl'))))"

fun validate_workloads :: "string list \<Rightarrow> string list \<Rightarrow> workload_pattern list \<Rightarrow> go_error + workload_pattern list" where
  "validate_workloads serviceIDs endpointRef [] = Inr []"
| "validate_workloads serviceIDs endpointRef (wl # rest) =
     err_bind (validate_workload serviceIDs endpointRef wl) (\<lambda>wl'.
     err_bind (validate_workloads serviceIDs endpointRef rest) (\<lambda>rest'. Inr (wl' # rest')))"

definition endpoint_refs :: "service list \<Rightarrow> string list" where
  "endpoint_refs svcs = concat (map (\<lambda>svc. map (\<lambda>ep. sv_ID svc @ '':'' @ ep_Path ep) (sv_Endpoints svc)) svcs)"

definition service_kinds :: "service list \<Rightarrow> (string, string) gomap" where
  "service_kinds svcs = foldl (\<lambda>m svc. gm_put (sv_ID svc) (norm_kind svc) m) [] svcs"

definition ValidateScenario :: "scenario \<Rightarrow> go_error + scenario" where
  "ValidateScenario s =
     err_bind (case sc_SimulationLimits s of None \<Rightarrow> Inr () | Some l \<Rightarrow> err_checks
       [(sl_MaxTraceDepth l < 0, ''simulation_limits.max_trace_depth cannot be negative''),
        (sl_MaxAsyncHops l < 0, ''simulation_limits.max_async_hops cannot be negative'')]) (\<lambda>_.
     err_bind (err_checks [(sc_Hosts s = [], ''at least one host must be defined'')]) (\<lambda>_.
     err_bind (validate_hosts [] (sc_Hosts s)) (\<lambda>_.
     err_bind (err_checks [(sc_Services s = [], ''at least one service must be defined'')]) (\<lambda>_.
     err_bind (validate_services [] (sc_Services s)) (\<lambda>_.
     let serviceIDs = map sv_ID (sc_Services s); endpointRef = endpoint_refs (sc_Services s);
         serviceKindByID = service_kinds (sc_Services s) in
     err_bind (err_iter (\<lambda>svc. if norm_kind svc \<noteq> ''queue'' then Inr ()
         else ValidateQueueBehavior (Option.bind (sv_Behavior svc) sb_Queue) endpointRef serviceIDs) (sc_Services s)) (\<lambda>_.
     err_bind (err_iter (\<lambda>svc. if norm_kind svc \<noteq> ''topic'' then Inr ()
         else ValidateTopicBehavior (Option.bind (sv_Behavior svc) sb_Topic) endpointRef serviceIDs) (sc_Services s)) (\<lambda>_.
     err_bind (err_iter (\<lambda>svc. err_iter (\<lambda>ep.
         err_iter (validate_downstream serviceIDs endpointRef serviceKindByID) (ep_Downstream ep))
       (sv_Endpoints svc)) (sc_Services s)) (\<lambda>_.
     err_bind (err_checks [(sc_Workload s = [], ''at least one workload pattern must be defined'')]) (\<lambda>_.
     err_bind (validate_workloads serviceIDs endpointRef (sc_Workload s)) (\<lambda>wls.
     Inr (s\<lparr>sc_Workload := wls\<rparr>)))))))))))"

definition validatePolicies :: "policies_config \<Rightarrow> go_error + unit" where
  "validatePolicies p =
     err_bind (case pc_Autoscaling p of None \<Rightarrow> Inr () | Some a \<Rightarrow> err_checks
       [(ac_TargetCPUUtil a \<le> 0 \<or> ac_TargetCPUUtil a > 1, ''autoscaling target_cpu_util must be between 0 and 1''),
        (ac_ScaleStep a \<le> 0, ''autoscaling scale_step must be positive'')]) (\<lambda>_.
     case pc_Retries p of None \<Rightarrow> Inr () | Some r \<Rightarrow> err_checks
       [(rc_MaxRetries r < 0, ''retries max_retries cannot be negative''),
        (rc_Backoff r \<notin> set [''exponential'', ''linear'', ''constant''], ''invalid backoff type''),
        (rc_BaseMs r < 0, ''retries base_ms cannot be negative'')])"

end
