(* ===== verification/Scenario_Validation.thy ===== *)
theory Scenario_Validation
  imports Scenario_Config
begin

text \<open>
  What \<open>ValidateScenario\<close> of \<open>pkg/config/loader.go\<close> accepts: the declarative contract of a scenario, one
  lemma per validation routine that it accepts exactly its part of the contract, and the properties
  of the whole: acceptance is equivalent to the contract, validation is idempotent, and targets
  resolve.
\<close>

section \<open>Targets\<close>

definition target_string :: "string \<Rightarrow> string \<Rightarrow> string" where
  "target_string svc path = svc @ '':'' @ path"

lemma parse_target_shape:
  assumes "parseDownstreamTargetForValidation t = Inr (cs, cp)"
  shows "trimmed cs \<and> trimmed cp \<and> CHR '':'' \<notin> set cs"
proof -
  let ?t = "trim_space t"
  have slash: "trimmed ''/''" by (simp add: trimmed_def is_space_def)
  have sub: "set (trim_space x) \<subseteq> set x" for x
    by (auto simp: trim_space_def) (metis set_dropWhileD set_rev)
  have tr: "trim_space x \<noteq> [] \<Longrightarrow> trimmed (trim_space x)" for x
    using trim_space_result by blast
  show ?thesis
  proof (cases "CHR '':'' \<in> set ?t")
    case True
    obtain a b where ab: "split_first (CHR '':'') ?t = (a, b)" by (cases "split_first (CHR '':'') ?t")
    have "CHR '':'' \<notin> set a" using split_first_inverse [OF True ab] by simp
    then show ?thesis
      using assms True ab tr [of a] tr [of b] sub [of a]
      by (auto simp: parseDownstreamTargetForValidation_def Let_def split: if_splits)
  next
    case False
    then show ?thesis
      using assms tr [of t] slash
      by (auto simp: parseDownstreamTargetForValidation_def Let_def split: if_splits)
  qed
qed

lemma trimmed_target: "trimmed a \<Longrightarrow> trimmed b \<Longrightarrow> trimmed (a @ c # b)"
  by (cases a) (auto simp: trimmed_def)

lemma parse_target_string:
  assumes "trimmed a" "trimmed b" "CHR '':'' \<notin> set a"
  shows "parseDownstreamTargetForValidation (target_string a b) = Inr (a, b)"
  using assms trim_space_trimmed [OF trimmed_target [OF assms(1,2), of "CHR '':''"]]
    split_first_append [OF assms(3), of b]
  by (simp add: parseDownstreamTargetForValidation_def target_string_def trim_space_trimmed)
    (auto simp: trimmed_def)

text \<open>Reading a target and writing it back agree. Whatever \<open>parseDownstreamTargetForValidation\<close>
  accepts, it returns a service and a path without surrounding space and a service without a
  colon, and the canonical spelling of that pair parses to the same pair.\<close>

theorem parse_target_roundtrip:
  assumes "parseDownstreamTargetForValidation t = Inr (svc, path)"
  shows "parseDownstreamTargetForValidation (target_string svc path) = Inr (svc, path) \<and>
     svc \<noteq> [] \<and> path \<noteq> [] \<and> CHR '':'' \<notin> set svc"
  using parse_target_shape [OF assms] parse_target_string by (auto simp: trimmed_def)

theorem parse_target_roundtrip_witness:
  "parseDownstreamTargetForValidation (target_string ''api'' ''/v1:x'') = Inr (''api'', ''/v1:x'')"
proof -
  have "parseDownstreamTargetForValidation '' api : /v1:x '' = Inr (''api'', ''/v1:x'')" by code_simp
  from parse_target_roundtrip [OF this] show ?thesis by blast
qed

section \<open>What validation accepts\<close>

definition in_unit :: "float64 \<Rightarrow> bool" where
  "in_unit x \<longleftrightarrow> 0 \<le> x \<and> x \<le> 1"

definition latency_ok :: "latency_spec \<Rightarrow> bool" where
  "latency_ok l \<longleftrightarrow> 0 \<le> la_Mean l \<and> 0 \<le> la_Sigma l"

definition host_ok :: "host_spec \<Rightarrow> bool" where
  "host_ok h \<longleftrightarrow> ho_ID h \<noteq> [] \<and> 0 < ho_Cores h \<and> 0 \<le> ho_MemoryGB h"

definition behavior_ok :: "service_behavior \<Rightarrow> bool" where
  "behavior_ok b \<longleftrightarrow> in_unit (sb_FailureRate b) \<and> 0 \<le> sb_SaturationLatencyFactor b \<and> 0 \<le> sb_MaxConnections b \<and>
     (\<forall>c. sb_Cache b = Some c \<longrightarrow>
        in_unit (cb_HitRate c) \<and> latency_ok (cb_HitLatencyMs c) \<and> latency_ok (cb_MissLatencyMs c))"

definition endpoint_ok :: "endpoint \<Rightarrow> bool" where
  "endpoint_ok ep \<longleftrightarrow> ep_Path ep \<noteq> [] \<and> 0 \<le> ep_MeanCPUMs ep \<and> 0 \<le> ep_CPUSigmaMs ep \<and>
     latency_ok (ep_NetLatencyMs ep) \<and> in_unit (ep_FailureRate ep) \<and> 0 \<le> ep_TimeoutMs ep \<and>
     latency_ok (ep_IOMs ep) \<and> 0 \<le> ep_ConnectionPool ep"

definition service_ok :: "service \<Rightarrow> bool" where
  "service_ok svc \<longleftrightarrow> sv_ID svc \<noteq> [] \<and> 0 < sv_Replicas svc \<and> norm_kind svc \<in> set valid_kinds \<and>
     sv_Model svc \<in> {''cpu'', ''mixed'', ''db_latency''} \<and> sv_Endpoints svc \<noteq> [] \<and>
     (\<forall>b. sv_Behavior svc = Some b \<longrightarrow> behavior_ok b) \<and> (\<forall>ep \<in> set (sv_Endpoints svc). endpoint_ok ep)"

text \<open>A target names an existing service, and its spelling is that of an existing endpoint.\<close>

definition ref_ok :: "service list \<Rightarrow> string \<Rightarrow> bool" where
  "ref_ok svcs t \<longleftrightarrow> (\<exists>cs cp. parseDownstreamTargetForValidation t = Inr (cs, cp) \<and> cs \<in> sv_ID ` set svcs \<and>
     (\<exists>svc \<in> set svcs. \<exists>ep \<in> set (sv_Endpoints svc). target_string cs cp = target_string (sv_ID svc) (ep_Path ep)))"

lemma check_target_ok:
  "(\<exists>x. check_target (map sv_ID svcs) (endpoint_refs svcs) t m1 m2 m3 = Inr x) \<longleftrightarrow> ref_ok svcs t"
  by (force simp: check_target_def ref_ok_def endpoint_refs_def target_string_def split: sum.splits prod.splits)

lemma validate_hosts_ok:
  "validate_hosts seen hs = Inr u \<longleftrightarrow>
   distinct (map ho_ID hs) \<and> set (map ho_ID hs) \<inter> set seen = {} \<and> (\<forall>h \<in> set hs. host_ok h)"
  by (induction seen hs rule: validate_hosts.induct) (auto simp: err_ok host_ok_def)

lemma behavior_checks_ok: "(\<forall>c \<in> set (behavior_checks b). \<not> fst c) \<longleftrightarrow> behavior_ok b"
  by (cases "sb_Cache b") (auto simp: behavior_checks_def behavior_ok_def in_unit_def latency_ok_def not_less)

lemma endpoint_checks_ok: "(\<forall>c \<in> set (endpoint_checks ep). \<not> fst c) \<longleftrightarrow> endpoint_ok ep"
  by (auto simp: endpoint_checks_def endpoint_ok_def in_unit_def latency_ok_def not_less)

lemma validate_services_ok:
  "validate_services seen svcs = Inr u \<longleftrightarrow>
   distinct (map sv_ID svcs) \<and> set (map sv_ID svcs) \<inter> set seen = {} \<and> (\<forall>s \<in> set svcs. service_ok s)"
proof (induction seen svcs rule: validate_services.induct)
  case (2 seen svc rest)
  have "(\<forall>c \<in> set (case sv_Behavior svc of None \<Rightarrow> [] | Some b \<Rightarrow> behavior_checks b). \<not> fst c) \<longleftrightarrow>
      (\<forall>b. sv_Behavior svc = Some b \<longrightarrow> behavior_ok b)"
    by (cases "sv_Behavior svc") (simp_all add: behavior_checks_ok)
  with 2 show ?case
    by (auto simp: err_ok endpoint_checks_ok service_ok_def not_le)
qed simp

lemma trim_space_Nil [simp]: "trim_space [] = []"
  by (simp add: trim_space_def)

lemma ref_ok_trim [simp]: "ref_ok svcs (trim_space t) = ref_ok svcs t"
  by (simp add: ref_ok_def parseDownstreamTargetForValidation_def trim_space_idem)

lemma ref_ok_nonempty: "trim_space t = [] \<Longrightarrow> \<not> ref_ok svcs t"
  by (simp add: ref_ok_def parseDownstreamTargetForValidation_def)

definition concurrency_ok :: "int \<Rightarrow> int \<Rightarrow> int \<Rightarrow> bool" where
  "concurrency_ok c mn mx \<longleftrightarrow> 0 \<le> c \<and> 0 \<le> mn \<and> 0 \<le> mx \<and> (0 < mn \<and> 0 < mx \<longrightarrow> mn \<le> mx) \<and>
     (0 < c \<longrightarrow> (0 < mn \<longrightarrow> mn \<le> c) \<and> (0 < mx \<longrightarrow> c \<le> mx))"

definition drop_policy_ok :: "string \<Rightarrow> bool" where
  "drop_policy_ok p \<longleftrightarrow> trim_space p = [] \<or> to_lower (trim_space p) \<in> set valid_drop_policies"

definition optional_ref_ok :: "service list \<Rightarrow> string \<Rightarrow> bool" where
  "optional_ref_ok svcs t \<longleftrightarrow> trim_space t = [] \<or> ref_ok svcs t"

definition queue_ok :: "service list \<Rightarrow> queue_behavior \<Rightarrow> bool" where
  "queue_ok svcs q \<longleftrightarrow> -1 \<le> qb_Capacity q \<and> latency_ok (qb_DeliveryLatencyMs q) \<and> 0 \<le> qb_AckTimeoutMs q \<and>
     0 \<le> qb_MaxRedeliveries q \<and> 0 \<le> qb_ConsumerConcurrency q \<and>
     concurrency_ok (max 1 (qb_ConsumerConcurrency q)) (qb_MinConsumerConcurrency q) (qb_MaxConsumerConcurrency q) \<and>
     ref_ok svcs (qb_ConsumerTarget q) \<and> drop_policy_ok (qb_DropPolicy q) \<and> optional_ref_ok svcs (qb_DLQTarget q)"

definition subscriber_ok :: "service list \<Rightarrow> topic_subscriber \<Rightarrow> bool" where
  "subscriber_ok svcs s \<longleftrightarrow> trim_space (ts_ConsumerGroup s) \<noteq> [] \<and> ref_ok svcs (ts_ConsumerTarget s) \<and>
     concurrency_ok (ts_ConsumerConcurrency s) (ts_MinConsumerConcurrency s) (ts_MaxConsumerConcurrency s) \<and>
     0 \<le> ts_AckTimeoutMs s \<and> 0 \<le> ts_MaxRedeliveries s \<and> drop_policy_ok (ts_DropPolicy s) \<and>
     optional_ref_ok svcs (ts_DLQ s)"

definition topic_ok :: "service list \<Rightarrow> topic_behavior \<Rightarrow> bool" where
  "topic_ok svcs t \<longleftrightarrow> 0 \<le> tb_Partitions t \<and> 0 \<le> tb_RetentionMs t \<and> -1 \<le> tb_Capacity t \<and>
     latency_ok (tb_DeliveryLatencyMs t) \<and> tb_Subscribers t \<noteq> [] \<and>
     (\<forall>s \<in> set (tb_Subscribers t). subscriber_ok svcs s) \<and>
     distinct (map (\<lambda>s. trim_space (ts_ConsumerGroup s)) (tb_Subscribers t)) \<and>
     distinct (filter (\<lambda>n. n \<noteq> []) (map (\<lambda>s. trim_space (ts_Name s)) (tb_Subscribers t)))"

lemma check_target_unit_ok:
  "err_bind (check_target (map sv_ID svcs) (endpoint_refs svcs) t m1 m2 m3) (\<lambda>_. Inr ()) = Inr u \<longleftrightarrow> ref_ok svcs t"
  using check_target_ok [of svcs t m1 m2 m3] by (auto simp: err_bind_Inr_iff)

lemma to_lower_Nil_iff [simp]: "to_lower s = [] \<longleftrightarrow> s = []"
  by (simp add: to_lower_def)

lemma EffectiveQueueBehavior_fields:
  "qb_ConsumerConcurrency (EffectiveQueueBehavior (Some q)) = max 1 (qb_ConsumerConcurrency q)"
  "qb_MinConsumerConcurrency (EffectiveQueueBehavior (Some q)) = max 0 (qb_MinConsumerConcurrency q)"
  "qb_MaxConsumerConcurrency (EffectiveQueueBehavior (Some q)) = max 0 (qb_MaxConsumerConcurrency q)"
  "qb_ConsumerTarget (EffectiveQueueBehavior (Some q)) = trim_space (qb_ConsumerTarget q)"
  "qb_DLQTarget (EffectiveQueueBehavior (Some q)) = trim_space (qb_DLQTarget q)"
  "qb_DropPolicy (EffectiveQueueBehavior (Some q)) =
     (if trim_space (qb_DropPolicy q) = [] then ''block'' else trim_space (qb_DropPolicy q))"
  by (auto simp: EffectiveQueueBehavior_def DefaultQueueBehavior_def Let_def)

lemma concurrency_checks_ok:
  "(\<not> c < 0 \<and> \<not> mn < 0 \<and> \<not> mx < 0 \<and> \<not> (0 < mn \<and> mn < 1) \<and> \<not> (0 < mx \<and> mx < 1) \<and>
     \<not> (0 < mn \<and> 0 < mx \<and> mx < mn) \<and> \<not> (0 < c \<and> 0 < mn \<and> c < mn) \<and> \<not> (0 < c \<and> 0 < mx \<and> mx < c)) \<longleftrightarrow>
   concurrency_ok c mn mx" for c mn mx :: int
  by (auto simp: concurrency_ok_def)

lemma ValidateQueueBehavior_ok:
  "ValidateQueueBehavior oq (endpoint_refs svcs) (map sv_ID svcs) = Inr u \<longleftrightarrow>
   (\<exists>q. oq = Some q \<and> queue_ok svcs q)"
proof (cases oq)
  case (Some q)
  define c where "c = max 1 (qb_ConsumerConcurrency q)"
  define mn where "mn = max 0 (qb_MinConsumerConcurrency q)"
  define mx where "mx = max 0 (qb_MaxConsumerConcurrency q)"
  have ct: "(\<exists>x. check_target (map sv_ID svcs) (endpoint_refs svcs) (trim_space t) m1 m2 m3 = Inr x) = ref_ok svcs t" for t m1 m2 m3
    by (simp add: check_target_ok)
  have blk: "to_lower (trim_space ''block'') \<in> set valid_drop_policies" by code_simp
  define drop where "drop = (if trim_space (qb_DropPolicy q) = [] then ''block'' else trim_space (qb_DropPolicy q))"
  have drop: "to_lower (trim_space drop) \<in> set valid_drop_policies \<longleftrightarrow> drop_policy_ok (qb_DropPolicy q)"
    using blk by (simp add: drop_def drop_policy_ok_def trim_space_idem)
  have dlq: "(if trim_space (qb_DLQTarget q) \<noteq> [] then err_bind (check_target (map sv_ID svcs) (endpoint_refs svcs)
      (trim_space (qb_DLQTarget q)) m1 m2 m3) (\<lambda>_. Inr ()) else Inr ()) = Inr u \<longleftrightarrow> optional_ref_ok svcs (qb_DLQTarget q)" for m1 m2 m3 u
    by (simp add: check_target_unit_ok optional_ref_ok_def)
  have "ValidateQueueBehavior oq (endpoint_refs svcs) (map sv_ID svcs) = Inr u \<longleftrightarrow>
      (\<not> qb_Capacity q < -1 \<and> \<not> qb_ConsumerConcurrency q < 0 \<and> \<not> qb_MinConsumerConcurrency q < 0 \<and>
       \<not> qb_MaxConsumerConcurrency q < 0 \<and> latency_ok (qb_DeliveryLatencyMs q) \<and>
       \<not> qb_AckTimeoutMs q < 0 \<and> \<not> qb_MaxRedeliveries q < 0) \<and>
      trim_space (qb_ConsumerTarget q) \<noteq> [] \<and> ref_ok svcs (qb_ConsumerTarget q) \<and>
      concurrency_ok c mn mx \<and> drop_policy_ok (qb_DropPolicy q) \<and> optional_ref_ok svcs (qb_DLQTarget q)"
    unfolding Some ValidateQueueBehavior_def option.case Let_def EffectiveQueueBehavior_fields trim_space_idem
      drop_def [symmetric] c_def [symmetric] mn_def [symmetric] mx_def [symmetric] drop [symmetric]
      concurrency_checks_ok [symmetric] latency_ok_def err_bind_Inr_iff err_checks_iff dlq not_less [symmetric]
    using ct by blast
  also have "\<dots> \<longleftrightarrow> queue_ok svcs q"
    using ref_ok_nonempty [of "qb_ConsumerTarget q" svcs] by (auto simp: queue_ok_def concurrency_ok_def c_def mn_def mx_def)
  finally show ?thesis by (simp add: Some)
qed (simp add: ValidateQueueBehavior_def)

lemma subscriber_checks_ok:
  "err_checks (subscriber_checks s s) = Inr u \<longleftrightarrow>
   concurrency_ok (ts_ConsumerConcurrency s) (ts_MinConsumerConcurrency s) (ts_MaxConsumerConcurrency s) \<and>
   0 \<le> ts_AckTimeoutMs s \<and> 0 \<le> ts_MaxRedeliveries s \<and> drop_policy_ok (ts_DropPolicy s)"
proof -
  define drop where "drop = to_lower (trim_space (ts_DropPolicy s))"
  have "''block'' \<in> set valid_drop_policies" by code_simp
  then have "(if drop = [] then ''block'' else drop) \<in> set valid_drop_policies \<longleftrightarrow> drop_policy_ok (ts_DropPolicy s)"
    by (simp add: drop_policy_ok_def drop_def)
  then show ?thesis
    unfolding subscriber_checks_def Let_def drop_def [symmetric] err_checks_iff
      concurrency_checks_ok [symmetric] not_less [symmetric] by blast
qed

lemma validate_subscribers_ok:
  "validate_subscribers (endpoint_refs svcs) (map sv_ID svcs) gs ns (zip subs subs) = Inr u \<longleftrightarrow>
   (\<forall>s \<in> set subs. subscriber_ok svcs s) \<and>
   distinct (map (\<lambda>s. trim_space (ts_ConsumerGroup s)) subs) \<and>
   set (map (\<lambda>s. trim_space (ts_ConsumerGroup s)) subs) \<inter> set gs = {} \<and>
   distinct (filter (\<lambda>n. n \<noteq> []) (map (\<lambda>s. trim_space (ts_Name s)) subs)) \<and>
   set (filter (\<lambda>n. n \<noteq> []) (map (\<lambda>s. trim_space (ts_Name s)) subs)) \<inter> set ns = {}"
proof (induction subs arbitrary: gs ns)
  case (Cons s subs)
  have ct: "(\<exists>x. check_target (map sv_ID svcs) (endpoint_refs svcs) t m1 m2 m3 = Inr x) = ref_ok svcs t" for t m1 m2 m3
    by (rule check_target_ok)
  have dlq: "(if trim_space (ts_DLQ s) \<noteq> [] then err_bind (check_target (map sv_ID svcs) (endpoint_refs svcs)
      (trim_space (ts_DLQ s)) m1 m2 m3) (\<lambda>_. Inr ()) else Inr ()) = Inr () \<longleftrightarrow> optional_ref_ok svcs (ts_DLQ s)" for m1 m2 m3
    by (simp add: check_target_unit_ok optional_ref_ok_def)
  have "validate_subscribers (endpoint_refs svcs) (map sv_ID svcs) gs ns (zip (s # subs) (s # subs)) = Inr u \<longleftrightarrow>
      (trim_space (ts_ConsumerTarget s) \<noteq> [] \<and> ref_ok svcs (ts_ConsumerTarget s) \<and>
       trim_space (ts_ConsumerGroup s) \<noteq> [] \<and> trim_space (ts_ConsumerGroup s) \<notin> set gs \<and>
       (trim_space (ts_Name s) = [] \<or> trim_space (ts_Name s) \<notin> set ns) \<and>
       err_checks (subscriber_checks s s) = Inr () \<and> optional_ref_ok svcs (ts_DLQ s) \<and>
       validate_subscribers (endpoint_refs svcs) (map sv_ID svcs) (trim_space (ts_ConsumerGroup s) # gs)
         (if trim_space (ts_Name s) \<noteq> [] then trim_space (ts_Name s) # ns else ns) (zip subs subs) = Inr u)"
    by (simp add: err_bind_Inr_iff err_checks_iff ct dlq Let_def)
  also have "\<dots> \<longleftrightarrow> subscriber_ok svcs s \<and> trim_space (ts_ConsumerGroup s) \<notin> set gs \<and>
      (trim_space (ts_Name s) = [] \<or> trim_space (ts_Name s) \<notin> set ns) \<and>
      validate_subscribers (endpoint_refs svcs) (map sv_ID svcs) (trim_space (ts_ConsumerGroup s) # gs)
         (if trim_space (ts_Name s) \<noteq> [] then trim_space (ts_Name s) # ns else ns) (zip subs subs) = Inr u"
    using ref_ok_nonempty [of "ts_ConsumerTarget s" svcs] by (auto simp: subscriber_checks_ok subscriber_ok_def)
  finally show ?case unfolding Cons.IH by auto
qed simp

lemma ValidateTopicBehavior_ok:
  "ValidateTopicBehavior ot (endpoint_refs svcs) (map sv_ID svcs) = Inr u \<longleftrightarrow>
   (\<exists>t. ot = Some t \<and> topic_ok svcs t)"
proof (cases ot)
  case (Some t)
  define eff where "eff = EffectiveTopicBehavior (Some t)"
  have eff: "1 \<le> tb_Partitions eff" "tb_Subscribers eff = tb_Subscribers t"
    by (auto simp: eff_def EffectiveTopicBehavior_def DefaultTopicBehavior_def Let_def)
  show ?thesis
    using eff(1)
    by (simp add: Some ValidateTopicBehavior_def eff_def [symmetric] Let_def eff(2) validate_subscribers_ok
        err_checks_ok err_bind_Inr_iff topic_ok_def latency_ok_def not_less)
qed (simp add: ValidateTopicBehavior_def)

section \<open>Downstream calls and workload\<close>

definition kind_matches :: "string \<Rightarrow> string \<Rightarrow> bool" where
  "kind_matches kind tgtKind \<longleftrightarrow>
     (\<forall>k \<in> {''queue'', ''topic''}. (kind = k \<longrightarrow> tgtKind = k) \<and> (tgtKind = k \<longrightarrow> kind = [] \<or> kind = k))"

lemma kind_matches_alt:
  "kind_matches k t \<longleftrightarrow> (k = ''queue'' \<longrightarrow> t = ''queue'') \<and> (t = ''queue'' \<longrightarrow> k = [] \<or> k = ''queue'') \<and>
     (k = ''topic'' \<longrightarrow> t = ''topic'') \<and> (t = ''topic'' \<longrightarrow> k = [] \<or> k = ''topic'')"
  by (auto simp: kind_matches_def)

definition downstream_ok :: "service list \<Rightarrow> downstream_call \<Rightarrow> bool" where
  "downstream_ok svcs ds \<longleftrightarrow> ref_ok svcs (dc_To ds) \<and>
     to_lower (trim_space (dc_Mode ds)) \<in> set validDownstreamModes \<and>
     to_lower (trim_space (dc_Kind ds)) \<in> set validDownstreamKinds \<and>
     in_unit (dc_Probability ds) \<and> 0 \<le> dc_TimeoutMs ds \<and> in_unit (dc_FailureRate ds) \<and>
     in_unit (dc_DownstreamFractionCPU ds) \<and>
     (\<forall>svc \<in> set svcs. \<forall>path. parseDownstreamTargetForValidation (dc_To ds) = Inr (sv_ID svc, path) \<longrightarrow>
        kind_matches (to_lower (trim_space (dc_Kind ds))) (norm_kind svc))"

lemma service_kinds_get:
  assumes "distinct (map sv_ID svcs)" "svc \<in> set svcs"
  shows "gm_get_or [] (service_kinds svcs) (sv_ID svc) = norm_kind svc"
proof -
  have "gm_get (foldl (\<lambda>m svc. gm_put (sv_ID svc) (norm_kind svc) m) m0 svcs) (sv_ID svc) = Some (norm_kind svc)" for m0
    using assms
  proof (induction svcs arbitrary: m0)
    case (Cons x xs)
    show ?case
    proof (cases "svc \<in> set xs")
      case False
      then have "svc = x" "sv_ID x \<notin> sv_ID ` set xs" using Cons.prems by auto
      moreover have "k \<notin> sv_ID ` set ys \<Longrightarrow>
          gm_get (foldl (\<lambda>m svc. gm_put (sv_ID svc) (norm_kind svc) m) m ys) k = gm_get m k" for k ys m
        by (induction ys arbitrary: m) auto
      ultimately show ?thesis by simp
    qed (use Cons in simp)
  qed simp
  then show ?thesis by (simp add: gm_get_or_def service_kinds_def)
qed

lemma check_target_Inr:
  "check_target (map sv_ID svcs) (endpoint_refs svcs) t m1 m2 m3 = Inr x \<longleftrightarrow>
   ref_ok svcs t \<and> (\<exists>p. parseDownstreamTargetForValidation t = Inr (x, p))"
  using check_target_ok [of svcs t m1 m2 m3]
  by (auto simp: check_target_def split: sum.splits prod.splits if_splits)

lemma validate_downstream_ok:
  assumes "distinct (map sv_ID svcs)"
  shows "validate_downstream (map sv_ID svcs) (endpoint_refs svcs) (service_kinds svcs) ds = Inr u \<longleftrightarrow>
    downstream_ok svcs ds"
proof (cases "ref_ok svcs (dc_To ds)")
  case False
  then show ?thesis
    using check_target_Inr [of svcs "dc_To ds"]
    by (auto simp: validate_downstream_def downstream_ok_def err_bind_Inr_iff)
next
  case True
  then obtain svc p where svc: "svc \<in> set svcs" and
      p: "parseDownstreamTargetForValidation (dc_To ds) = Inr (sv_ID svc, p)"
    by (auto simp: ref_ok_def)
  have ct: "check_target (map sv_ID svcs) (endpoint_refs svcs) (dc_To ds) m1 m2 m3 = Inr (sv_ID svc)" for m1 m2 m3
    using True p by (auto simp: check_target_Inr)
  have k: "gm_get_or [] (service_kinds svcs) (sv_ID svc) = norm_kind svc"
    by (rule service_kinds_get [OF assms svc])
  have u: "svc' \<in> set svcs \<Longrightarrow> sv_ID svc' = sv_ID svc \<Longrightarrow> svc' = svc" for svc'
    using assms svc by (auto simp: distinct_map inj_on_def)
  have ne: "dc_To ds \<noteq> []" using True ref_ok_nonempty [of "dc_To ds" svcs] by auto
  have all: "(\<forall>svc' \<in> set svcs. \<forall>path. parseDownstreamTargetForValidation (dc_To ds) = Inr (sv_ID svc', path) \<longrightarrow>
      kind_matches (to_lower (trim_space (dc_Kind ds))) (norm_kind svc')) \<longleftrightarrow>
      kind_matches (to_lower (trim_space (dc_Kind ds))) (norm_kind svc)"
  proof
    assume "kind_matches (to_lower (trim_space (dc_Kind ds))) (norm_kind svc)"
    moreover have "svc' = svc"
      if "svc' \<in> set svcs" "parseDownstreamTargetForValidation (dc_To ds) = Inr (sv_ID svc', path)" for svc' path
      using u [OF that(1)] that(2) p by simp
    ultimately show "\<forall>svc' \<in> set svcs. \<forall>path. parseDownstreamTargetForValidation (dc_To ds) = Inr (sv_ID svc', path) \<longrightarrow>
      kind_matches (to_lower (trim_space (dc_Kind ds))) (norm_kind svc')" by blast
  qed (use svc p in blast)
  have "validate_downstream (map sv_ID svcs) (endpoint_refs svcs) (service_kinds svcs) ds = Inr u \<longleftrightarrow>
      to_lower (trim_space (dc_Mode ds)) \<in> set validDownstreamModes \<and>
      to_lower (trim_space (dc_Kind ds)) \<in> set validDownstreamKinds \<and>
      in_unit (dc_Probability ds) \<and> 0 \<le> dc_TimeoutMs ds \<and> in_unit (dc_FailureRate ds) \<and>
      in_unit (dc_DownstreamFractionCPU ds) \<and>
      kind_matches (to_lower (trim_space (dc_Kind ds))) (norm_kind svc)"
    using ne by (simp add: validate_downstream_def ct k Let_def err_checks_ok in_unit_def not_less kind_matches_alt)
  then show ?thesis unfolding downstream_ok_def all using True by simp
qed

definition arrival_types :: "string list" where
  "arrival_types = [''poisson'', ''exponential'', ''uniform'', ''normal'', ''gaussian'', ''bursty'', ''constant'']"

lemma NormalizeArrivalType_result: "NormalizeArrivalType t = Inr n \<Longrightarrow> n \<in> set arrival_types"
  by (auto simp: NormalizeArrivalType_def arrival_types_def Let_def split: if_splits)

lemma NormalizeArrivalType_canonical: "n \<in> set arrival_types \<Longrightarrow> NormalizeArrivalType n = Inr n"
proof -
  have "list_all (\<lambda>n. NormalizeArrivalType n = Inr n) arrival_types" by code_simp
  then show "n \<in> set arrival_types \<Longrightarrow> NormalizeArrivalType n = Inr n" by (simp add: list_all_iff)
qed

definition workload_ok :: "service list \<Rightarrow> workload_pattern \<Rightarrow> bool" where
  "workload_ok svcs wl \<longleftrightarrow> wl_From wl \<noteq> [] \<and> (\<exists>n. NormalizeArrivalType (ar_Type (wl_Arrival wl)) = Inr n) \<and>
     0 < ar_RateRPS (wl_Arrival wl) \<and> ref_ok svcs (wl_To wl)"

definition normalized :: "workload_pattern \<Rightarrow> workload_pattern" where
  "normalized wl = (case NormalizeArrivalType (ar_Type (wl_Arrival wl)) of
     Inr n \<Rightarrow> wl\<lparr>wl_Arrival := (wl_Arrival wl)\<lparr>ar_Type := n\<rparr>\<rparr> | Inl _ \<Rightarrow> wl)"

lemma validate_workload_ok:
  "validate_workload (map sv_ID svcs) (endpoint_refs svcs) wl = Inr wl' \<longleftrightarrow>
   workload_ok svcs wl \<and> wl' = normalized wl"
proof -
  have e: "NormalizeArrivalType [] = Inl (Err ''arrival type cannot be empty'')"
    by (simp add: NormalizeArrivalType_def to_lower_def)
  have ct: "(\<exists>x. check_target (map sv_ID svcs) (endpoint_refs svcs) t m1 m2 m3 = Inr x) = ref_ok svcs t" for t m1 m2 m3
    by (rule check_target_ok)
  have ne: "ref_ok svcs (wl_To wl) \<Longrightarrow> wl_To wl \<noteq> []" using ref_ok_nonempty [of "wl_To wl" svcs] by auto
  show ?thesis
  proof (cases "NormalizeArrivalType (ar_Type (wl_Arrival wl))")
    case (Inl err)
    then show ?thesis by (simp add: validate_workload_def workload_ok_def err_bind_Inr_iff)
  next
    case (Inr n)
    then have "ar_Type (wl_Arrival wl) \<noteq> []" using e by auto
    then show ?thesis
      using Inr ne by (auto simp: validate_workload_def workload_ok_def normalized_def err_bind_Inr_iff
          err_checks_ok ct Let_def not_le)
  qed
qed

lemma validate_workloads_ok:
  "validate_workloads (map sv_ID svcs) (endpoint_refs svcs) wls = Inr wls' \<longleftrightarrow>
   (\<forall>wl \<in> set wls. workload_ok svcs wl) \<and> wls' = map normalized wls"
  by (induction wls arbitrary: wls') (auto simp: err_bind_Inr_iff validate_workload_ok)

definition scenario_ok :: "scenario \<Rightarrow> bool" where
  "scenario_ok s \<longleftrightarrow>
     (\<forall>l. sc_SimulationLimits s = Some l \<longrightarrow> 0 \<le> sl_MaxTraceDepth l \<and> 0 \<le> sl_MaxAsyncHops l) \<and>
     sc_Hosts s \<noteq> [] \<and> distinct (map ho_ID (sc_Hosts s)) \<and> (\<forall>h \<in> set (sc_Hosts s). host_ok h) \<and>
     sc_Services s \<noteq> [] \<and> distinct (map sv_ID (sc_Services s)) \<and> (\<forall>svc \<in> set (sc_Services s). service_ok svc) \<and>
     (\<forall>svc \<in> set (sc_Services s). norm_kind svc = ''queue'' \<longrightarrow>
        (\<exists>q. Option.bind (sv_Behavior svc) sb_Queue = Some q \<and> queue_ok (sc_Services s) q)) \<and>
     (\<forall>svc \<in> set (sc_Services s). norm_kind svc = ''topic'' \<longrightarrow>
        (\<exists>t. Option.bind (sv_Behavior svc) sb_Topic = Some t \<and> topic_ok (sc_Services s) t)) \<and>
     (\<forall>svc \<in> set (sc_Services s). \<forall>ep \<in> set (sv_Endpoints svc). \<forall>ds \<in> set (ep_Downstream ep).
        downstream_ok (sc_Services s) ds) \<and>
     sc_Workload s \<noteq> [] \<and> (\<forall>wl \<in> set (sc_Workload s). workload_ok (sc_Services s) wl)"

lemma ValidateScenario_ok:
  "ValidateScenario s = Inr s' \<longleftrightarrow> scenario_ok s \<and> s' = s\<lparr>sc_Workload := map normalized (sc_Workload s)\<rparr>"
proof -
  let ?svcs = "sc_Services s"
  let ?lim = "case sc_SimulationLimits s of None \<Rightarrow> Inr () | Some l \<Rightarrow> err_checks
       [(sl_MaxTraceDepth l < 0, ''simulation_limits.max_trace_depth cannot be negative''),
        (sl_MaxAsyncHops l < 0, ''simulation_limits.max_async_hops cannot be negative'')]"
  have lim: "?lim = Inr u \<longleftrightarrow>
      (\<forall>l. sc_SimulationLimits s = Some l \<longrightarrow> 0 \<le> sl_MaxTraceDepth l \<and> 0 \<le> sl_MaxAsyncHops l)" for u
    by (auto simp: err_checks_ok not_less split: option.splits)
  have q: "(if norm_kind svc \<noteq> ''queue'' then Inr () else ValidateQueueBehavior
      (Option.bind (sv_Behavior svc) sb_Queue) (endpoint_refs ?svcs) (map sv_ID ?svcs)) = Inr () \<longleftrightarrow>
      (norm_kind svc = ''queue'' \<longrightarrow> (\<exists>q. Option.bind (sv_Behavior svc) sb_Queue = Some q \<and> queue_ok ?svcs q))" for svc
    by (simp add: ValidateQueueBehavior_ok)
  have t: "(if norm_kind svc \<noteq> ''topic'' then Inr () else ValidateTopicBehavior
      (Option.bind (sv_Behavior svc) sb_Topic) (endpoint_refs ?svcs) (map sv_ID ?svcs)) = Inr () \<longleftrightarrow>
      (norm_kind svc = ''topic'' \<longrightarrow> (\<exists>q. Option.bind (sv_Behavior svc) sb_Topic = Some q \<and> topic_ok ?svcs q))" for svc
    by (simp add: ValidateTopicBehavior_ok)
  have d: "distinct (map sv_ID ?svcs) \<Longrightarrow>
      validate_downstream (map sv_ID ?svcs) (endpoint_refs ?svcs) (service_kinds ?svcs) ds = Inr () \<longleftrightarrow>
      downstream_ok ?svcs ds" for ds
    by (rule validate_downstream_ok)
  show ?thesis
    unfolding ValidateScenario_def Let_def err_bind_Inr_iff lim validate_hosts_ok validate_services_ok
      err_iter_ok q t validate_workloads_ok err_checks_ok scenario_ok_def
    using d by auto
qed

section \<open>Properties\<close>

lemma normalized_idem: "workload_ok svcs wl \<Longrightarrow> workload_ok svcs (normalized wl) \<and> normalized (normalized wl) = normalized wl"
  using NormalizeArrivalType_result NormalizeArrivalType_canonical
  by (auto simp: workload_ok_def normalized_def)

text \<open>C4: \<open>ValidateScenario\<close> accepts exactly the scenarios that satisfy the declarative contract
  \<open>scenario_ok\<close>: non-empty, unique and well-ranged hosts, services and endpoints, complete queue and
  topic behaviours with distinct consumer groups, and every downstream call, consumer, dead-letter
  and workload target naming a declared service and the spelling of a declared endpoint. It returns
  the scenario with only its arrival types normalized.\<close>

theorem validate_scenario_iff:
  "ValidateScenario s = Inr s' \<longleftrightarrow> scenario_ok s \<and> s' = s\<lparr>sc_Workload := map normalized (sc_Workload s)\<rparr>"
  by (rule ValidateScenario_ok)

text \<open>Validation is idempotent: a scenario it has returned is accepted again and returned as it
  is, and all its arrival types are canonical.\<close>

theorem validate_scenario_idempotent:
  assumes "ValidateScenario s = Inr s'"
  shows "ValidateScenario s' = Inr s' \<and>
     (\<forall>wl \<in> set (sc_Workload s'). ar_Type (wl_Arrival wl) \<in> set arrival_types)"
proof -
  have s: "scenario_ok s" and s': "s' = s\<lparr>sc_Workload := map normalized (sc_Workload s)\<rparr>"
    using assms by (simp_all add: ValidateScenario_ok)
  have w: "workload_ok (sc_Services s) (normalized wl)" "normalized (normalized wl) = normalized wl"
    "ar_Type (wl_Arrival (normalized wl)) \<in> set arrival_types" if "wl \<in> set (sc_Workload s)" for wl
  proof -
    have ok: "workload_ok (sc_Services s) wl" using s that unfolding scenario_ok_def by blast
    from normalized_idem [OF ok]
    show "workload_ok (sc_Services s) (normalized wl)" "normalized (normalized wl) = normalized wl" by auto
    from ok obtain n where "NormalizeArrivalType (ar_Type (wl_Arrival wl)) = Inr n"
      unfolding workload_ok_def by blast
    then show "ar_Type (wl_Arrival (normalized wl)) \<in> set arrival_types"
      using NormalizeArrivalType_result by (auto simp: normalized_def)
  qed
  have "scenario_ok s'" using s w(1) unfolding scenario_ok_def by (simp add: s')
  moreover have "s'\<lparr>sc_Workload := map normalized (sc_Workload s')\<rparr> = s'"
    using w(2) by (simp add: s' comp_def cong: map_cong)
  ultimately show ?thesis using w(3) by (auto simp: ValidateScenario_ok s')
qed

text \<open>C21: in a validated scenario whose service identifiers contain no colon, every downstream target
  and every workload target resolves: it parses to the identifier of a declared service and to the
  path of one of that service's own endpoints.\<close>

theorem validated_targets_resolve:
  assumes "ValidateScenario s = Inr s'" "\<forall>svc \<in> set (sc_Services s). CHR '':'' \<notin> set (sv_ID svc)"
    and "t \<in> wl_To ` set (sc_Workload s') \<or>
      (\<exists>svc \<in> set (sc_Services s). \<exists>ep \<in> set (sv_Endpoints svc). t \<in> dc_To ` set (ep_Downstream ep))"
  shows "\<exists>svc \<in> set (sc_Services s). \<exists>ep \<in> set (sv_Endpoints svc).
     parseDownstreamTargetForValidation t = Inr (sv_ID svc, ep_Path ep)"
proof -
  have s: "scenario_ok s" and s': "s' = s\<lparr>sc_Workload := map normalized (sc_Workload s)\<rparr>"
    using assms(1) by (simp_all add: ValidateScenario_ok)
  have w: "wl_To (normalized wl) = wl_To wl" for wl by (simp add: normalized_def split: sum.split)
  from assms(3) have "ref_ok (sc_Services s) t"
  proof
    assume "t \<in> wl_To ` set (sc_Workload s')"
    then obtain wl where "wl \<in> set (sc_Workload s)" "t = wl_To wl" by (auto simp: s' w)
    then show ?thesis using s unfolding scenario_ok_def workload_ok_def by blast
  next
    assume "\<exists>svc \<in> set (sc_Services s). \<exists>ep \<in> set (sv_Endpoints svc). t \<in> dc_To ` set (ep_Downstream ep)"
    then show ?thesis using s unfolding scenario_ok_def downstream_ok_def by blast
  qed
  then obtain cs cp svc ep where p: "parseDownstreamTargetForValidation t = Inr (cs, cp)"
    and svc: "svc \<in> set (sc_Services s)" "ep \<in> set (sv_Endpoints svc)"
    and e: "target_string cs cp = target_string (sv_ID svc) (ep_Path ep)"
    by (auto simp: ref_ok_def)
  have "CHR '':'' \<notin> set cs" "CHR '':'' \<notin> set (sv_ID svc)"
    using parse_target_shape [OF p] assms(2) svc(1) by auto
  then have "split_first (CHR '':'') (target_string cs cp) = (cs, cp)"
    "split_first (CHR '':'') (target_string (sv_ID svc) (ep_Path ep)) = (sv_ID svc, ep_Path ep)"
    by (simp_all add: target_string_def split_first_append)
  then have "(cs, cp) = (sv_ID svc, ep_Path ep)" unfolding e by simp
  then show ?thesis using p svc by blast
qed

definition demo_endpoint :: "string \<Rightarrow> string list \<Rightarrow> endpoint" where
  "demo_endpoint path tos = \<lparr>ep_Path = path, ep_MeanCPUMs = 1, ep_CPUSigmaMs = 0, ep_DefaultMemoryMB = 0,
     ep_FailureRate = 0, ep_TimeoutMs = 0, ep_IOMs = zero_latency, ep_ConnectionPool = 0, ep_Routing = None,
     ep_Downstream = map (\<lambda>t. \<lparr>dc_To = t, dc_Mode = [], dc_Kind = [], dc_Probability = 0, dc_CallCountMean = 0,
       dc_CallLatencyMs = zero_latency, dc_TimeoutMs = 0, dc_FailureRate = 0, dc_Retryable = None,
       dc_DownstreamFractionCPU = 0, dc_PartitionKey = [], dc_PartitionKeyFrom = []\<rparr>) tos,
     ep_NetLatencyMs = zero_latency\<rparr>"

definition demo_service :: "string \<Rightarrow> endpoint list \<Rightarrow> service" where
  "demo_service i eps = \<lparr>sv_ID = i, sv_Kind = ''service'', sv_Role = [], sv_Replicas = 1, sv_Model = ''cpu'',
     sv_CPUCores = 1, sv_MemoryMB = 512, sv_ExternalNetworkLatencyMs = None, sv_Scaling = None,
     sv_Behavior = None, sv_Placement = None, sv_Routing = None, sv_Endpoints = eps\<rparr>"

definition demo_scenario :: "service list \<Rightarrow> string \<Rightarrow> scenario" where
  "demo_scenario svcs target = \<lparr>sc_SchemaVersion = None, sc_SimulationLimits = None, sc_Network = None,
     sc_Hosts = [\<lparr>ho_ID = ''h1'', ho_Cores = 4, ho_MemoryGB = 16, ho_Zone = [], ho_Labels = []\<rparr>],
     sc_Services = svcs,
     sc_Workload = [\<lparr>wl_From = ''client'', wl_SourceKind = [], wl_TrafficClass = [], wl_Metadata = [],
       wl_To = target, wl_Arrival = \<lparr>ar_Type = '' Burst'', ar_RateRPS = 10, ar_StdDevRPS = 0,
         ar_BurstRateRPS = 0, ar_BurstDurationSeconds = 0, ar_QuietDurationSeconds = 0\<rparr>\<rparr>],
     sc_Policies = None\<rparr>"

definition demo_two :: scenario where
  "demo_two = demo_scenario [demo_service ''api'' [demo_endpoint ''/a'' ['' db'']],
     demo_service ''db'' [demo_endpoint ''/'' []]] ''api:/a''"

definition accepted :: "go_error + 'a \<Rightarrow> bool" where
  "accepted r = (case r of Inr _ \<Rightarrow> True | Inl _ \<Rightarrow> False)"

lemma demo_two_valid: "accepted (ValidateScenario demo_two)"
  by code_simp

theorem validate_scenario_idempotent_witness:
  "\<exists>s'. ValidateScenario demo_two = Inr s' \<and> ValidateScenario s' = Inr s'"
proof -
  obtain s' where s': "ValidateScenario demo_two = Inr s'"
    using demo_two_valid by (auto simp: accepted_def split: sum.splits)
  from validate_scenario_idempotent [OF this] s' show ?thesis by blast
qed

theorem validated_targets_resolve_witness:
  "\<exists>svc \<in> set (sc_Services demo_two). \<exists>ep \<in> set (sv_Endpoints svc).
     parseDownstreamTargetForValidation '' db'' = Inr (sv_ID svc, ep_Path ep)"
proof -
  obtain s' where s': "ValidateScenario demo_two = Inr s'" using demo_two_valid by (auto simp: accepted_def split: sum.splits)
  have "\<forall>svc \<in> set (sc_Services demo_two). CHR '':'' \<notin> set (sv_ID svc)"
    by (simp add: demo_two_def demo_scenario_def demo_service_def)
  moreover have "'' db'' \<in> wl_To ` set (sc_Workload s') \<or>
      (\<exists>svc \<in> set (sc_Services demo_two). \<exists>ep \<in> set (sv_Endpoints svc). '' db'' \<in> dc_To ` set (ep_Downstream ep))"
    by (simp add: demo_two_def demo_scenario_def demo_service_def demo_endpoint_def)
  ultimately show ?thesis by (rule validated_targets_resolve [OF s'])
qed

text \<open>With a colon in a service identifier the check of the concatenated spelling is too weak: this
  scenario is accepted although the service \<open>a\<close> has no endpoint \<open>b:c\<close>.\<close>

definition colon_alias :: scenario where
  "colon_alias = demo_scenario [demo_service ''a'' [demo_endpoint ''/'' [''a:b:c'']],
     demo_service ''a:b'' [demo_endpoint ''c'' []]] ''a:/''"

lemma colon_alias_target: "parseDownstreamTargetForValidation ''a:b:c'' = Inr (''a'', ''b:c'')"
  by code_simp

lemma colon_alias_valid: "accepted (ValidateScenario colon_alias)"
  by code_simp

lemma colon_alias_accepted:
  "accepted (ValidateScenario colon_alias) \<and>
   parseDownstreamTargetForValidation ''a:b:c'' = Inr (''a'', ''b:c'') \<and>
   \<not> (\<exists>svc \<in> set (sc_Services colon_alias). sv_ID svc = ''a'' \<and> ''b:c'' \<in> ep_Path ` set (sv_Endpoints svc))"
  using colon_alias_valid colon_alias_target
  by (simp add: colon_alias_def demo_scenario_def demo_service_def demo_endpoint_def)

end
