(* ===== verification/Service_Graph.thy ===== *)
theory Service_Graph
  imports Scenario_Validation Sim_Models
begin

text \<open>
  The service graph of \<open>internal/interaction/graph.go\<close> and \<open>resolver.go\<close>. A Go map is ranged over in an
  order of the run time's choice, so \<open>validateSyncAcyclic\<close> takes the order of the endpoint keys as an
  argument. The depth-first search carries its two mutable maps as the list of visited keys and the
  list of keys on the recursion stack; that it terminates is proved from the finitely many
  unvisited keys. The properties say that the search finds a cycle exactly when there is one, what
  \<open>NewGraph\<close> accepts, and that resolution loses no call.
\<close>

record edge =
  ed_FromServiceID :: string
  ed_FromPath :: string
  ed_ToServiceID :: string
  ed_ToPath :: string
  ed_Call :: downstream_call

record graph =
  gr_services :: "(string, service) gomap"
  gr_endpoints :: "(string, endpoint) gomap"
  gr_edges :: "(string, edge list) gomap"

record resolved_call =
  rv_ServiceID :: string
  rv_Path :: string
  rv_Call :: downstream_call

definition endpointKey :: "string \<Rightarrow> string \<Rightarrow> string" where
  "endpointKey serviceID path = serviceID @ '':'' @ path"

definition ParseDownstreamTarget :: "string \<Rightarrow> go_error + string \<times> string" where
  "ParseDownstreamTarget target0 =
     (let target = trim_space target0
      in if target = [] then Inl (Err ''downstream target cannot be empty'')
         else if CHR '':'' \<in> set target
         then let (a, b) = split_first (CHR '':'') target; serviceID = trim_space a; path = trim_space b
              in if serviceID = [] then Inl (Err ''invalid downstream target format: %s (serviceID must be non-empty)'')
                 else if path = [] then Inl (Err ''invalid downstream target format: %s (path must be non-empty)'')
                 else Inr (serviceID, path)
         else Inr (target, ''/''))"

definition createEdge :: "graph \<Rightarrow> string \<Rightarrow> string \<Rightarrow> downstream_call \<Rightarrow> go_error + edge" where
  "createEdge g fromServiceID fromPath call =
     (case ParseDownstreamTarget (dc_To call) of
        Inl _ \<Rightarrow> Inl (Err ''invalid downstream target %q: %w'')
      | Inr (toServiceID, toPath) \<Rightarrow>
          if gm_get (gr_services g) toServiceID = None then Inl (Err ''downstream service %q does not exist'')
          else Inr \<lparr>ed_FromServiceID = fromServiceID, ed_FromPath = fromPath,
                    ed_ToServiceID = toServiceID, ed_ToPath = toPath, ed_Call = call\<rparr>)"

definition edges_of :: "graph \<Rightarrow> string \<Rightarrow> edge list" where
  "edges_of g key = gm_get_or [] (gr_edges g) key"

definition to_key :: "edge \<Rightarrow> string" where
  "to_key e = endpointKey (ed_ToServiceID e) (ed_ToPath e)"

section \<open>Depth-first search\<close>

text \<open>The loop of \<open>dfs\<close> over the edges of a key that is visited and on the stack, and the end of
  \<open>dfs\<close>, which takes the key off the stack.\<close>

function dfs_edges ::
  "graph \<Rightarrow> string \<Rightarrow> edge list \<Rightarrow> string list \<times> string list \<Rightarrow> go_error + string list \<times> string list" where
  "dfs_edges g key [] (visited, recStack) = Inr (visited, removeAll key recStack)"
| "dfs_edges g key (edge # edges) (visited, recStack) =
     (if dc_IsAsync (ed_Call edge) then dfs_edges g key edges (visited, recStack)
      else if to_key edge \<notin> set visited
      then (case dfs_edges g (to_key edge) (edges_of g (to_key edge)) (to_key edge # visited, to_key edge # recStack) of
              Inl err \<Rightarrow> Inl err
            | Inr st \<Rightarrow> dfs_edges g key edges st)
      else if to_key edge \<in> set recStack then Inl (Err ''cycle detected: %s -> %s'')
      else dfs_edges g key edges (visited, recStack))"
  by pat_completeness auto

lemma dfs_edges_visited:
  "dfs_edges_dom (g, key, edges, st) \<Longrightarrow>
   (case dfs_edges g key edges st of Inl _ \<Rightarrow> True | Inr st' \<Rightarrow> set (fst st) \<subseteq> set (fst st'))"
proof (induction g key edges st rule: dfs_edges.pinduct)
  case (2 g key edge edges visited recStack)
  show ?case
  proof (cases "dc_IsAsync (ed_Call edge) \<or> to_key edge \<in> set visited")
    case True
    then show ?thesis using 2 by (auto simp: dfs_edges.psimps split: sum.splits)
  next
    case False
    then show ?thesis
      using 2 by (auto simp: dfs_edges.psimps split: sum.splits)
  qed
qed (simp add: dfs_edges.psimps)

definition edge_targets :: "graph \<Rightarrow> string set" where
  "edge_targets g = to_key ` set (concat (map snd (gr_edges g)))"

lemma edges_of_targets: "to_key ` set (edges_of g k) \<subseteq> edge_targets g"
proof (cases "gm_get (gr_edges g) k")
  case (Some es)
  then have "set es \<subseteq> set (concat (map snd (gr_edges g)))" by (force dest: map_of_SomeD)
  then show ?thesis using Some by (auto simp: edges_of_def gm_get_or_def edge_targets_def)
qed (simp add: edges_of_def gm_get_or_def)

lemma finite_edge_targets [simp]: "finite (edge_targets g)"
  by (simp add: edge_targets_def)

definition dfs_order :: "((graph \<times> string \<times> edge list \<times> string list \<times> string list) \<times>
    (graph \<times> string \<times> edge list \<times> string list \<times> string list)) set" where
  "dfs_order = inv_image (finite_psubset <*lex*> less_than)
     (\<lambda>(g, key, edges, st). ((edge_targets g \<union> to_key ` set edges) - set (fst st), length edges))"

lemma dfs_order_next:
  assumes "set visited \<subseteq> set visited'"
  shows "((g, key, edges, visited', recStack'), (g, key, edge # edges, visited, recStack)) \<in> dfs_order"
proof -
  let ?A = "(edge_targets g \<union> to_key ` set edges) - set visited'"
  let ?B = "(edge_targets g \<union> to_key ` set (edge # edges)) - set visited"
  have "?A \<subseteq> ?B" "finite ?B" using assms by auto
  then have "?A = ?B \<or> (?A, ?B) \<in> finite_psubset" unfolding finite_psubset_def by blast
  then show ?thesis by (auto simp: dfs_order_def)
qed

lemma dfs_order_descend:
  assumes "to_key edge \<notin> set visited"
  shows "((g, to_key edge, edges_of g (to_key edge), to_key edge # visited, recStack'),
      (g, key, edge # edges, visited, recStack)) \<in> dfs_order"
proof -
  let ?A = "(edge_targets g \<union> to_key ` set (edges_of g (to_key edge))) - set (to_key edge # visited)"
  let ?B = "(edge_targets g \<union> to_key ` set (edge # edges)) - set visited"
  have "?A \<subseteq> ?B" "to_key edge \<in> ?B" "to_key edge \<notin> ?A" "finite ?B"
    using assms edges_of_targets [of g "to_key edge"] by auto
  then have "(?A, ?B) \<in> finite_psubset" unfolding finite_psubset_def by blast
  then show ?thesis unfolding dfs_order_def inv_image_def in_lex_prod by simp
qed

termination dfs_edges
proof (relation dfs_order)
  show "wf dfs_order" unfolding dfs_order_def by (intro wf_inv_image wf_lex_prod wf_finite_psubset wf_less_than)
next
  fix g key edge edges and visited recStack :: "string list" and st
  assume "dfs_edges_dom (g, to_key edge, edges_of g (to_key edge), to_key edge # visited, to_key edge # recStack)"
    and "dfs_edges g (to_key edge) (edges_of g (to_key edge)) (to_key edge # visited, to_key edge # recStack) = Inr st"
  then have "set visited \<subseteq> set (fst st)" using dfs_edges_visited by fastforce
  then show "((g, key, edges, st), g, key, edge # edges, visited, recStack) \<in> dfs_order"
    by (cases st) (simp add: dfs_order_next)
qed (simp_all add: dfs_order_next dfs_order_descend)

declare dfs_edges.simps(2) [simp del]

text \<open>The synchronous call relation between endpoint keys, and the colours of the search: a key that is
  visited and off the stack is finished.\<close>

definition sync_rel :: "graph \<Rightarrow> (string \<times> string) set" where
  "sync_rel g = {(k, to_key e) | k e. e \<in> set (edges_of g k) \<and> \<not> dc_IsAsync (ed_Call e)}"

lemma sync_relI: "e \<in> set (edges_of g k) \<Longrightarrow> \<not> dc_IsAsync (ed_Call e) \<Longrightarrow> (k, to_key e) \<in> sync_rel g"
  by (auto simp: sync_rel_def)

definition finished :: "string list \<times> string list \<Rightarrow> string set" where
  "finished st = set (fst st) - set (snd st)"

definition dfs_inv :: "graph \<Rightarrow> string list \<times> string list \<Rightarrow> bool" where
  "dfs_inv g st \<longleftrightarrow> set (snd st) \<subseteq> set (fst st) \<and> distinct (snd st) \<and>
     sync_rel g `` finished st \<subseteq> finished st \<and> acyclic (Restr (sync_rel g) (finished st))"

lemma acyclic_insert_closed:
  assumes ac: "acyclic (Restr R B)" and cl: "R `` B \<subseteq> B" "R `` {k} \<subseteq> B" and k: "k \<notin> B"
  shows "acyclic (Restr R (insert k B))"
proof (rule acyclicI, intro allI notI)
  let ?S = "Restr R (insert k B)"
  have stay: "y \<in> B \<and> (x \<in> B \<longrightarrow> (x, y) \<in> (Restr R B)\<^sup>+)" if "(x, y) \<in> ?S\<^sup>+" for x y
    using that
  proof (induction rule: trancl_induct)
    case (base y)
    then show ?case using cl by auto
  next
    case (step y z)
    then have "z \<in> B" "(y, z) \<in> Restr R B" using cl by auto
    then show ?case using step.IH by (auto intro: trancl_into_trancl)
  qed
  fix x assume "(x, x) \<in> ?S\<^sup>+"
  from stay [OF this] ac show False by (auto simp: acyclic_def)
qed

lemma dfs_edges_stack:
  "dfs_edges g key edges st = Inr st' \<Longrightarrow> set (snd st') \<subseteq> set (snd st) - {key}"
proof (induction g key edges st arbitrary: st' rule: dfs_edges.induct)
  case (2 g key edge edges visited recStack)
  show ?case
  proof (cases "dc_IsAsync (ed_Call edge) \<or> to_key edge \<in> set visited")
    case True
    with 2(1,4,5) show ?thesis by (auto simp: dfs_edges.simps(2) split: if_splits)
  next
    case False
    then obtain st1 where st1: "dfs_edges g (to_key edge) (edges_of g (to_key edge))
        (to_key edge # visited, to_key edge # recStack) = Inr st1" "dfs_edges g key edges st1 = Inr st'"
      using 2(5) by (auto simp: dfs_edges.simps(2) split: sum.splits)
    from 2(2) [OF _ _ st1(1)] 2(3) [OF _ _ st1] False show ?thesis by fastforce
  qed
qed auto

lemma dfs_edges_finds_cycle:
  assumes "dfs_edges g key edges st = Inl err" "set edges \<subseteq> set (edges_of g key)"
    "\<forall>s \<in> set (snd st). (s, key) \<in> (sync_rel g)\<^sup>*"
  shows "\<not> acyclic (sync_rel g) \<and> err = Err ''cycle detected: %s -> %s''"
  using assms
proof (induction g key edges st rule: dfs_edges.induct)
  case (2 g key edge edges visited recStack)
  let ?to = "to_key edge"
  let ?inner = "dfs_edges g ?to (edges_of g ?to) (?to # visited, ?to # recStack)"
  show ?case
  proof (cases "dc_IsAsync (ed_Call edge)")
    case True
    then show ?thesis using 2(1) 2(5-7) by (simp add: dfs_edges.simps(2))
  next
    case sync: False
    have e: "(key, ?to) \<in> sync_rel g" using 2(6) sync by (auto intro: sync_relI)
    consider "?to \<notin> set visited" | "?to \<in> set visited" "?to \<in> set recStack"
      | "?to \<in> set visited" "?to \<notin> set recStack" by blast
    then show ?thesis
    proof cases
      case 1
      show ?thesis
      proof (cases ?inner)
        case (Inl err')
        have "\<forall>s \<in> set (snd (?to # visited, ?to # recStack)). (s, ?to) \<in> (sync_rel g)\<^sup>*"
          using 2(7) e by (auto intro: rtrancl_into_rtrancl)
        moreover have "err' = err" using 2(5) sync 1 Inl by (simp add: dfs_edges.simps(2))
        ultimately show ?thesis using 2(2) [OF sync 1] Inl by simp
      next
        case (Inr st1)
        have "dfs_edges g key edges st1 = Inl err" using 2(5) sync 1 Inr by (simp add: dfs_edges.simps(2))
        moreover have "\<forall>s \<in> set (snd st1). (s, key) \<in> (sync_rel g)\<^sup>*"
          using dfs_edges_stack [OF Inr] 2(7) by auto
        ultimately show ?thesis using 2(3) [OF sync 1 Inr] 2(6) by simp
      qed
    next
      case 2
      then have "(?to, key) \<in> (sync_rel g)\<^sup>*" using \<open>\<forall>s \<in> set (snd (visited, recStack)). _\<close> by simp
      then have "(key, key) \<in> (sync_rel g)\<^sup>+" using e by (rule rtrancl_into_trancl2 [rotated])
      then show ?thesis
        using 2 sync \<open>dfs_edges g key (edge # edges) (visited, recStack) = Inl err\<close>
        by (auto simp: acyclic_def dfs_edges.simps(2))
    next
      case 3
      then show ?thesis using 2(4) [OF sync] 2(5-7) sync by (simp add: dfs_edges.simps(2))
    qed
  qed
qed simp

lemma dfs_edges_done:
  assumes "dfs_edges g key edges st = Inr st'" "dfs_inv g st" "snd st = key # rest"
    "set edges \<subseteq> set (edges_of g key)"
    "\<forall>e \<in> set (edges_of g key). e \<in> set edges \<or> dc_IsAsync (ed_Call e) \<or> to_key e \<in> finished st"
  shows "dfs_inv g st' \<and> snd st' = rest \<and> set (fst st) \<subseteq> set (fst st')"
  using assms
proof (induction g key edges st arbitrary: st' rest rule: dfs_edges.induct)
  case (1 g key visited recStack)
  let ?B = "finished (visited, recStack)"
  have r: "recStack = key # rest" "key \<notin> set rest" "set recStack \<subseteq> set visited"
    using 1(2,3) by (auto simp: dfs_inv_def)
  then have st': "st' = (visited, rest)" using 1(1) by (auto simp: removeAll_id)
  then have B: "finished st' = insert key ?B" using r by (auto simp: finished_def)
  have "sync_rel g `` {key} \<subseteq> ?B" using 1(5) by (auto simp: sync_rel_def)
  moreover have "key \<notin> ?B" using r by (auto simp: finished_def)
  ultimately show ?case using 1(2) r acyclic_insert_closed [of "sync_rel g" ?B key]
    unfolding dfs_inv_def B by (auto simp: st')
next
  case (2 g key edge edges visited recStack)
  let ?to = "to_key edge"
  show ?case
  proof (cases "dc_IsAsync (ed_Call edge)")
    case True
    then have "dfs_edges g key edges (visited, recStack) = Inr st'" using 2(5) by (simp add: dfs_edges.simps(2))
    moreover have "\<forall>e \<in> set (edges_of g key). e \<in> set edges \<or> dc_IsAsync (ed_Call e) \<or>
        to_key e \<in> finished (visited, recStack)" using 2(9) True by auto
    moreover have "set edges \<subseteq> set (edges_of g key)" using 2(8) by simp
    ultimately show ?thesis using 2(1) [OF True _ 2(6,7)] by blast
  next
    case sync: False
    show ?thesis
    proof (cases "?to \<in> set visited")
      case True
      then have "?to \<in> finished (visited, recStack)" and "dfs_edges g key edges (visited, recStack) = Inr st'"
        using 2(5) sync by (auto simp: dfs_edges.simps(2) finished_def split: if_splits)
      moreover from this have "\<forall>e \<in> set (edges_of g key). e \<in> set edges \<or> dc_IsAsync (ed_Call e) \<or>
        to_key e \<in> finished (visited, recStack)" using 2(9) by auto
      moreover have "set edges \<subseteq> set (edges_of g key)" using 2(8) by simp
      moreover have "?to \<notin> set recStack" using 2(5) sync True by (auto simp: dfs_edges.simps(2))
      ultimately show ?thesis using 2(4) [OF sync _ _ _ 2(6,7)] True by blast
    next
      case False
      then obtain st1 where st1: "dfs_edges g ?to (edges_of g ?to) (?to # visited, ?to # recStack) = Inr st1"
        and st': "dfs_edges g key edges st1 = Inr st'"
        using 2(5) sync by (auto simp: dfs_edges.simps(2) split: sum.splits)
      have "finished (?to # visited, ?to # recStack) = finished (visited, recStack)"
        using False by (auto simp: finished_def)
      moreover have "?to \<notin> set recStack" using 2(6) False by (auto simp: dfs_inv_def)
      ultimately have "dfs_inv g (?to # visited, ?to # recStack)" using 2(6) by (auto simp: dfs_inv_def)
      from 2(2) [OF sync False st1 this, of recStack]
      have i1: "dfs_inv g st1" "snd st1 = recStack" "set (?to # visited) \<subseteq> set (fst st1)" by auto
      have sub: "finished (visited, recStack) \<subseteq> finished st1" "?to \<in> finished st1"
        using i1 \<open>?to \<notin> set recStack\<close> by (auto simp: finished_def)
      have "\<forall>e \<in> set (edges_of g key). e \<in> set edges \<or> dc_IsAsync (ed_Call e) \<or> to_key e \<in> finished st1"
        using 2(9) sub by auto
      moreover have "set edges \<subseteq> set (edges_of g key)" "snd st1 = key # rest" using 2(7,8) i1 by auto
      ultimately have "dfs_inv g st' \<and> snd st' = rest \<and> set (fst st1) \<subseteq> set (fst st')"
        using 2(3) [OF sync False st1 st' i1(1)] by blast
      then show ?thesis using i1(3) by auto
    qed
  qed
qed

definition dfs :: "graph \<Rightarrow> string \<Rightarrow> string list \<times> string list \<Rightarrow> go_error + string list \<times> string list" where
  "dfs g key st = (case st of (visited, recStack) \<Rightarrow> dfs_edges g key (edges_of g key) (key # visited, key # recStack))"

fun sync_acyclic_loop :: "graph \<Rightarrow> string list \<Rightarrow> string list \<times> string list \<Rightarrow> go_error + unit" where
  "sync_acyclic_loop g [] st = Inr ()"
| "sync_acyclic_loop g (key # keys) st =
     (if key \<notin> set (fst st)
      then (case dfs g key st of Inl err \<Rightarrow> Inl err | Inr st' \<Rightarrow> sync_acyclic_loop g keys st')
      else sync_acyclic_loop g keys st)"

definition validateSyncAcyclic :: "string list \<Rightarrow> graph \<Rightarrow> go_error + unit" where
  "validateSyncAcyclic order g = sync_acyclic_loop g order ([], [])"

lemma dfs_root:
  assumes "dfs g key st = r" "dfs_inv g st" "snd st = []" "key \<notin> set (fst st)"
  shows "(case r of Inl err \<Rightarrow> \<not> acyclic (sync_rel g) \<and> err = Err ''cycle detected: %s -> %s''
    | Inr st' \<Rightarrow> dfs_inv g st' \<and> snd st' = [] \<and> set (key # fst st) \<subseteq> set (fst st'))"
proof -
  obtain visited where st: "st = (visited, [])" using assms(3) by (cases st) auto
  have "finished (key # visited, [key]) = finished st" using assms(4) by (auto simp: finished_def st)
  then have i: "dfs_inv g (key # visited, [key])" using assms(2) by (simp add: dfs_inv_def)
  have r: "dfs_edges g key (edges_of g key) (key # visited, [key]) = r" using assms(1) by (simp add: dfs_def st)
  show ?thesis
  proof (cases r)
    case (Inl err)
    then show ?thesis using dfs_edges_finds_cycle [of g key "edges_of g key" "(key # visited, [key])"] r by simp
  next
    case (Inr st')
    then show ?thesis using dfs_edges_done [of g key _ "(key # visited, [key])" st' "[]"] r i st by simp
  qed
qed

lemma sync_acyclic_loop_cases:
  assumes "dfs_inv g st" "snd st = []"
  shows "case sync_acyclic_loop g keys st of Inl err \<Rightarrow> \<not> acyclic (sync_rel g) \<and> err = Err ''cycle detected: %s -> %s''
    | Inr _ \<Rightarrow> \<exists>st'. dfs_inv g st' \<and> snd st' = [] \<and> set keys \<union> set (fst st) \<subseteq> set (fst st')"
  using assms
proof (induction keys arbitrary: st)
  case (Cons key keys)
  show ?case
  proof (cases "key \<in> set (fst st)")
    case True
    then show ?thesis using Cons.IH [OF Cons.prems] by (auto split: sum.splits)
  next
    case False
    note d = dfs_root [OF refl Cons.prems False]
    show ?thesis
    proof (cases "dfs g key st")
      case (Inl err)
      then show ?thesis using d False by simp
    next
      case (Inr st')
      then show ?thesis using d Cons.IH [of st'] False by (fastforce split: sum.splits)
    qed
  qed
qed auto

text \<open>The search reports a cycle exactly when the synchronous calls have one, whatever the order in
  which it visits the keys, as long as it visits every key that has calls.\<close>

lemma validateSyncAcyclic_iff:
  assumes "Domain (sync_rel g) \<subseteq> set order"
  shows "validateSyncAcyclic order g =
    (if acyclic (sync_rel g) then Inr () else Inl (Err ''cycle detected: %s -> %s''))"
proof -
  have "dfs_inv g ([], [])" by (simp add: dfs_inv_def finished_def acyclic_def)
  from sync_acyclic_loop_cases [OF this, of order]
  have r: "case validateSyncAcyclic order g of Inl err \<Rightarrow> \<not> acyclic (sync_rel g) \<and> err = Err ''cycle detected: %s -> %s''
    | Inr _ \<Rightarrow> \<exists>st'. dfs_inv g st' \<and> snd st' = [] \<and> set order \<subseteq> set (fst st')"
    by (simp add: validateSyncAcyclic_def split: sum.splits)
  have "acyclic (sync_rel g)" if "dfs_inv g st'" "snd st' = []" "set order \<subseteq> set (fst st')" for st'
  proof -
    have "Domain (sync_rel g) \<subseteq> finished st'" using that assms by (auto simp: finished_def)
    then have "Restr (sync_rel g) (finished st') = sync_rel g" using that(1) by (auto simp: dfs_inv_def)
    then show ?thesis using that(1) by (simp add: dfs_inv_def)
  qed
  then show ?thesis using r by (cases "validateSyncAcyclic order g") auto
qed

section \<open>Construction of the graph\<close>

definition index_service :: "service \<Rightarrow> graph \<Rightarrow> graph" where
  "index_service svc g = g\<lparr>gr_services := gm_put (sv_ID svc) svc (gr_services g),
     gr_endpoints := fold (\<lambda>ep. gm_put (endpointKey (sv_ID svc) (ep_Path ep)) ep) (sv_Endpoints svc) (gr_endpoints g)\<rparr>"

definition index_services :: "service list \<Rightarrow> graph" where
  "index_services svcs = fold index_service svcs \<lparr>gr_services = [], gr_endpoints = [], gr_edges = []\<rparr>"

text \<open>The second pass runs over the services, their endpoints and the calls of these; a failing call
  ends all three loops.\<close>

definition calls_of :: "service list \<Rightarrow> (string \<times> string \<times> downstream_call) list" where
  "calls_of svcs = [(sv_ID svc, ep_Path ep, ds). svc \<leftarrow> svcs, ep \<leftarrow> sv_Endpoints svc, ds \<leftarrow> ep_Downstream ep]"

definition append_edge :: "string \<Rightarrow> edge \<Rightarrow> graph \<Rightarrow> graph" where
  "append_edge key edge g = g\<lparr>gr_edges := gm_put key (edges_of g key @ [edge]) (gr_edges g)\<rparr>"

fun link_calls :: "(string \<times> string \<times> downstream_call) list \<Rightarrow> graph \<Rightarrow> go_error + graph" where
  "link_calls [] g = Inr g"
| "link_calls ((svc, path, ds) # calls) g =
     (case createEdge g svc path ds of
        Inl _ \<Rightarrow> Inl (Err ''failed to create edge from %s:%s: %w'')
      | Inr edge \<Rightarrow> link_calls calls (append_edge (endpointKey svc path) edge g))"

definition NewGraph :: "(string list \<Rightarrow> string list) \<Rightarrow> scenario \<Rightarrow> go_error + graph" where
  "NewGraph range_order s =
     (case link_calls (calls_of (sc_Services s)) (index_services (sc_Services s)) of
        Inl err \<Rightarrow> Inl err
      | Inr g \<Rightarrow>
          (case validateSyncAcyclic (range_order (gm_keys (gr_endpoints g))) g of
             Inl _ \<Rightarrow> Inl (Err ''service graph contains synchronous cycles: %w'')
           | Inr _ \<Rightarrow> Inr g))"

definition GetService :: "graph \<Rightarrow> string \<Rightarrow> service option" where
  "GetService g serviceID = gm_get (gr_services g) serviceID"

definition GetEndpoint :: "graph \<Rightarrow> string \<Rightarrow> string \<Rightarrow> endpoint option" where
  "GetEndpoint g serviceID path = gm_get (gr_endpoints g) (endpointKey serviceID path)"

definition GetDownstreamEdges :: "graph \<Rightarrow> string \<Rightarrow> string \<Rightarrow> edge list" where
  "GetDownstreamEdges g serviceID path = edges_of g (endpointKey serviceID path)"

definition ResolveDownstreamCalls :: "graph \<Rightarrow> string \<Rightarrow> string \<Rightarrow> resolved_call list" where
  "ResolveDownstreamCalls g serviceID path =
     [\<lparr>rv_ServiceID = ed_ToServiceID e, rv_Path = ed_ToPath e, rv_Call = ed_Call e\<rparr>.
        e \<leftarrow> GetDownstreamEdges g serviceID path, GetService g (ed_ToServiceID e) \<noteq> None]"

definition ValidateDownstreamTarget :: "graph \<Rightarrow> string \<Rightarrow> go_error + unit" where
  "ValidateDownstreamTarget g target =
     (case ParseDownstreamTarget target of
        Inl err \<Rightarrow> Inl err
      | Inr (serviceID, path) \<Rightarrow>
          if GetService g serviceID = None then Inl (Err ''downstream service %q does not exist'') else Inr ())"

subsection \<open>What the passes build\<close>

lemma index_endpoints_keys [simp]:
  "fst ` set (fold (\<lambda>ep. gm_put (endpointKey i (ep_Path ep)) ep) eps m) =
   fst ` set m \<union> endpointKey i ` ep_Path ` set eps"
  by (induction eps arbitrary: m) auto

definition endpoint_keys :: "service list \<Rightarrow> string set" where
  "endpoint_keys svcs = (\<Union>svc \<in> set svcs. endpointKey (sv_ID svc) ` ep_Path ` set (sv_Endpoints svc))"

lemma index_fold:
  "fst ` set (gr_services (fold index_service svcs g)) = fst ` set (gr_services g) \<union> sv_ID ` set svcs"
  "fst ` set (gr_endpoints (fold index_service svcs g)) = fst ` set (gr_endpoints g) \<union> endpoint_keys svcs"
  "gr_edges (fold index_service svcs g) = gr_edges g"
  by (induction svcs arbitrary: g) (simp_all add: index_service_def endpoint_keys_def Un_assoc)

lemma index_services_shape [simp]:
  "fst ` set (gr_services (index_services svcs)) = sv_ID ` set svcs"
  "fst ` set (gr_endpoints (index_services svcs)) = endpoint_keys svcs"
  "gr_edges (index_services svcs) = []"
  by (simp_all add: index_services_def index_fold)

text \<open>The edge of a call whose target parses, and the calls that become edges.\<close>

definition edge_of :: "string \<times> string \<times> downstream_call \<Rightarrow> edge" where
  "edge_of c = (case c of (svc, path, ds) \<Rightarrow>
     (case ParseDownstreamTarget (dc_To ds) of
        Inr (toServiceID, toPath) \<Rightarrow> \<lparr>ed_FromServiceID = svc, ed_FromPath = path, ed_ToServiceID = toServiceID,
          ed_ToPath = toPath, ed_Call = ds\<rparr>
      | Inl _ \<Rightarrow> \<lparr>ed_FromServiceID = svc, ed_FromPath = path, ed_ToServiceID = [], ed_ToPath = [], ed_Call = ds\<rparr>))"

definition from_key :: "string \<times> string \<times> downstream_call \<Rightarrow> string" where
  "from_key c = endpointKey (fst c) (fst (snd c))"

definition target_declared :: "string set \<Rightarrow> string \<times> string \<times> downstream_call \<Rightarrow> bool" where
  "target_declared ids c \<longleftrightarrow>
     (case ParseDownstreamTarget (dc_To (snd (snd c))) of Inl _ \<Rightarrow> False | Inr (svc, path) \<Rightarrow> svc \<in> ids)"

lemma createEdge_iff:
  "createEdge g svc path ds =
     (if target_declared (fst ` set (gr_services g)) (svc, path, ds) then Inr (edge_of (svc, path, ds))
      else case ParseDownstreamTarget (dc_To ds) of
        Inl _ \<Rightarrow> Inl (Err ''invalid downstream target %q: %w'')
      | Inr _ \<Rightarrow> Inl (Err ''downstream service %q does not exist''))"
  by (auto simp: createEdge_def target_declared_def edge_of_def map_of_eq_None_iff split: sum.splits)

lemma append_edge_simps [simp]:
  "gr_services (append_edge key e g) = gr_services g" "gr_endpoints (append_edge key e g) = gr_endpoints g"
  "edges_of (append_edge key e g) k = (if k = key then edges_of g k @ [e] else edges_of g k)"
  by (simp_all add: append_edge_def edges_of_def)

lemma link_calls_cases:
  "case link_calls calls g of
     Inl err \<Rightarrow> err = Err ''failed to create edge from %s:%s: %w'' \<and>
       \<not> (\<forall>c \<in> set calls. target_declared (fst ` set (gr_services g)) c)
   | Inr g' \<Rightarrow> (\<forall>c \<in> set calls. target_declared (fst ` set (gr_services g)) c) \<and>
       gr_services g' = gr_services g \<and> gr_endpoints g' = gr_endpoints g \<and>
       (\<forall>k. edges_of g' k = edges_of g k @ map edge_of (filter (\<lambda>c. from_key c = k) calls))"
proof (induction calls g rule: link_calls.induct)
  case (2 svc path ds calls g)
  show ?case
  proof (cases "target_declared (fst ` set (gr_services g)) (svc, path, ds)")
    case True
    then have e: "createEdge g svc path ds = Inr (edge_of (svc, path, ds))" by (simp add: createEdge_iff)
    from 2 [OF e] True e show ?thesis by (auto simp: from_key_def split: sum.splits)
  next
    case False
    then have "\<exists>err. createEdge g svc path ds = Inl err" by (auto simp: createEdge_iff split: sum.split)
    with False show ?thesis by auto
  qed
qed auto

definition call_rel :: "service list \<Rightarrow> (string \<times> string) set" where
  "call_rel svcs = {(from_key c, to_key (edge_of c)) | c. c \<in> set (calls_of svcs) \<and> \<not> dc_IsAsync (snd (snd c))}"

definition targets_declared :: "service list \<Rightarrow> bool" where
  "targets_declared svcs \<longleftrightarrow> (\<forall>c \<in> set (calls_of svcs). target_declared (sv_ID ` set svcs) c)"

definition graph_of :: "service list \<Rightarrow> graph \<Rightarrow> bool" where
  "graph_of svcs g \<longleftrightarrow> gr_services g = gr_services (index_services svcs) \<and>
     gr_endpoints g = gr_endpoints (index_services svcs) \<and>
     (\<forall>k. edges_of g k = map edge_of (filter (\<lambda>c. from_key c = k) (calls_of svcs)))"

lemma ed_Call_edge_of [simp]: "ed_Call (edge_of c) = snd (snd c)"
  by (auto simp: edge_of_def split: prod.split sum.split)

lemma sync_rel_graph_of:
  assumes "graph_of svcs g"
  shows "sync_rel g = call_rel svcs"
proof -
  have e: "set (edges_of g k) = edge_of ` {c \<in> set (calls_of svcs). from_key c = k}" for k
    using assms by (simp add: graph_of_def)
  show ?thesis
  proof (intro set_eqI iffI)
    fix p assume "p \<in> sync_rel g"
    then obtain c where "p = (from_key c, to_key (edge_of c))" "c \<in> set (calls_of svcs)" "\<not> dc_IsAsync (snd (snd c))"
      unfolding sync_rel_def e by auto
    then show "p \<in> call_rel svcs" unfolding call_rel_def by blast
  next
    fix p assume "p \<in> call_rel svcs"
    then obtain c where p: "p = (from_key c, to_key (edge_of c))" and c: "c \<in> set (calls_of svcs)" "\<not> dc_IsAsync (snd (snd c))"
      unfolding call_rel_def by blast
    then have "edge_of c \<in> set (edges_of g (from_key c))" unfolding e by blast
    then show "p \<in> sync_rel g" unfolding p using c(2) by (intro sync_relI) simp_all
  qed
qed

lemma from_key_calls: "c \<in> set (calls_of svcs) \<Longrightarrow> from_key c \<in> endpoint_keys svcs"
  by (force simp: calls_of_def from_key_def endpoint_keys_def)

lemma Domain_call_rel: "Domain (call_rel svcs) \<subseteq> endpoint_keys svcs"
  by (auto simp: call_rel_def from_key_calls)

lemma finite_endpoint_keys [simp]: "finite (endpoint_keys svcs)"
  by (simp add: endpoint_keys_def)

lemma NewGraph_cases:
  assumes "\<And>ks. set (range_order ks) = set ks"
  shows "case NewGraph range_order s of
     Inl err \<Rightarrow> \<not> (targets_declared (sc_Services s) \<and> acyclic (call_rel (sc_Services s))) \<and>
       err = Err (if targets_declared (sc_Services s) then ''service graph contains synchronous cycles: %w''
                  else ''failed to create edge from %s:%s: %w'')
   | Inr g \<Rightarrow> targets_declared (sc_Services s) \<and> acyclic (call_rel (sc_Services s)) \<and> graph_of (sc_Services s) g"
proof -
  let ?svcs = "sc_Services s"
  note l = link_calls_cases [of "calls_of ?svcs" "index_services ?svcs"]
  show ?thesis
  proof (cases "link_calls (calls_of ?svcs) (index_services ?svcs)")
    case (Inl err)
    then show ?thesis using l by (simp add: NewGraph_def targets_declared_def)
  next
    case (Inr g)
    then have g: "targets_declared ?svcs" "graph_of ?svcs g"
      using l by (auto simp: targets_declared_def graph_of_def edges_of_def gm_get_or_def)
    have "fst ` set (gr_endpoints g) = endpoint_keys ?svcs" using g(2) by (simp add: graph_of_def)
    then have "Domain (sync_rel g) \<subseteq> set (range_order (gm_keys (gr_endpoints g)))"
      using Domain_call_rel by (simp add: assms sync_rel_graph_of [OF g(2)])
    from validateSyncAcyclic_iff [OF this] Inr g show ?thesis
      by (simp add: NewGraph_def sync_rel_graph_of [OF g(2)])
  qed
qed

lemma NewGraph_Inr:
  assumes "\<And>ks. set (range_order ks) = set ks"
  shows "NewGraph range_order s = Inr g \<Longrightarrow>
    targets_declared (sc_Services s) \<and> acyclic (call_rel (sc_Services s)) \<and> graph_of (sc_Services s) g"
  using NewGraph_cases [OF assms, of s] by simp

lemma chain_reaches:
  "successively (\<lambda>a b. (a, b) \<in> R) (k # ks) \<Longrightarrow> k' \<in> set ks \<Longrightarrow> (k, k') \<in> R\<^sup>+"
proof (induction ks arbitrary: k)
  case (Cons a ks)
  then show ?case by (cases "k' = a") (auto intro: trancl_into_trancl2)
qed simp

lemma chain_distinct: "successively (\<lambda>a b. (a, b) \<in> R) ks \<Longrightarrow> acyclic R \<Longrightarrow> distinct ks"
proof (induction ks)
  case (Cons k ks)
  then have "k \<notin> set ks" using chain_reaches [of R k ks k] by (auto simp: acyclic_def)
  then show ?case using Cons by (cases ks) auto
qed simp

lemma chain_sources: "successively (\<lambda>a b. (a, b) \<in> R) ks \<Longrightarrow> set (butlast ks) \<subseteq> Domain R"
  by (induction ks rule: induct_list012) auto

subsection \<open>Endpoints with distinct keys\<close>

definition endpoint_pairs :: "service list \<Rightarrow> (string \<times> endpoint) list" where
  "endpoint_pairs svcs = [(sv_ID svc, ep). svc \<leftarrow> svcs, ep \<leftarrow> sv_Endpoints svc]"

definition pair_key :: "string \<times> endpoint \<Rightarrow> string" where
  "pair_key p = endpointKey (fst p) (ep_Path (snd p))"

lemma calls_of_pairs:
  "calls_of svcs = concat (map (\<lambda>p. map (\<lambda>ds. (fst p, ep_Path (snd p), ds)) (ep_Downstream (snd p))) (endpoint_pairs svcs))"
  by (induction svcs) (simp_all add: calls_of_def endpoint_pairs_def comp_def map_concat)

lemma calls_at_key:
  assumes "distinct (map pair_key ps)" "p \<in> set ps"
  shows "filter (\<lambda>c. from_key c = pair_key p)
      (concat (map (\<lambda>p. map (\<lambda>ds. (fst p, ep_Path (snd p), ds)) (ep_Downstream (snd p))) ps)) =
    map (\<lambda>ds. (fst p, ep_Path (snd p), ds)) (ep_Downstream (snd p))"
proof -
  have one: "filter (\<lambda>c. from_key c = pair_key p) (map (\<lambda>ds. (fst q, ep_Path (snd q), ds)) (ep_Downstream (snd q))) =
      (if pair_key q = pair_key p then map (\<lambda>ds. (fst q, ep_Path (snd q), ds)) (ep_Downstream (snd q)) else [])" for q
    by (simp add: filter_map comp_def from_key_def pair_key_def)
  have none: "filter (\<lambda>c. from_key c = pair_key p)
      (concat (map (\<lambda>p. map (\<lambda>ds. (fst p, ep_Path (snd p), ds)) (ep_Downstream (snd p))) qs)) = []"
    if "pair_key p \<notin> pair_key ` set qs" for qs
    using that by (induction qs) (auto simp: one)
  show ?thesis using assms
  proof (induction ps)
    case (Cons q ps)
    show ?case
    proof (cases "q = p")
      case True
      then show ?thesis using Cons.prems none [of ps] by (simp add: one)
    next
      case False
      then have "p \<in> set ps" "pair_key q \<noteq> pair_key p" using Cons.prems by auto
      then show ?thesis using Cons by (simp add: one)
    qed
  qed simp
qed

lemma gm_get_fold_put_other:
  "k \<notin> f ` set ps \<Longrightarrow> gm_get (fold (\<lambda>p. gm_put (f p) (h p)) ps m) k = gm_get m k"
  by (induction ps arbitrary: m) auto

lemma gm_get_fold_put:
  "distinct (map f ps) \<Longrightarrow> p \<in> set ps \<Longrightarrow> gm_get (fold (\<lambda>p. gm_put (f p) (h p)) ps m) (f p) = Some (h p)"
  by (induction ps arbitrary: m) (auto simp: gm_get_fold_put_other)

lemma index_fold_endpoints:
  "gr_endpoints (fold index_service svcs g) =
   fold (\<lambda>p. gm_put (pair_key p) (snd p)) (endpoint_pairs svcs) (gr_endpoints g)"
  by (induction svcs arbitrary: g) (simp_all add: index_service_def endpoint_pairs_def pair_key_def fold_map comp_def)

lemma index_fold_services:
  "gr_services (fold index_service svcs g) = fold (\<lambda>svc. gm_put (sv_ID svc) svc) svcs (gr_services g)"
  by (induction svcs arbitrary: g) (simp_all add: index_service_def)

lemma graph_of_lookup:
  assumes g: "graph_of svcs g" and d: "distinct (map pair_key (endpoint_pairs svcs))"
    and m: "svc \<in> set svcs" "ep \<in> set (sv_Endpoints svc)"
  shows "GetEndpoint g (sv_ID svc) (ep_Path ep) = Some ep"
    "edges_of g (endpointKey (sv_ID svc) (ep_Path ep)) = map (\<lambda>ds. edge_of (sv_ID svc, ep_Path ep, ds)) (ep_Downstream ep)"
proof -
  have p: "(sv_ID svc, ep) \<in> set (endpoint_pairs svcs)" using m by (force simp: endpoint_pairs_def)
  have "GetEndpoint g (sv_ID svc) (ep_Path ep) =
      gm_get (fold (\<lambda>p. gm_put (pair_key p) (snd p)) (endpoint_pairs svcs) []) (pair_key (sv_ID svc, ep))"
    using g by (simp add: GetEndpoint_def graph_of_def index_services_def index_fold_endpoints pair_key_def)
  also have "\<dots> = Some ep" using gm_get_fold_put [OF d p, of snd] by simp
  finally show "GetEndpoint g (sv_ID svc) (ep_Path ep) = Some ep" .
  have "edges_of g (pair_key (sv_ID svc, ep)) =
      map edge_of (filter (\<lambda>c. from_key c = pair_key (sv_ID svc, ep)) (calls_of svcs))"
    using g by (simp add: graph_of_def)
  also have "\<dots> = map (\<lambda>ds. edge_of (sv_ID svc, ep_Path ep, ds)) (ep_Downstream ep)"
    unfolding calls_of_pairs calls_at_key [OF d p] by simp
  finally show "edges_of g (endpointKey (sv_ID svc) (ep_Path ep)) =
      map (\<lambda>ds. edge_of (sv_ID svc, ep_Path ep, ds)) (ep_Downstream ep)" by (simp add: pair_key_def)
qed

lemma graph_of_service: "graph_of svcs g \<Longrightarrow> GetService g i = None \<longleftrightarrow> i \<notin> sv_ID ` set svcs"
  by (simp add: GetService_def graph_of_def gm_get_None_iff)

lemma edge_of_declared:
  assumes "target_declared ids (svc, path, ds)"
  shows "ParseDownstreamTarget (dc_To ds) = Inr (ed_ToServiceID (edge_of (svc, path, ds)), ed_ToPath (edge_of (svc, path, ds))) \<and>
    ed_ToServiceID (edge_of (svc, path, ds)) \<in> ids"
  using assms by (auto simp: target_declared_def edge_of_def split: sum.splits)

definition resolved_edge :: "edge \<Rightarrow> resolved_call" where
  "resolved_edge e = \<lparr>rv_ServiceID = ed_ToServiceID e, rv_Path = ed_ToPath e, rv_Call = ed_Call e\<rparr>"

lemma resolve_all:
  assumes "\<forall>e \<in> set (GetDownstreamEdges g i p). GetService g (ed_ToServiceID e) \<noteq> None"
  shows "ResolveDownstreamCalls g i p = map resolved_edge (GetDownstreamEdges g i p)"
proof -
  have "concat (map (\<lambda>e. if GetService g (ed_ToServiceID e) \<noteq> None then [f e] else []) es) = map f es"
    if "\<forall>e \<in> set es. GetService g (ed_ToServiceID e) \<noteq> None" for es and f :: "edge \<Rightarrow> resolved_call"
    using that by (induction es) auto
  from this [OF assms] show ?thesis by (simp add: ResolveDownstreamCalls_def resolved_edge_def)
qed

subsection \<open>Both parsers of targets\<close>

lemma ParseDownstreamTarget_iff:
  "ParseDownstreamTarget t = Inr r \<longleftrightarrow> parseDownstreamTargetForValidation t = Inr r"
  by (simp add: ParseDownstreamTarget_def parseDownstreamTargetForValidation_def Let_def split: prod.split)

lemma endpointKey_inj:
  assumes "CHR '':'' \<notin> set a" "CHR '':'' \<notin> set c" "endpointKey a b = endpointKey c d"
  shows "a = c \<and> b = d"
proof -
  have "(a, b) = split_first (CHR '':'') (endpointKey a b)"
    using split_first_append [OF assms(1)] by (simp add: endpointKey_def)
  also have "\<dots> = (c, d)" unfolding assms(3) using split_first_append [OF assms(2)] by (simp add: endpointKey_def)
  finally show ?thesis by simp
qed

section \<open>Properties\<close>

text \<open>C8: \<open>NewGraph\<close> builds a graph exactly when every downstream target parses and names a declared service
  and the synchronous calls between endpoints have no cycle, whatever the order in which the run
  time ranges over the endpoint map. Otherwise it returns the error of the first bad edge, or, when
  all edges are good, the error that there is a cycle.\<close>

theorem new_graph_accepts:
  assumes "\<And>ks. set (range_order ks) = set ks"
  shows "(\<exists>g. NewGraph range_order s = Inr g) = (targets_declared (sc_Services s) \<and> acyclic (call_rel (sc_Services s))) \<and>
    (\<not> targets_declared (sc_Services s) \<longrightarrow>
       NewGraph range_order s = Inl (Err ''failed to create edge from %s:%s: %w'')) \<and>
    (targets_declared (sc_Services s) \<and> \<not> acyclic (call_rel (sc_Services s)) \<longrightarrow>
       NewGraph range_order s = Inl (Err ''service graph contains synchronous cycles: %w''))"
proof (cases "NewGraph range_order s")
  case (Inl err)
  then show ?thesis using NewGraph_cases [OF assms, of s] by simp
next
  case (Inr g)
  then show ?thesis using NewGraph_cases [OF assms, of s] by simp
qed

definition demo_cycle :: scenario where
  "demo_cycle = demo_scenario [demo_service ''a'' [demo_endpoint ''/x'' [''b:/y'']],
     demo_service ''b'' [demo_endpoint ''/y'' [''a:/x'']]] ''a:/x''"

lemma demo_two_graph: "\<exists>g. NewGraph rev demo_two = Inr g"
proof -
  have "accepted (NewGraph rev demo_two)" by code_simp
  then show ?thesis by (auto simp: accepted_def split: sum.splits)
qed

theorem new_graph_accepts_witness:
  "acyclic (call_rel (sc_Services demo_two)) \<and> \<not> acyclic (call_rel (sc_Services demo_cycle))"
proof -
  have "targets_declared (sc_Services demo_cycle)" "\<not> accepted (NewGraph rev demo_cycle)" by code_simp+
  then show ?thesis
    using new_graph_accepts [of rev demo_two] new_graph_accepts [of rev demo_cycle] demo_two_graph
    by (auto simp: accepted_def)
qed

text \<open>C25: synchronous calls are never nested deeper than the number of endpoints. Along any chain of
  synchronous calls in a graph that \<open>NewGraph\<close> has built no endpoint repeats, and the chain has at
  most one key more than there are endpoints.\<close>

theorem sync_chain_bounded:
  assumes "\<And>ks. set (range_order ks) = set ks" "NewGraph range_order s = Inr g"
    and "successively (\<lambda>k k'. \<exists>e \<in> set (edges_of g k). \<not> dc_IsAsync (ed_Call e) \<and> to_key e = k') ks"
  shows "distinct ks \<and> length ks \<le> Suc (length (endpoint_pairs (sc_Services s)))"
proof -
  let ?svcs = "sc_Services s"
  from NewGraph_Inr [OF assms(1,2)] have ac: "acyclic (call_rel ?svcs)" and g: "graph_of ?svcs g" by auto
  have eq: "(\<lambda>k k'. \<exists>e \<in> set (edges_of g k). \<not> dc_IsAsync (ed_Call e) \<and> to_key e = k') = (\<lambda>k k'. (k, k') \<in> call_rel ?svcs)"
    unfolding sync_rel_graph_of [OF g, symmetric] by (auto simp: sync_rel_def fun_eq_iff)
  have c: "successively (\<lambda>k k'. (k, k') \<in> call_rel ?svcs) ks" using assms(3) unfolding eq .
  have d: "distinct ks" by (rule chain_distinct [OF c ac])
  have "set (butlast ks) \<subseteq> endpoint_keys ?svcs" using chain_sources [OF c] Domain_call_rel by blast
  also have "endpoint_keys ?svcs = pair_key ` set (endpoint_pairs ?svcs)"
    by (force simp: endpoint_keys_def endpoint_pairs_def pair_key_def)
  also have "\<dots> = set (map pair_key (endpoint_pairs ?svcs))" by simp
  finally have "card (set (butlast ks)) \<le> length (map pair_key (endpoint_pairs ?svcs))"
    by (rule order_trans [OF card_mono [OF finite_set] card_length])
  then show ?thesis using d by (simp add: distinct_card distinct_butlast)
qed

theorem sync_chain_bounded_witness:
  "\<exists>g. NewGraph rev demo_two = Inr g \<and> to_key (hd (edges_of g ''api:/a'')) \<noteq> ''api:/a''"
proof -
  obtain g where g: "NewGraph rev demo_two = Inr g" using demo_two_graph by blast
  have "case NewGraph rev demo_two of Inl _ \<Rightarrow> False | Inr g \<Rightarrow>
      edges_of g ''api:/a'' \<noteq> [] \<and> \<not> dc_IsAsync (ed_Call (hd (edges_of g ''api:/a'')))" by code_simp
  then have e: "edges_of g ''api:/a'' \<noteq> []" "\<not> dc_IsAsync (ed_Call (hd (edges_of g ''api:/a'')))" using g by auto
  then have "\<exists>e \<in> set (edges_of g ''api:/a''). \<not> dc_IsAsync (ed_Call e) \<and> to_key e = to_key (hd (edges_of g ''api:/a''))"
    using hd_in_set by blast
  then have "distinct [''api:/a'', to_key (hd (edges_of g ''api:/a''))]"
    using sync_chain_bounded [OF _ g, of "[''api:/a'', to_key (hd (edges_of g ''api:/a''))]"]
    unfolding successively.simps by simp
  then show ?thesis using g by auto
qed

text \<open>C28: resolution loses no call. When no two endpoints of the scenario share a key, the graph finds
  every endpoint under its service and path, and resolving its downstream calls gives exactly the
  configured calls, in their order, each with the service and path its target names.\<close>

theorem resolve_lossless:
  assumes "\<And>ks. set (range_order ks) = set ks" "NewGraph range_order s = Inr g"
    and "distinct (map pair_key (endpoint_pairs (sc_Services s)))"
    and "svc \<in> set (sc_Services s)" "ep \<in> set (sv_Endpoints svc)"
  shows "GetEndpoint g (sv_ID svc) (ep_Path ep) = Some ep \<and>
    (let rs = ResolveDownstreamCalls g (sv_ID svc) (ep_Path ep) in
     map rv_Call rs = ep_Downstream ep \<and>
     (\<forall>r \<in> set rs. ParseDownstreamTarget (dc_To (rv_Call r)) = Inr (rv_ServiceID r, rv_Path r)))"
proof -
  let ?svcs = "sc_Services s" and ?e = "\<lambda>ds. edge_of (sv_ID svc, ep_Path ep, ds)"
  from NewGraph_Inr [OF assms(1,2)] have t: "targets_declared ?svcs" and g: "graph_of ?svcs g" by auto
  note l = graph_of_lookup [OF g assms(3-5)]
  have "(sv_ID svc, ep_Path ep, ds) \<in> set (calls_of ?svcs)" if "ds \<in> set (ep_Downstream ep)" for ds
    using that assms(4,5) by (force simp: calls_of_def)
  then have d: "ParseDownstreamTarget (dc_To ds) = Inr (ed_ToServiceID (?e ds), ed_ToPath (?e ds)) \<and>
      ed_ToServiceID (?e ds) \<in> sv_ID ` set ?svcs" if "ds \<in> set (ep_Downstream ep)" for ds
    using that t unfolding targets_declared_def by (intro edge_of_declared) blast
  have "ResolveDownstreamCalls g (sv_ID svc) (ep_Path ep) = map (\<lambda>ds. resolved_edge (?e ds)) (ep_Downstream ep)"
    using d by (subst resolve_all) (auto simp: GetDownstreamEdges_def l(2) graph_of_service [OF g])
  then show ?thesis using l(1) d by (simp add: resolved_edge_def comp_def)
qed

theorem resolve_lossless_witness:
  "\<exists>g. NewGraph rev demo_two = Inr g \<and> map (dc_To \<circ> rv_Call) (ResolveDownstreamCalls g ''api'' ''/a'') = ['' db'']"
proof -
  obtain g where g: "NewGraph rev demo_two = Inr g" using demo_two_graph by blast
  have d: "distinct (map pair_key (endpoint_pairs (sc_Services demo_two)))" by code_simp
  have "map rv_Call (ResolveDownstreamCalls g ''api'' ''/a'') = ep_Downstream (demo_endpoint ''/a'' ['' db''])"
    using resolve_lossless [OF _ g d, of "demo_service ''api'' [demo_endpoint ''/a'' ['' db'']]" "demo_endpoint ''/a'' ['' db'']"]
    by (auto simp: demo_two_def demo_scenario_def demo_service_def demo_endpoint_def Let_def)
  then have "map dc_To (map rv_Call (ResolveDownstreamCalls g ''api'' ''/a'')) = ['' db'']"
    by (simp add: demo_endpoint_def)
  then show ?thesis using g by auto
qed

end
