(* ===== verification/Interaction.thy ===== *)
theory Interaction
  imports Service_Graph "HOL-Library.Sublist"
begin

text \<open>
  The branching strategies, call semantics and manager of \<open>internal/interaction\<close>. The generator of
  random numbers is a parameter: \<open>draw\<close> is \<open>rng.Float64\<close> as a function from the state of the generator to
  a number and the next state. A fresh request identifier, which the code draws from the clock and
  from randomness, is an argument. The lemmas bound how often a call is made, and the property that
  spans the packages says that in a validated acyclic scenario every call the manager selects can
  be turned into a request to an endpoint that exists.
\<close>

section \<open>Branching\<close>

datatype branching_strategy =
    DefaultBranchingStrategy
  | ProbabilisticBranchingStrategy "(string, float64) gomap"

definition effective_probability :: "resolved_call \<Rightarrow> float64" where
  "effective_probability call =
     (let prob = dc_Probability (rv_Call call); prob = (if prob \<le> 0 then 1 else prob)
      in if prob > 1 then 1 else prob)"

definition effective_mean :: "resolved_call \<Rightarrow> float64" where
  "effective_mean call = (if dc_CallCountMean (rv_Call call) \<le> 0 then 1 else dc_CallCountMean (rv_Call call))"

definition call_count :: "('r \<Rightarrow> float64 \<times> 'r) \<Rightarrow> resolved_call \<Rightarrow> 'r \<Rightarrow> int \<times> 'r" where
  "call_count draw call rng =
     (let prob = effective_probability call;
          (skip, rng1) = (if prob < 1 then (let (u, rng1) = draw rng in (u \<ge> prob, rng1)) else (False, rng))
      in if skip then (0, rng1)
         else let base = \<lfloor>effective_mean call\<rfloor>; frac = fsub (effective_mean call) (of_int64 base)
              in if frac > 0 then (let (u, rng2) = draw rng1 in (if u < frac then base + 1 else base, rng2))
                 else (base, rng1))"

fun default_SelectCalls ::
  "('r \<Rightarrow> float64 \<times> 'r) \<Rightarrow> resolved_call list \<Rightarrow> 'r \<Rightarrow> resolved_call list \<times> 'r" where
  "default_SelectCalls draw [] rng = ([], rng)"
| "default_SelectCalls draw (call # calls) rng =
     (let (count, rng1) = call_count draw call rng; (selected, rng2) = default_SelectCalls draw calls rng1
      in (replicate (nat count) call @ selected, rng2))"

fun probabilistic_SelectCalls ::
  "('r \<Rightarrow> float64 \<times> 'r) \<Rightarrow> (string, float64) gomap \<Rightarrow> resolved_call list \<Rightarrow> 'r \<Rightarrow> resolved_call list \<times> 'r" where
  "probabilistic_SelectCalls draw probabilities [] rng = ([], rng)"
| "probabilistic_SelectCalls draw probabilities (call # calls) rng =
     (let prob = (case gm_get probabilities (rv_ServiceID call @ '':'' @ rv_Path call) of
                    Some prob \<Rightarrow> prob
                  | None \<Rightarrow> min (effective_mean call) 1);
          (u, rng1) = draw rng;
          (selected, rng2) = probabilistic_SelectCalls draw probabilities calls rng1
      in (if u < prob then call # selected else selected, rng2))"

fun SelectCalls ::
  "('r \<Rightarrow> float64 \<times> 'r) \<Rightarrow> branching_strategy \<Rightarrow> resolved_call list \<Rightarrow> 'r \<Rightarrow> resolved_call list \<times> 'r" where
  "SelectCalls draw DefaultBranchingStrategy calls rng = default_SelectCalls draw calls rng"
| "SelectCalls draw (ProbabilisticBranchingStrategy probabilities) calls rng =
     probabilistic_SelectCalls draw probabilities calls rng"

section \<open>Call semantics\<close>

type_synonym call_mode = string

definition CallModeSync :: call_mode where
  "CallModeSync = ''sync''"

definition CallModeAsync :: call_mode where
  "CallModeAsync = ''async''"

record call_context =
  cc_ParentRequest :: request
  cc_DownstreamCall :: resolved_call
  cc_CallTime :: gotime
  cc_Semantics :: call_mode
  cc_CompletionTime :: gotime
  cc_Blocking :: bool

definition IsSync :: "call_mode \<Rightarrow> bool" where
  "IsSync cs \<longleftrightarrow> cs = CallModeSync"

definition IsAsync :: "call_mode \<Rightarrow> bool" where
  "IsAsync cs \<longleftrightarrow> cs = CallModeAsync"

definition NewCallContext :: "request \<Rightarrow> resolved_call \<Rightarrow> gotime \<Rightarrow> call_mode \<Rightarrow> call_context" where
  "NewCallContext parentRequest downstreamCall callTime semantics =
     \<lparr>cc_ParentRequest = parentRequest, cc_DownstreamCall = downstreamCall, cc_CallTime = callTime,
      cc_Semantics = semantics, cc_CompletionTime = 0, cc_Blocking = IsSync semantics\<rparr>"

definition SetCompletionTime :: "gotime \<Rightarrow> call_context \<Rightarrow> call_context" where
  "SetCompletionTime completionTime cc = cc\<lparr>cc_CompletionTime := completionTime\<rparr>"

definition cc_Duration :: "call_context \<Rightarrow> duration" where
  "cc_Duration cc = (if is_zero_time (cc_CompletionTime cc) then 0 else time_sub (cc_CompletionTime cc) (cc_CallTime cc))"

section \<open>Manager\<close>

record 'r manager =
  mg_graph :: graph
  mg_branchingStrategy :: branching_strategy
  mg_rng :: 'r

definition NewManagerWithSeed ::
  "(string list \<Rightarrow> string list) \<Rightarrow> (int \<Rightarrow> 'r) \<Rightarrow> scenario \<Rightarrow> int \<Rightarrow> go_error + 'r manager" where
  "NewManagerWithSeed range_order new_source s seed =
     (case NewGraph range_order s of
        Inl _ \<Rightarrow> Inl (Err ''failed to create service graph: %w'')
      | Inr g \<Rightarrow> Inr \<lparr>mg_graph = g, mg_branchingStrategy = DefaultBranchingStrategy, mg_rng = new_source seed\<rparr>)"

definition WithBranchingStrategy :: "branching_strategy \<Rightarrow> 'r manager \<Rightarrow> 'r manager" where
  "WithBranchingStrategy strategy m = m\<lparr>mg_branchingStrategy := strategy\<rparr>"

definition GetDownstreamCalls ::
  "('r \<Rightarrow> float64 \<times> 'r) \<Rightarrow> string \<Rightarrow> string \<Rightarrow> 'r manager \<Rightarrow> resolved_call list \<times> 'r manager" where
  "GetDownstreamCalls draw serviceID endpointPath m =
     (let calls = ResolveDownstreamCalls (mg_graph m) serviceID endpointPath
      in if calls = [] then ([], m)
         else let (selected, rng) = SelectCalls draw (mg_branchingStrategy m) calls (mg_rng m)
              in (selected, m\<lparr>mg_rng := rng\<rparr>))"

definition CreateDownstreamRequest ::
  "string \<Rightarrow> request option \<Rightarrow> resolved_call \<Rightarrow> 'r manager \<Rightarrow> go_error + request" where
  "CreateDownstreamRequest requestID parentRequest downstreamCall m =
     (case parentRequest of
        None \<Rightarrow> Inl (Err ''parent request cannot be nil'')
      | Some parent \<Rightarrow>
          if GetService (mg_graph m) (rv_ServiceID downstreamCall) = None
          then Inl (Err ''downstream service %q does not exist'')
          else Inr \<lparr>rq_id = requestID, rq_trace_id = rq_trace_id parent, rq_parent_id = rq_id parent,
                 rq_service_name = rv_ServiceID downstreamCall, rq_endpoint = rv_Path downstreamCall,
                 rq_status = ReqPending, rq_arrival_time = 0, rq_start_time = 0, rq_completion_time = 0,
                 rq_duration = 0, rq_cpu_time_ms = 0, rq_network_latency_ms = 0, rq_queue_time_ms = 0, rq_error = [],
                 rq_metadata = (case gm_get (rq_metadata parent) ''instance_id'' of
                    Some (VString instanceID) \<Rightarrow> [(''parent_instance_id'', VString instanceID)] | _ \<Rightarrow> [])\<rparr>)"

definition ValidateEndpoint :: "string \<Rightarrow> string \<Rightarrow> 'r manager \<Rightarrow> go_error + unit" where
  "ValidateEndpoint serviceID path m =
     (if GetEndpoint (mg_graph m) serviceID path = None then Inl (Err ''endpoint %s:%s does not exist'') else Inr ())"

definition ValidateService :: "string \<Rightarrow> 'r manager \<Rightarrow> go_error + unit" where
  "ValidateService serviceID m =
     (if GetService (mg_graph m) serviceID = None then Inl (Err ''service %q does not exist'') else Inr ())"

section \<open>How often a call is made\<close>

definition count_ok :: "resolved_call \<Rightarrow> int \<Rightarrow> bool" where
  "count_ok call n \<longleftrightarrow>
     (n = 0 \<and> 0 < dc_Probability (rv_Call call) \<and> dc_Probability (rv_Call call) < 1) \<or>
     n = \<lfloor>effective_mean call\<rfloor> \<or> (n = \<lfloor>effective_mean call\<rfloor> + 1 \<and> of_int64 \<lfloor>effective_mean call\<rfloor> \<noteq> effective_mean call)"

lemma call_count_ok: "count_ok call (fst (call_count draw call rng))"
proof -
  have p: "effective_probability call < 1 \<Longrightarrow> 0 < dc_Probability (rv_Call call) \<and> dc_Probability (rv_Call call) < 1"
    by (auto simp: effective_probability_def Let_def split: if_splits)
  have f: "fsub (effective_mean call) (of_int64 \<lfloor>effective_mean call\<rfloor>) > 0 \<Longrightarrow>
      of_int64 \<lfloor>effective_mean call\<rfloor> \<noteq> effective_mean call"
    by (auto simp: fsub_def)
  show ?thesis unfolding count_ok_def call_count_def Let_def
    using p f by (auto split: prod.split)
qed

lemma effective_mean_pos: "0 < effective_mean call"
  by (auto simp: effective_mean_def)

lemma default_SelectCalls_counts:
  "\<exists>ns. length ns = length calls \<and> list_all2 count_ok calls ns \<and>
     fst (default_SelectCalls draw calls rng) = concat (map2 (\<lambda>n c. replicate (nat n) c) ns calls)"
proof (induction calls arbitrary: rng)
  case (Cons call calls)
  obtain n rng1 where n: "call_count draw call rng = (n, rng1)" by (cases "call_count draw call rng")
  from Cons [of rng1] obtain ns where ns: "length ns = length calls" "list_all2 count_ok calls ns"
    "fst (default_SelectCalls draw calls rng1) = concat (map2 (\<lambda>n c. replicate (nat n) c) ns calls)" by blast
  have "count_ok call n" using call_count_ok [of call draw rng] n by simp
  then show ?case using ns n by (intro exI [of _ "n # ns"]) (simp add: case_prod_unfold)
qed simp

lemma SelectCalls_subset: "set (fst (SelectCalls draw st calls rng)) \<subseteq> set calls"
proof -
  have "set (fst (default_SelectCalls draw calls rng)) \<subseteq> set calls"
    by (induction calls arbitrary: rng) (auto simp: case_prod_unfold Let_def)
  moreover have "set (fst (probabilistic_SelectCalls draw ps calls rng)) \<subseteq> set calls" for ps
    by (induction calls arbitrary: rng) (auto simp: case_prod_unfold Let_def)
  ultimately show ?thesis by (cases st) auto
qed

lemma probabilistic_SelectCalls_subseq: "subseq (fst (probabilistic_SelectCalls draw ps calls rng)) calls"
  by (induction calls arbitrary: rng) (auto simp: case_prod_unfold Let_def)

lemma GetDownstreamCalls_subset:
  "set (fst (GetDownstreamCalls draw i p m)) \<subseteq> set (ResolveDownstreamCalls (mg_graph m) i p)"
  using SelectCalls_subset [of draw "mg_branchingStrategy m" "ResolveDownstreamCalls (mg_graph m) i p" "mg_rng m"]
  by (simp add: GetDownstreamCalls_def case_prod_unfold Let_def)

section \<open>Validated scenarios\<close>

lemma call_targets:
  assumes "scenario_ok s" "c \<in> set (calls_of (sc_Services s))"
  shows "target_declared (sv_ID ` set (sc_Services s)) c" "to_key (edge_of c) \<in> endpoint_keys (sc_Services s)"
proof -
  obtain svc ep ds where c: "c = (sv_ID svc, ep_Path ep, ds)" "svc \<in> set (sc_Services s)"
    "ep \<in> set (sv_Endpoints svc)" "ds \<in> set (ep_Downstream ep)"
    using assms(2) by (auto simp: calls_of_def)
  then have "ref_ok (sc_Services s) (dc_To ds)" using assms(1) unfolding scenario_ok_def downstream_ok_def by blast
  then obtain cs cp svc' ep' where r: "ParseDownstreamTarget (dc_To ds) = Inr (cs, cp)" "cs \<in> sv_ID ` set (sc_Services s)"
    "svc' \<in> set (sc_Services s)" "ep' \<in> set (sv_Endpoints svc')" "target_string cs cp = target_string (sv_ID svc') (ep_Path ep')"
    unfolding ref_ok_def ParseDownstreamTarget_iff by blast
  show "target_declared (sv_ID ` set (sc_Services s)) c" using r by (simp add: target_declared_def c)
  have "to_key (edge_of c) = endpointKey (sv_ID svc') (ep_Path ep')"
    using r(1,5) by (simp add: edge_of_def c to_key_def endpointKey_def target_string_def)
  then show "to_key (edge_of c) \<in> endpoint_keys (sc_Services s)" using r(3,4) by (auto simp: endpoint_keys_def)
qed

lemma resolved_calls_exist:
  assumes "scenario_ok s" "graph_of (sc_Services s) g" "r \<in> set (ResolveDownstreamCalls g i p)"
  shows "GetService g (rv_ServiceID r) \<noteq> None" "GetEndpoint g (rv_ServiceID r) (rv_Path r) \<noteq> None"
proof -
  obtain e where e: "e \<in> set (edges_of g (endpointKey i p))" "GetService g (ed_ToServiceID e) \<noteq> None"
    "r = \<lparr>rv_ServiceID = ed_ToServiceID e, rv_Path = ed_ToPath e, rv_Call = ed_Call e\<rparr>"
    using assms(3) by (auto simp: ResolveDownstreamCalls_def GetDownstreamEdges_def split: if_splits)
  then show "GetService g (rv_ServiceID r) \<noteq> None" by simp
  obtain c where "c \<in> set (calls_of (sc_Services s))" "e = edge_of c"
    using e(1) assms(2) by (auto simp: graph_of_def)
  then have "to_key e \<in> endpoint_keys (sc_Services s)" using call_targets(2) [OF assms(1)] by simp
  moreover have "fst ` set (gr_endpoints g) = endpoint_keys (sc_Services s)" using assms(2) by (simp add: graph_of_def)
  ultimately show "GetEndpoint g (rv_ServiceID r) (rv_Path r) \<noteq> None"
    by (simp add: GetEndpoint_def gm_get_None_iff e(3) to_key_def)
qed

section \<open>Properties\<close>

text \<open>A downstream call is made as often as its mean says. The default strategy returns the calls
  in their order, each repeated some number of times: the whole part of its mean (1 where none is
  set) or one more, the latter only for a mean that is not whole, or not at all, which happens only
  to a call with a probability strictly between 0 and 1. The probabilistic strategy returns a
  subsequence of the calls.\<close>

theorem branching_counts:
  "(\<exists>ns. list_all2 count_ok calls ns \<and>
     fst (SelectCalls draw DefaultBranchingStrategy calls rng) = concat (map2 (\<lambda>n c. replicate (nat n) c) ns calls)) \<and>
   subseq (fst (SelectCalls draw (ProbabilisticBranchingStrategy ps) calls rng)) calls"
  using default_SelectCalls_counts [of calls draw rng] probabilistic_SelectCalls_subseq by auto

text \<open>C24: validation, graph and manager fit together. For a validated scenario whose synchronous calls
  have no cycle the manager is created, and whatever calls it selects for an endpoint, under any
  strategy and any random numbers, each names an existing endpoint and yields a pending request of
  the parent's trace for it.\<close>

theorem validated_scenario_interacts:
  assumes "\<And>ks. set (range_order ks) = set ks" "ValidateScenario s = Inr s'" "acyclic (call_rel (sc_Services s))"
  shows "\<exists>m. NewManagerWithSeed range_order new_source s' seed = Inr m \<and>
    (\<forall>draw i p strategy. \<forall>r \<in> set (fst (GetDownstreamCalls draw i p (WithBranchingStrategy strategy m))).
       ValidateEndpoint (rv_ServiceID r) (rv_Path r) m = Inr () \<and>
       (\<exists>q. CreateDownstreamRequest reqID (Some parent) r m = Inr q \<and> rq_trace_id q = rq_trace_id parent \<and>
          rq_parent_id q = rq_id parent \<and> rq_service_name q = rv_ServiceID r \<and> rq_endpoint q = rv_Path r \<and>
          rq_status q = ReqPending))"
proof -
  have s: "scenario_ok s" and s': "sc_Services s' = sc_Services s" using assms(2) by (auto simp: ValidateScenario_ok)
  have "targets_declared (sc_Services s)" using call_targets(1) [OF s] by (simp add: targets_declared_def)
  then obtain g where g: "NewGraph range_order s' = Inr g"
    using NewGraph_cases [OF assms(1), of s'] assms(3) s' by (cases "NewGraph range_order s'") auto
  then have gr: "graph_of (sc_Services s) g" using NewGraph_Inr [OF assms(1)] s' by metis
  define m where "m = \<lparr>mg_graph = g, mg_branchingStrategy = DefaultBranchingStrategy, mg_rng = new_source seed\<rparr>"
  have m: "NewManagerWithSeed range_order new_source s' seed = Inr m"
    by (simp add: NewManagerWithSeed_def g m_def)
  have "ValidateEndpoint (rv_ServiceID r) (rv_Path r) m = Inr () \<and>
       (\<exists>q. CreateDownstreamRequest reqID (Some parent) r m = Inr q \<and> rq_trace_id q = rq_trace_id parent \<and>
          rq_parent_id q = rq_id parent \<and> rq_service_name q = rv_ServiceID r \<and> rq_endpoint q = rv_Path r \<and>
          rq_status q = ReqPending)"
    if "r \<in> set (fst (GetDownstreamCalls draw i p (WithBranchingStrategy strategy m)))" for draw i p strategy r
  proof -
    have "r \<in> set (ResolveDownstreamCalls g i p)"
      using that GetDownstreamCalls_subset [of draw i p "WithBranchingStrategy strategy m"]
      by (auto simp: WithBranchingStrategy_def m_def)
    from resolved_calls_exist [OF s gr this] show ?thesis
      by (simp add: ValidateEndpoint_def CreateDownstreamRequest_def m_def)
  qed
  with m show ?thesis by blast
qed

theorem validated_scenario_interacts_witness:
  "\<exists>s' m. ValidateScenario demo_two = Inr s' \<and> NewManagerWithSeed rev nat s' 0 = Inr m"
proof -
  obtain s' where s': "ValidateScenario demo_two = Inr s'" using demo_two_valid by (auto simp: accepted_def split: sum.splits)
  have "acyclic (call_rel (sc_Services demo_two))"
    using demo_two_graph NewGraph_Inr [of rev demo_two] by auto
  from validated_scenario_interacts [OF _ s' this, of rev nat 0] s' show ?thesis by fastforce
qed

end
