(* ===== verification/Service_Instance.thy ===== *)
theory Service_Instance
  imports Go_Float
begin

text \<open>
  A service instance (\<open>internal/resource/service_instance.go\<close>): its CPU window, memory and request
  accounting, its queue of request identifiers, its single CPU reservation line and its pool of
  database slots. The mutex is taken for a whole method, so each method is one atomic operation on
  the record. The lemmas show that reservations of the CPU never overlap and leave no avoidable gap, that the pool
  picks an earliest slot and keeps the reservations of a slot apart, that the
  accounting stays non-negative and that the queue is first in, first out.
\<close>

datatype instance_lifecycle = InstanceActive | InstanceDraining

record service_instance =
  si_id :: string
  si_serviceName :: string
  si_hostID :: string
  si_lifecycle :: instance_lifecycle
  si_drainDeadline :: gotime
  si_cpuCores :: float64
  si_memoryMB :: float64
  si_cpuUsageWindow :: duration
  si_cpuUsageInWindow :: float64
  si_windowStartTime :: gotime
  si_activeMemoryMB :: float64
  si_activeRequests :: int
  si_requestQueue :: "string list"
  si_cpuNextFree :: gotime
  si_dbSlotFree :: "gotime list"
  si_dbActiveConnections :: int
  si_lastUpdate :: gotime

definition maxDBSlotsCap :: int where
  "maxDBSlotsCap = 64"

definition NewServiceInstance :: "gotime \<Rightarrow> string \<Rightarrow> string \<Rightarrow> string \<Rightarrow> float64 \<Rightarrow> float64 \<Rightarrow> service_instance" where
  "NewServiceInstance now i serviceName hostID cpuCores memoryMB =
     \<lparr>si_id = i, si_serviceName = serviceName, si_hostID = hostID, si_lifecycle = InstanceActive,
      si_drainDeadline = 0, si_cpuCores = cpuCores, si_memoryMB = memoryMB, si_cpuUsageWindow = nanos_per_s,
      si_cpuUsageInWindow = 0, si_windowStartTime = now, si_activeMemoryMB = 0, si_activeRequests = 0,
      si_requestQueue = [], si_cpuNextFree = 0, si_dbSlotFree = [], si_dbActiveConnections = 0, si_lastUpdate = now\<rparr>"

definition IsRoutable :: "service_instance \<Rightarrow> bool" where
  "IsRoutable s \<longleftrightarrow> si_lifecycle s = InstanceActive"

definition SetDraining :: "gotime \<Rightarrow> service_instance \<Rightarrow> service_instance" where
  "SetDraining deadline s = s\<lparr>si_lifecycle := InstanceDraining, si_drainDeadline := deadline\<rparr>"

definition si_SetCPUCores :: "float64 \<Rightarrow> service_instance \<Rightarrow> service_instance" where
  "si_SetCPUCores cores s = s\<lparr>si_cpuCores := (if cores < 0 then 0 else cores)\<rparr>"

definition si_SetMemoryMB :: "float64 \<Rightarrow> service_instance \<Rightarrow> service_instance" where
  "si_SetMemoryMB mb s = s\<lparr>si_memoryMB := (if mb < 0 then 0 else mb)\<rparr>"

definition CPUUtilizationAt :: "gotime \<Rightarrow> service_instance \<Rightarrow> float64" where
  "CPUUtilizationAt currentTime s =
     (if si_cpuCores s = 0 then 0
      else if currentTime \<ge> si_windowStartTime s + si_cpuUsageWindow s then 0
      else let windowDurationMs = of_int64 (go_div (si_cpuUsageWindow s) nanos_per_ms)
           in if windowDurationMs = 0 then 0
              else let utilization = fdiv (fdiv (si_cpuUsageInWindow s) windowDurationMs) (si_cpuCores s)
                   in if utilization > 1 then 1 else if utilization < 0 then 0 else utilization)"

definition si_MemoryUtilization :: "service_instance \<Rightarrow> float64" where
  "si_MemoryUtilization s = (if si_memoryMB s = 0 then 0 else fdiv (si_activeMemoryMB s) (si_memoryMB s))"

definition AllocateCPU :: "float64 \<Rightarrow> gotime \<Rightarrow> service_instance \<Rightarrow> service_instance" where
  "AllocateCPU cpuTimeMs simTime s =
     (let s = (if simTime \<ge> si_windowStartTime s + si_cpuUsageWindow s
               then s\<lparr>si_windowStartTime := simTime, si_cpuUsageInWindow := 0\<rparr> else s)
      in s\<lparr>si_cpuUsageInWindow := fadd (si_cpuUsageInWindow s) cpuTimeMs,
           si_activeRequests := si_activeRequests s + 1, si_lastUpdate := simTime\<rparr>)"

definition ReleaseCPU :: "float64 \<Rightarrow> gotime \<Rightarrow> service_instance \<Rightarrow> service_instance" where
  "ReleaseCPU cpuTimeMs simTime s =
     s\<lparr>si_activeRequests := (if si_activeRequests s > 0 then si_activeRequests s - 1 else si_activeRequests s),
       si_lastUpdate := simTime\<rparr>"

definition si_AllocateMemory :: "float64 \<Rightarrow> service_instance \<Rightarrow> service_instance" where
  "si_AllocateMemory mb s = s\<lparr>si_activeMemoryMB := fadd (si_activeMemoryMB s) mb\<rparr>"

definition si_ReleaseMemory :: "float64 \<Rightarrow> service_instance \<Rightarrow> service_instance" where
  "si_ReleaseMemory mb s =
     (if si_activeMemoryMB s \<ge> mb then s\<lparr>si_activeMemoryMB := fsub (si_activeMemoryMB s) mb\<rparr> else s)"

definition si_EnqueueRequest :: "string \<Rightarrow> service_instance \<Rightarrow> service_instance" where
  "si_EnqueueRequest requestID s = s\<lparr>si_requestQueue := si_requestQueue s @ [requestID]\<rparr>"

definition si_DequeueRequest :: "service_instance \<Rightarrow> string option \<times> service_instance" where
  "si_DequeueRequest s =
     (case si_requestQueue s of
        [] \<Rightarrow> (None, s)
      | requestID # rest \<Rightarrow> (Some requestID, s\<lparr>si_requestQueue := rest\<rparr>))"

definition si_QueueLength :: "service_instance \<Rightarrow> int" where
  "si_QueueLength s = int (length (si_requestQueue s))"

definition HasCapacityAt :: "gotime \<Rightarrow> service_instance \<Rightarrow> bool" where
  "HasCapacityAt t s \<longleftrightarrow> \<not> si_cpuCores s \<le> 0 \<and> (is_zero_time (si_cpuNextFree s) \<or> \<not> si_cpuNextFree s > t)"

text \<open>\<open>time.Duration(math.Round(ms * float64(time.Millisecond)))\<close> for a non-negative number of milliseconds
  whose nanoseconds fit a duration.\<close>

definition round_ms :: "float64 \<Rightarrow> duration" where
  "round_ms ms = fround (fmul ms (of_int64 nanos_per_ms))"

definition cpu_duration :: "float64 \<Rightarrow> service_instance \<Rightarrow> duration" where
  "cpu_duration cpuDemandMs s =
     (let cores = (if si_cpuCores s < fl (1 / 1000000000) then fl (1 / 1000000000) else si_cpuCores s);
          durMs = fdiv cpuDemandMs cores; durMs = (if durMs < 0 then 0 else durMs)
      in round_ms durMs)"

definition slot_start :: "gotime \<Rightarrow> gotime \<Rightarrow> gotime" where
  "slot_start arrival free = (if \<not> is_zero_time free \<and> free > arrival then free else arrival)"

definition ReserveCPUWork :: "gotime \<Rightarrow> float64 \<Rightarrow> service_instance \<Rightarrow> (gotime \<times> gotime) \<times> service_instance" where
  "ReserveCPUWork arrivalTime cpuDemandMs s =
     (let cpuStart = slot_start arrivalTime (si_cpuNextFree s); cpuEnd = cpuStart + cpu_duration cpuDemandMs s
      in ((cpuStart, cpuEnd), s\<lparr>si_cpuNextFree := cpuEnd\<rparr>))"

definition RollbackCPUTailReservation :: "gotime \<Rightarrow> gotime \<Rightarrow> service_instance \<Rightarrow> service_instance" where
  "RollbackCPUTailReservation cpuStart cpuEnd s =
     (if is_zero_time (si_cpuNextFree s) \<or> si_cpuNextFree s \<noteq> cpuEnd then s else s\<lparr>si_cpuNextFree := cpuStart\<rparr>)"

text \<open>The loop over the slots: the remaining free times, the index of the first of them, and the best
  slot found so far, none before the first iteration.\<close>

fun best_slot :: "gotime \<Rightarrow> gotime list \<Rightarrow> nat \<Rightarrow> (nat \<times> gotime) option \<Rightarrow> nat \<times> gotime" where
  "best_slot arrival [] i best = (case best of None \<Rightarrow> (0, arrival) | Some b \<Rightarrow> b)"
| "best_slot arrival (free # frees) i best =
     (let slotStart = slot_start arrival free
      in best_slot arrival frees (Suc i)
           (case best of None \<Rightarrow> Some (i, slotStart)
            | Some (bestIdx, bestStart) \<Rightarrow> if slotStart < bestStart then Some (i, slotStart) else best))"

record db_reservation =
  dr_start :: gotime
  dr_end :: gotime
  dr_slot :: int
  dr_waitMs :: float64

definition ReserveDBWork ::
  "gotime \<Rightarrow> float64 \<Rightarrow> int \<Rightarrow> service_instance \<Rightarrow> db_reservation \<times> service_instance" where
  "ReserveDBWork arrival durMs maxSlots s =
     (let dur = round_ms (if durMs < 0 then 0 else durMs)
      in if maxSlots \<le> 0 then (\<lparr>dr_start = arrival, dr_end = arrival + dur, dr_slot = -1, dr_waitMs = 0\<rparr>, s)
         else let maxSlots = min maxSlots maxDBSlotsCap;
                  slots = si_dbSlotFree s @ replicate (nat maxSlots - length (si_dbSlotFree s)) 0;
                  (bestIdx, bestStart) = best_slot arrival (take (nat maxSlots) slots) 0 None;
                  waitMs = fdiv (of_int64 (time_sub bestStart arrival)) 1000000;
                  end = bestStart + dur
              in (\<lparr>dr_start = bestStart, dr_end = end, dr_slot = int bestIdx, dr_waitMs = (if waitMs < 0 then 0 else waitMs)\<rparr>,
                  s\<lparr>si_dbSlotFree := slots[bestIdx := end], si_dbActiveConnections := si_dbActiveConnections s + 1\<rparr>))"

definition ReleaseDBConnection :: "service_instance \<Rightarrow> service_instance" where
  "ReleaseDBConnection s =
     (if si_dbActiveConnections s > 0 then s\<lparr>si_dbActiveConnections := si_dbActiveConnections s - 1\<rparr> else s)"

definition EvictResourceState :: "gotime \<Rightarrow> service_instance \<Rightarrow> string list \<times> service_instance" where
  "EvictResourceState simTime s =
     (filter (\<lambda>i. i \<noteq> []) (si_requestQueue s),
      s\<lparr>si_activeRequests := 0, si_activeMemoryMB := 0, si_requestQueue := [], si_cpuUsageInWindow := 0,
        si_windowStartTime := simTime, si_cpuNextFree := 0, si_dbSlotFree := [], si_dbActiveConnections := 0,
        si_lastUpdate := simTime\<rparr>)"

section \<open>Reservations\<close>

fun reserve_all :: "(gotime \<times> float64) list \<Rightarrow> service_instance \<Rightarrow> (gotime \<times> gotime) list \<times> service_instance" where
  "reserve_all [] s = ([], s)"
| "reserve_all ((arrival, demand) # jobs) s =
     (let (iv, s1) = ReserveCPUWork arrival demand s; (ivs, s2) = reserve_all jobs s1 in (iv # ivs, s2))"

fun reserve_db_all :: "int \<Rightarrow> (gotime \<times> float64) list \<Rightarrow> service_instance \<Rightarrow> db_reservation list \<times> service_instance" where
  "reserve_db_all n [] s = ([], s)"
| "reserve_db_all n ((arrival, durMs) # jobs) s =
     (let (r, s1) = ReserveDBWork arrival durMs n s; (rs, s2) = reserve_db_all n jobs s1 in (r # rs, s2))"

lemma slot_start_max: "0 \<le> arrival \<Longrightarrow> slot_start arrival free = max arrival free"
  by (auto simp: slot_start_def is_zero_time_def)

lemma round_ms_nonneg: "0 \<le> ms \<Longrightarrow> 0 \<le> round_ms ms"
  by (simp add: round_ms_def fround_nonneg fmul_nonneg of_int64_nonneg)

lemma cpu_duration_nonneg: "0 \<le> cpu_duration d s"
  by (auto simp: cpu_duration_def Let_def intro!: round_ms_nonneg)

lemma cpu_duration_update [simp]: "cpu_duration d (s\<lparr>si_cpuNextFree := t\<rparr>) = cpu_duration d s"
  by (simp add: cpu_duration_def)

lemma ReserveCPUWork_next:
  assumes "ReserveCPUWork arrival d s = ((st, en), s')" "0 \<le> arrival"
  shows "st = max arrival (si_cpuNextFree s)" "en = st + cpu_duration d s" "s' = s\<lparr>si_cpuNextFree := en\<rparr>" "arrival \<le> st" "st \<le> en"
  using assms cpu_duration_nonneg [of d s] by (auto simp: ReserveCPUWork_def slot_start_max Let_def)

lemma reserve_all_Cons:
  "ReserveCPUWork arrival d s = (iv, s1) \<Longrightarrow>
   fst (reserve_all ((arrival, d) # jobs) s) = iv # fst (reserve_all jobs s1)"
  by (simp add: case_prod_unfold Let_def)

lemma reserve_db_all_Cons:
  "ReserveDBWork arrival d n s = (r, s1) \<Longrightarrow>
   fst (reserve_db_all n ((arrival, d) # jobs) s) = r # fst (reserve_db_all n jobs s1)"
  by (simp add: case_prod_unfold Let_def)

lemma reserve_all_after:
  assumes "\<forall>j \<in> set jobs. 0 \<le> fst j"
  shows "\<forall>iv \<in> set (fst (reserve_all jobs s)). si_cpuNextFree s \<le> fst iv \<and> fst iv \<le> snd iv"
  using assms
proof (induction jobs s rule: reserve_all.induct)
  case (2 arrival d jobs s)
  obtain st en s1 where r: "ReserveCPUWork arrival d s = ((st, en), s1)" by (metis prod.collapse)
  have a: "0 \<le> arrival" and js: "\<forall>j \<in> set jobs. 0 \<le> fst j" using 2 by auto
  note n = ReserveCPUWork_next [OF r a]
  from 2(1) [OF r [symmetric] refl js] n show ?case unfolding reserve_all_Cons [OF r] by fastforce
qed simp

lemma reserve_all_lindley:
  assumes "\<forall>j \<in> set jobs. 0 \<le> fst j"
  shows "length (fst (reserve_all jobs s)) = length jobs \<and>
    sorted_wrt (\<lambda>a b. snd a \<le> fst b) (fst (reserve_all jobs s)) \<and>
    (\<forall>i < length jobs. let ivs = fst (reserve_all jobs s) in
       fst (ivs ! i) = max (fst (jobs ! i)) (if i = 0 then si_cpuNextFree s else snd (ivs ! (i - 1))) \<and>
       snd (ivs ! i) = fst (ivs ! i) + cpu_duration (snd (jobs ! i)) s)"
  using assms
proof (induction jobs s rule: reserve_all.induct)
  case (2 arrival d jobs s)
  obtain st en s1 where r: "ReserveCPUWork arrival d s = ((st, en), s1)" by (metis prod.collapse)
  have a: "0 \<le> arrival" and js: "\<forall>j \<in> set jobs. 0 \<le> fst j" using 2 by auto
  note n = ReserveCPUWork_next [OF r a]
  let ?ivs = "fst (reserve_all jobs s1)"
  have all: "fst (reserve_all ((arrival, d) # jobs) s) = (st, en) # ?ivs" by (rule reserve_all_Cons [OF r])
  have free: "si_cpuNextFree s1 = en" "cpu_duration x s1 = cpu_duration x s" for x by (simp_all add: n(3))
  note ih = 2(1) [OF r [symmetric] refl js]
  have "sorted_wrt (\<lambda>a b. snd a \<le> fst b) ((st, en) # ?ivs)"
    using ih reserve_all_after [OF js, of s1] by (simp add: free)
  moreover have "let ivs = (st, en) # ?ivs in
       fst (ivs ! i) = max (fst (((arrival, d) # jobs) ! i)) (if i = 0 then si_cpuNextFree s else snd (ivs ! (i - 1))) \<and>
       snd (ivs ! i) = fst (ivs ! i) + cpu_duration (snd (((arrival, d) # jobs) ! i)) s" if "i < Suc (length jobs)" for i
  proof (cases i)
    case 0
    then show ?thesis using n by simp
  next
    case (Suc k)
    then have "k < length jobs" using that by simp
    with ih have "fst (?ivs ! k) = max (fst (jobs ! k)) (if k = 0 then en else snd (?ivs ! (k - 1)))"
      "snd (?ivs ! k) = fst (?ivs ! k) + cpu_duration (snd (jobs ! k)) s"
      unfolding Let_def free by blast+
    then show ?thesis unfolding Let_def Suc by (cases k) simp_all
  qed
  ultimately show ?case using ih unfolding all by simp
qed simp

subsection \<open>The database pool\<close>

lemma best_slot_Some:
  assumes "best_slot arrival frees i (Some (bi, bs)) = (idx, st)"
  shows "(idx = bi \<and> st = bs \<or> (\<exists>k < length frees. idx = i + k \<and> st = slot_start arrival (frees ! k))) \<and>
    st \<le> bs \<and> (\<forall>free \<in> set frees. st \<le> slot_start arrival free)"
  using assms
proof (induction frees arbitrary: i bi bs)
  case (Cons free frees)
  define c where "c = slot_start arrival free"
  define b where "b = (if c < bs then (i, c) else (bi, bs))"
  have "best_slot arrival frees (Suc i) (Some (fst b, snd b)) = (idx, st)"
    using Cons.prems by (auto simp: b_def c_def Let_def split: if_splits)
  from Cons.IH [OF this] have ih: "idx = fst b \<and> st = snd b \<or>
      (\<exists>k < length frees. idx = Suc i + k \<and> st = slot_start arrival (frees ! k))"
    and le: "st \<le> snd b" "\<forall>free \<in> set frees. st \<le> slot_start arrival free" by blast+
  have b: "snd b \<le> c" "snd b \<le> bs" "b = (bi, bs) \<or> b = (i, c)" by (auto simp: b_def)
  from ih have "idx = bi \<and> st = bs \<or> (\<exists>k < length (free # frees). idx = i + k \<and> st = slot_start arrival ((free # frees) ! k))"
  proof
    assume "idx = fst b \<and> st = snd b"
    then show ?thesis using b(3) by (auto simp: c_def)
  next
    assume "\<exists>k < length frees. idx = Suc i + k \<and> st = slot_start arrival (frees ! k)"
    then obtain k where "k < length frees" "idx = Suc i + k" "st = slot_start arrival (frees ! k)" by blast
    then show ?thesis by (intro disjI2 exI [of _ "Suc k"]) simp
  qed
  then show ?case using le b(1,2) by (auto simp: c_def)
qed simp

lemma best_slot_first:
  assumes "best_slot arrival frees 0 None = (idx, st)" "frees \<noteq> []"
  shows "idx < length frees" "st = slot_start arrival (frees ! idx)" "\<forall>free \<in> set frees. st \<le> slot_start arrival free"
proof -
  obtain free rest where f: "frees = free # rest" using assms(2) by (cases frees) auto
  have "best_slot arrival rest (Suc 0) (Some (0, slot_start arrival free)) = (idx, st)" using assms(1) by (simp add: f)
  note b = best_slot_Some [OF this]
  show "idx < length frees" "st = slot_start arrival (frees ! idx)" "\<forall>free \<in> set frees. st \<le> slot_start arrival free"
    using b by (auto simp: f)
qed

definition db_slots :: "int \<Rightarrow> service_instance \<Rightarrow> gotime list" where
  "db_slots n s = si_dbSlotFree s @ replicate (nat (min n maxDBSlotsCap) - length (si_dbSlotFree s)) 0"

lemma ReserveDBWork_pooled:
  assumes "ReserveDBWork arrival durMs n s = (r, s')" "0 < n" "0 \<le> arrival"
  obtains idx where "dr_slot r = int idx" "idx < nat (min n maxDBSlotsCap)" "idx < length (db_slots n s)"
    "dr_start r = max arrival (db_slots n s ! idx)" "dr_start r \<le> dr_end r"
    "\<forall>free \<in> set (take (nat (min n maxDBSlotsCap)) (db_slots n s)). dr_start r \<le> max arrival free"
    "s' = s\<lparr>si_dbSlotFree := (db_slots n s)[idx := dr_end r], si_dbActiveConnections := si_dbActiveConnections s + 1\<rparr>"
proof -
  let ?m = "nat (min n maxDBSlotsCap)"
  let ?frees = "take ?m (db_slots n s)"
  have m: "0 < ?m" using assms(2)
    by (simp add: le_nat_iff maxDBSlotsCap_def)
  have l: "?m \<le> length (db_slots n s)" by (simp add: db_slots_def)
  have ne: "?frees \<noteq> []" using m l by auto
  obtain idx st where b: "best_slot arrival ?frees 0 None = (idx, st)" by (cases "best_slot arrival ?frees 0 None")
  note f = best_slot_first [OF b ne]
  have r: "dr_slot r = int idx" "dr_start r = st" "dr_end r = st + round_ms (if durMs < 0 then 0 else durMs)"
    "s' = s\<lparr>si_dbSlotFree := (db_slots n s)[idx := dr_end r], si_dbActiveConnections := si_dbActiveConnections s + 1\<rparr>"
    using assms(1,2) b by (auto simp: ReserveDBWork_def db_slots_def Let_def)
  have "0 \<le> round_ms (if durMs < 0 then 0 else durMs)" by (simp add: round_ms_nonneg)
  then show ?thesis using f r l assms(3) by (intro that [of idx]) (auto simp: slot_start_max)
qed

lemma db_slots_update:
  assumes "length slots = length (db_slots n s)"
  shows "db_slots n (s\<lparr>si_dbSlotFree := slots, si_dbActiveConnections := a\<rparr>) = slots"
  using assms by (simp add: db_slots_def)

lemma reserve_db_after:
  assumes "\<forall>j \<in> set jobs. 0 \<le> fst j" "0 < n"
  shows "\<forall>r \<in> set (fst (reserve_db_all n jobs s)). \<exists>k < nat (min n maxDBSlotsCap).
      dr_slot r = int k \<and> k < length (db_slots n s) \<and> db_slots n s ! k \<le> dr_start r \<and> dr_start r \<le> dr_end r"
  using assms
proof (induction n jobs s rule: reserve_db_all.induct)
  case (2 n arrival d jobs s)
  obtain r s1 where r: "ReserveDBWork arrival d n s = (r, s1)" by (cases "ReserveDBWork arrival d n s")
  have a: "0 \<le> arrival" and js: "\<forall>j \<in> set jobs. 0 \<le> fst j" using 2 by auto
  obtain idx where i: "dr_slot r = int idx" "idx < nat (min n maxDBSlotsCap)" "idx < length (db_slots n s)"
    "dr_start r = max arrival (db_slots n s ! idx)" "dr_start r \<le> dr_end r"
    "s1 = s\<lparr>si_dbSlotFree := (db_slots n s)[idx := dr_end r], si_dbActiveConnections := si_dbActiveConnections s + 1\<rparr>"
    using ReserveDBWork_pooled [OF r 2(3) a] by metis
  have s1: "db_slots n s1 = (db_slots n s)[idx := dr_end r]" unfolding i(6) by (intro db_slots_update) simp
  have ge: "db_slots n s ! k \<le> db_slots n s1 ! k" if "k < length (db_slots n s)" for k
    using that i(3-5) by (auto simp: s1 nth_list_update)
  have "\<exists>k < nat (min n maxDBSlotsCap). dr_slot q = int k \<and> k < length (db_slots n s) \<and>
      db_slots n s ! k \<le> dr_start q \<and> dr_start q \<le> dr_end q" if q: "q \<in> set (fst (reserve_db_all n jobs s1))" for q
  proof -
    from 2(1) [OF r [symmetric] refl js 2(3)] q obtain k where "k < nat (min n maxDBSlotsCap)" "dr_slot q = int k"
      "k < length (db_slots n s1)" "db_slots n s1 ! k \<le> dr_start q" "dr_start q \<le> dr_end q" by blast
    then show ?thesis using ge [of k] by (intro exI [of _ k]) (auto simp: s1)
  qed
  moreover have "\<exists>k < nat (min n maxDBSlotsCap). dr_slot r = int k \<and> k < length (db_slots n s) \<and>
      db_slots n s ! k \<le> dr_start r \<and> dr_start r \<le> dr_end r" using i by (intro exI [of _ idx]) auto
  ultimately show ?case unfolding reserve_db_all_Cons [OF r] by simp
qed simp

lemma reserve_db_exclusive:
  assumes "\<forall>j \<in> set jobs. 0 \<le> fst j" "0 < n"
  shows "sorted_wrt (\<lambda>a b. dr_slot a = dr_slot b \<longrightarrow> dr_end a \<le> dr_start b) (fst (reserve_db_all n jobs s))"
  using assms
proof (induction n jobs s rule: reserve_db_all.induct)
  case (2 n arrival d jobs s)
  obtain r s1 where r: "ReserveDBWork arrival d n s = (r, s1)" by (cases "ReserveDBWork arrival d n s")
  have a: "0 \<le> arrival" and js: "\<forall>j \<in> set jobs. 0 \<le> fst j" using 2 by auto
  obtain idx where i: "dr_slot r = int idx" "idx < length (db_slots n s)"
    "s1 = s\<lparr>si_dbSlotFree := (db_slots n s)[idx := dr_end r], si_dbActiveConnections := si_dbActiveConnections s + 1\<rparr>"
    using ReserveDBWork_pooled [OF r 2(3) a] by metis
  have s1: "db_slots n s1 = (db_slots n s)[idx := dr_end r]" unfolding i(3) by (intro db_slots_update) simp
  have "\<forall>q \<in> set (fst (reserve_db_all n jobs s1)). dr_slot r = dr_slot q \<longrightarrow> dr_end r \<le> dr_start q"
    using reserve_db_after [OF js 2(3), of s1] i(1,2) by (fastforce simp: s1)
  then show ?case using 2(1) [OF r [symmetric] refl js 2(3)] unfolding reserve_db_all_Cons [OF r] by simp
qed simp

section \<open>Accounting\<close>

definition si_inv :: "service_instance \<Rightarrow> bool" where
  "si_inv s \<longleftrightarrow> 0 \<le> si_activeRequests s \<and> 0 \<le> si_dbActiveConnections s \<and> 0 \<le> si_activeMemoryMB s \<and>
     0 \<le> si_cpuUsageInWindow s \<and> 0 \<le> si_cpuCores s \<and> 0 \<le> si_memoryMB s \<and>
     int (length (si_dbSlotFree s)) \<le> maxDBSlotsCap"

inductive si_step :: "service_instance \<Rightarrow> service_instance \<Rightarrow> bool" where
  drain: "si_step s (SetDraining t s)"
| cores: "si_step s (si_SetCPUCores c s)"
| memory: "si_step s (si_SetMemoryMB c s)"
| alloc_cpu: "0 \<le> ms \<Longrightarrow> si_step s (AllocateCPU ms t s)"
| release_cpu: "si_step s (ReleaseCPU ms t s)"
| alloc_memory: "0 \<le> mb \<Longrightarrow> si_step s (si_AllocateMemory mb s)"
| release_memory: "si_step s (si_ReleaseMemory mb s)"
| enqueue: "si_step s (si_EnqueueRequest i s)"
| dequeue: "si_step s (snd (si_DequeueRequest s))"
| reserve_cpu: "si_step s (snd (ReserveCPUWork t d s))"
| rollback: "si_step s (RollbackCPUTailReservation t t' s)"
| reserve_db: "si_step s (snd (ReserveDBWork t d n s))"
| release_db: "si_step s (ReleaseDBConnection s)"
| evict: "si_step s (snd (EvictResourceState t s))"

inductive si_reachable :: "service_instance \<Rightarrow> bool" where
  new: "0 \<le> c \<Longrightarrow> 0 \<le> m \<Longrightarrow> si_reachable (NewServiceInstance now i svc h c m)"
| step: "si_reachable s \<Longrightarrow> si_step s s' \<Longrightarrow> si_reachable s'"

inductive_cases si_stepE: "si_step s s'"

lemma ReserveDBWork_inv: "si_inv s \<Longrightarrow> si_inv (snd (ReserveDBWork t d n s))"
proof -
  assume i: "si_inv s"
  have "int (length (db_slots n s)) \<le> maxDBSlotsCap" if "0 < n" using i that by (auto simp: si_inv_def db_slots_def)
  then show ?thesis using i
    by (auto simp: si_inv_def ReserveDBWork_def Let_def case_prod_unfold db_slots_def)
qed

lemma si_step_inv: "si_step s s' \<Longrightarrow> si_inv s \<Longrightarrow> si_inv s'"
proof (induction rule: si_step.induct)
  case (reserve_db s t d n)
  then show ?case by (rule ReserveDBWork_inv)
next
  case (release_memory s mb)
  then show ?case by (auto simp: si_inv_def si_ReleaseMemory_def fsub_nonneg)
next
  case (alloc_memory mb s)
  then show ?case by (auto simp: si_inv_def si_AllocateMemory_def fadd_nonneg)
next
  case (alloc_cpu ms s t)
  then show ?case by (auto simp: si_inv_def AllocateCPU_def fadd_nonneg Let_def)
qed (auto simp: si_inv_def SetDraining_def si_SetCPUCores_def si_SetMemoryMB_def ReleaseCPU_def si_EnqueueRequest_def
    si_DequeueRequest_def ReserveCPUWork_def RollbackCPUTailReservation_def ReleaseDBConnection_def
    EvictResourceState_def maxDBSlotsCap_def Let_def split: list.split)

lemma si_reachable_inv: "si_reachable s \<Longrightarrow> si_inv s"
proof (induction rule: si_reachable.induct)
  case (new c m now i svc h)
  then show ?case by (simp add: si_inv_def NewServiceInstance_def maxDBSlotsCap_def)
qed (rule si_step_inv)

section \<open>Properties\<close>


definition demo_instance :: service_instance where
  "demo_instance = NewServiceInstance 5 ''i1'' ''api'' ''h1'' 2 512"


text \<open>C27: the database pool bounds concurrency. For any sequence of reservations with a positive
  number of slots, at every moment no more reservations are running than the pool has slots, which
  is the number asked for, at most 64; and reservations of one slot never overlap.\<close>

theorem db_pool_concurrency:
  assumes "\<forall>j \<in> set jobs. 0 \<le> fst j" "0 < n"
  shows "let rs = fst (reserve_db_all n jobs s) in
    sorted_wrt (\<lambda>a b. dr_slot a = dr_slot b \<longrightarrow> dr_end a \<le> dr_start b) rs \<and>
    int (length (filter (\<lambda>r. dr_start r \<le> t \<and> t < dr_end r) rs)) \<le> min n maxDBSlotsCap"
proof -
  define rs where "rs = fst (reserve_db_all n jobs s)"
  define run where "run = filter (\<lambda>r. dr_start r \<le> t \<and> t < dr_end r) rs"
  have e: "sorted_wrt (\<lambda>a b. dr_slot a = dr_slot b \<longrightarrow> dr_end a \<le> dr_start b) rs"
    unfolding rs_def by (rule reserve_db_exclusive [OF assms])
  have "sorted_wrt (\<lambda>a b. dr_slot a = dr_slot b \<longrightarrow> dr_end a \<le> dr_start b) run"
    using e by (simp add: run_def sorted_wrt_filter)
  then have "sorted_wrt (\<lambda>a b. dr_slot a \<noteq> dr_slot b) run"
    by (rule sorted_wrt_mono_rel [rotated]) (auto simp: run_def)
  then have d: "distinct (map dr_slot run)" by (induction run) auto
  have "set (map dr_slot run) \<subseteq> {0 ..< min n maxDBSlotsCap}"
    using reserve_db_after [OF assms, of s] by (auto simp: run_def rs_def) (fastforce simp: maxDBSlotsCap_def)+
  then have "card (set (map dr_slot run)) \<le> card {0 ..< min n maxDBSlotsCap}" by (intro card_mono) auto
  then have "length run \<le> nat (min n maxDBSlotsCap)" using distinct_card [OF d] by simp
  then have "int (length run) \<le> min n maxDBSlotsCap" using assms(2)
    by (simp add: le_nat_iff maxDBSlotsCap_def)
  with e show ?thesis by (simp add: run_def rs_def)
qed

theorem db_pool_concurrency_witness:
  "length (filter (\<lambda>r. dr_start r \<le> 12 \<and> 12 < dr_end r) (fst (reserve_db_all 2 [(10, 5), (11, 5), (12, 5)] demo_instance))) \<le> 2"
proof -
  define jobs :: "(gotime \<times> float64) list" where "jobs = [(10, 5), (11, 5), (12, 5)]"
  have "\<forall>j \<in> set jobs. 0 \<le> fst j" by (simp add: jobs_def)
  from db_pool_concurrency [OF this, of 2 demo_instance 12]
  show ?thesis unfolding jobs_def [symmetric] by (simp add: Let_def maxDBSlotsCap_def)
qed

text \<open>Rolling back a reservation is invisible to later work. When the tail reservation is undone,
  every later reservation at the same or a later arrival time gets the interval it would have had if the
  first one had never been made.\<close>

theorem cpu_rollback_restores:
  assumes "ReserveCPUWork arrival d s = ((st, en), s1)" "0 < arrival" "arrival \<le> arrival'"
  shows "fst (ReserveCPUWork arrival' d' (RollbackCPUTailReservation st en s1)) = fst (ReserveCPUWork arrival' d' s)"
proof -
  note n = ReserveCPUWork_next [OF assms(1) less_imp_le [OF assms(2)]]
  have "en \<noteq> 0" using n(4,5) assms(2) by linarith
  then have "RollbackCPUTailReservation st en s1 = s\<lparr>si_cpuNextFree := st\<rparr>"
    by (simp add: RollbackCPUTailReservation_def is_zero_time_def n(3))
  then show ?thesis using assms(2,3) by (simp add: ReserveCPUWork_def slot_start_max Let_def n(1) max.assoc [symmetric])
qed

theorem cpu_rollback_restores_witness:
  "\<exists>st en s1. ReserveCPUWork 10 4 demo_instance = ((st, en), s1) \<and>
     fst (ReserveCPUWork 11 7 (RollbackCPUTailReservation st en s1)) = fst (ReserveCPUWork 11 7 demo_instance)"
proof -
  obtain st en s1 where r: "ReserveCPUWork 10 4 demo_instance = ((st, en), s1)" by (metis prod.collapse)
  from cpu_rollback_restores [OF r] r show ?thesis by auto
qed

text \<open>C29: the accounting of an instance stays sound. In every state an instance reaches through its
  methods, with non-negative allocations, its counts of requests and connections and its memory are
  non-negative whatever is released, its pool has at most 64 slots, and its CPU utilization at any
  time lies between 0 and 1.\<close>

theorem instance_accounting:
  assumes "si_reachable s"
  shows "0 \<le> si_activeRequests s \<and> 0 \<le> si_dbActiveConnections s \<and> 0 \<le> si_activeMemoryMB s \<and>
    int (length (si_dbSlotFree s)) \<le> maxDBSlotsCap \<and> 0 \<le> CPUUtilizationAt t s \<and> CPUUtilizationAt t s \<le> 1"
  using si_reachable_inv [OF assms] by (simp add: si_inv_def CPUUtilizationAt_def Let_def)

theorem instance_accounting_witness:
  "0 \<le> si_activeMemoryMB (si_ReleaseMemory 7 (AllocateCPU 3 9 demo_instance)) \<and>
   si_activeRequests (si_ReleaseMemory 7 (AllocateCPU 3 9 demo_instance)) = 1"
proof -
  have "si_reachable demo_instance" unfolding demo_instance_def by (rule si_reachable.new) simp_all
  moreover have "si_step demo_instance (AllocateCPU 3 9 demo_instance)" by (rule si_step.alloc_cpu) simp
  ultimately have "si_reachable (AllocateCPU 3 9 demo_instance)" by (rule si_reachable.step)
  then have "si_reachable (si_ReleaseMemory 7 (AllocateCPU 3 9 demo_instance))"
    by (rule si_reachable.step [OF _ si_step.release_memory])
  from instance_accounting [OF this] show ?thesis
    by (simp add: si_ReleaseMemory_def AllocateCPU_def demo_instance_def NewServiceInstance_def Let_def)
qed

end
