(* ===== verification/Sim_Host.thy ===== *)
theory Sim_Host
  imports Service_Instance
begin

text \<open>
  Hosts (\<open>internal/resource/host.go\<close>): capacity, zone, labels, the identifiers of the instances they run and the
  utilization gauges the manager recomputes from those instances. Where the code reads the wall clock the time is
  an argument.
\<close>

record sim_host =
  sh_id :: string
  sh_cpuCores :: int
  sh_memoryGB :: int
  sh_zone :: string
  sh_labels :: "(string, string) gomap"
  sh_cpuUtilization :: float64
  sh_memoryUtilization :: float64
  sh_serviceInstances :: "string list"

definition NewHost :: "string \<Rightarrow> int \<Rightarrow> int \<Rightarrow> sim_host" where
  "NewHost i cpuCores memoryGB =
     \<lparr>sh_id = i, sh_cpuCores = cpuCores, sh_memoryGB = memoryGB, sh_zone = [], sh_labels = [],
      sh_cpuUtilization = 0, sh_memoryUtilization = 0, sh_serviceInstances = []\<rparr>"

definition SetZone :: "string \<Rightarrow> sim_host \<Rightarrow> sim_host" where
  "SetZone zone h = h\<lparr>sh_zone := zone\<rparr>"

definition SetLabels :: "(string, string) gomap \<Rightarrow> sim_host \<Rightarrow> sim_host" where
  "SetLabels labels h = h\<lparr>sh_labels := labels\<rparr>"

definition sh_SetCPUCores :: "int \<Rightarrow> sim_host \<Rightarrow> sim_host" where
  "sh_SetCPUCores cores h = h\<lparr>sh_cpuCores := (if cores < 1 then 1 else cores)\<rparr>"

definition sh_SetMemoryGB :: "int \<Rightarrow> sim_host \<Rightarrow> sim_host" where
  "sh_SetMemoryGB gb h = h\<lparr>sh_memoryGB := (if gb < 1 then 1 else gb)\<rparr>"

definition AddService :: "string \<Rightarrow> sim_host \<Rightarrow> sim_host" where
  "AddService instanceID h = h\<lparr>sh_serviceInstances := sh_serviceInstances h @ [instanceID]\<rparr>"

definition RemoveService :: "string \<Rightarrow> sim_host \<Rightarrow> sim_host" where
  "RemoveService instanceID h = h\<lparr>sh_serviceInstances := remove1 instanceID (sh_serviceInstances h)\<rparr>"

definition clamp_unit :: "float64 \<Rightarrow> float64" where
  "clamp_unit util = (let util = (if util < 0 then 0 else util) in if util > 1 then 1 else util)"

definition SetCPUUtilization :: "float64 \<Rightarrow> sim_host \<Rightarrow> sim_host" where
  "SetCPUUtilization util h = h\<lparr>sh_cpuUtilization := clamp_unit util\<rparr>"

definition SetMemoryUtilization :: "float64 \<Rightarrow> sim_host \<Rightarrow> sim_host" where
  "SetMemoryUtilization util h = h\<lparr>sh_memoryUtilization := clamp_unit util\<rparr>"

definition UpdateCPUUtilizationFromInstancesAt :: "gotime \<Rightarrow> gotime \<Rightarrow> service_instance list \<Rightarrow> sim_host \<Rightarrow> sim_host" where
  "UpdateCPUUtilizationFromInstancesAt now simTime insts h =
     (if insts = [] then SetCPUUtilization 0 h
      else let t = (if is_zero_time simTime then now else simTime);
               totalCPUUsed = foldl (\<lambda>total inst. fadd total (fmul (CPUUtilizationAt t inst) (si_cpuCores inst))) 0 insts
           in if sh_cpuCores h > 0 then SetCPUUtilization (fdiv totalCPUUsed (of_int64 (sh_cpuCores h))) h else h)"

definition UpdateCPUUtilization :: "gotime \<Rightarrow> service_instance list \<Rightarrow> sim_host \<Rightarrow> sim_host" where
  "UpdateCPUUtilization now insts h =
     (if insts = [] then SetCPUUtilization 0 h
      else let totalCPUUsed = foldl (\<lambda>total inst. fadd total (fmul (CPUUtilizationAt now inst) (si_cpuCores inst))) 0 insts
           in if sh_cpuCores h > 0 then SetCPUUtilization (fdiv totalCPUUsed (of_int64 (sh_cpuCores h))) h else h)"

definition UpdateMemoryUtilization :: "service_instance list \<Rightarrow> sim_host \<Rightarrow> sim_host" where
  "UpdateMemoryUtilization insts h =
     (if insts = [] then SetMemoryUtilization 0 h
      else let totalMemoryUsedMB = foldl (\<lambda>total inst. fadd total (si_activeMemoryMB inst)) 0 insts
           in if sh_memoryGB h > 0
              then SetMemoryUtilization (fdiv (fdiv totalMemoryUsedMB 1024) (of_int64 (sh_memoryGB h))) h else h)"

definition sh_HasCapacity :: "sim_host \<Rightarrow> bool" where
  "sh_HasCapacity h \<longleftrightarrow> sh_cpuUtilization h < 1 \<and> sh_memoryUtilization h < 1"

lemma clamp_unit_bounds: "0 \<le> clamp_unit u" "clamp_unit u \<le> 1"
  by (simp_all add: clamp_unit_def Let_def)

text \<open>The parts of a host the updates of its gauges leave alone.\<close>

lemma gauge_frame [simp]:
  "sh_id (UpdateCPUUtilizationFromInstancesAt now t insts h) = sh_id h"
  "sh_cpuCores (UpdateCPUUtilizationFromInstancesAt now t insts h) = sh_cpuCores h"
  "sh_memoryGB (UpdateCPUUtilizationFromInstancesAt now t insts h) = sh_memoryGB h"
  "sh_serviceInstances (UpdateCPUUtilizationFromInstancesAt now t insts h) = sh_serviceInstances h"
  "sh_id (UpdateMemoryUtilization insts h) = sh_id h"
  "sh_cpuCores (UpdateMemoryUtilization insts h) = sh_cpuCores h"
  "sh_memoryGB (UpdateMemoryUtilization insts h) = sh_memoryGB h"
  "sh_serviceInstances (UpdateMemoryUtilization insts h) = sh_serviceInstances h"
  by (simp_all add: UpdateCPUUtilizationFromInstancesAt_def UpdateMemoryUtilization_def SetCPUUtilization_def
      SetMemoryUtilization_def Let_def)

end
