(* ===== verification/Go_Strconv.thy ===== *)
theory Go_Strconv
  imports Go_Prelude
begin

text \<open>
  Identifiers that end in a number, such as \<open>svc-instance-7\<close>: printing an integer is injective, and two identifiers
  with a number after their last dash are equal only if the numbers are, so an identifier with
  a fresh number is fresh.
\<close>

lemma dec_digits: "list_all is_digit (nat_to_dec n)"
  using nat_to_dec_digits by (simp add: list_all_iff)

lemma not_digit_sign: "is_digit c \<Longrightarrow> c \<noteq> CHR ''-'' \<and> c \<noteq> CHR ''+''"
  by (auto simp: is_digit_def)

lemma itoa_inj: "itoa i = itoa j \<longleftrightarrow> i = j"
proof -
  have "itoa i \<noteq> itoa j" if "i < 0" "0 \<le> j" for i j
  proof -
    obtain c cs where c: "nat_to_dec (nat j) = c # cs" using nat_to_dec_nonempty by (cases "nat_to_dec (nat j)") blast+
    have "is_digit c" using dec_digits [of "nat j"] c by simp
    then show ?thesis using that c not_digit_sign [of c] by (auto simp: itoa_def)
  qed
  from this [of i j] this [of j i] show ?thesis using nat_to_dec_inj by (fastforce simp: itoa_def not_less)
qed

text \<open>Two numbered identifiers are equal only if the numbers are: the digits after the last dash.\<close>

lemma numbered_inj:
  assumes "a @ CHR ''-'' # nat_to_dec m = b @ CHR ''-'' # nat_to_dec n"
  shows "m = n \<and> a = b"
proof -
  let ?p = "\<lambda>c. c \<noteq> CHR ''-''"
  have t: "takeWhile ?p (rev (x @ CHR ''-'' # nat_to_dec k)) = rev (nat_to_dec k)" for x k
  proof -
    have "\<forall>c \<in> set (rev (nat_to_dec k)). ?p c" using dec_digits [of k] not_digit_sign by (auto simp: list_all_iff)
    then show ?thesis by (simp add: takeWhile_append)
  qed
  have "rev (nat_to_dec m) = rev (nat_to_dec n)" using t [of a m] t [of b n] assms by metis
  then show ?thesis using assms nat_to_dec_inj by auto
qed

end
