(* ===== verification/Broker_Queue.thy ===== *)
theory Broker_Queue
  imports Scenario_Config Go_Strconv "HOL-Library.Multiset"
begin

text \<open>
  Broker queues and topics (\<open>internal/resource/broker_queue.go\<close>): the shard of a queue or of a topic
  partition and subscriber group, and the registry of shards. A shard holds its messages oldest first; Go's set of
  pending commits is a list of offsets. Callers never enqueue a nil message. The properties: no
  message is lost or duplicated, concurrency and backlog are bounded, the commit frontier is the
  least offset not yet processed, retention removes exactly the expired messages, and offsets of a
  partition are consecutive.
\<close>

record queued_message =
  qm_ID :: string
  qm_EnqueueTime :: gotime
  qm_Redeliveries :: int
  qm_ParentRequestID :: string
  qm_TraceID :: string
  qm_Metadata :: "(string, go_value) gomap"
  qm_TopicOffset :: int

record broker_shard =
  bs_BrokerID :: string
  bs_Topic :: string
  bs_Partition :: int
  bs_Capacity :: int
  bs_MaxConcurrency :: int
  bs_MaxRedeliveries :: int
  bs_DropPolicy :: string
  bs_DLQTarget :: string
  bs_ConsumerTarget :: string
  bs_AckTimeoutMs :: float64
  bs_ConsumerGroup :: string
  bs_SubscriberName :: string
  bs_inFlight :: int
  bs_messages :: "queued_message list"
  bs_dropCount :: int
  bs_redeliveryCount :: int
  bs_dlqCount :: int
  bs_nextCommitExclusive :: int
  bs_pendingCommit :: "int list"
  bs_retentionNextFireScheduled :: gotime

record broker_snapshot =
  sn_Depth :: int
  sn_InFlight :: int
  sn_MaxConcurrency :: int
  sn_ConsumerTarget :: string
  sn_OldestMessageAgeMs :: float64
  sn_DropCount :: int
  sn_RedeliveryCount :: int
  sn_DlqCount :: int

definition BrokerQueueKey :: "string \<Rightarrow> string \<Rightarrow> string" where
  "BrokerQueueKey brokerID topic = brokerID @ '':'' @ topic"

record enqueue_result =
  er_Accepted :: bool
  er_DropReason :: string
  er_DroppedOldest :: bool
  er_EvictedTopicOffset :: int

definition rejected :: "string \<Rightarrow> enqueue_result" where
  "rejected reason = \<lparr>er_Accepted = False, er_DropReason = reason, er_DroppedOldest = False, er_EvictedTopicOffset = 0\<rparr>"

definition accepted_plain :: enqueue_result where
  "accepted_plain = \<lparr>er_Accepted = True, er_DropReason = [], er_DroppedOldest = False, er_EvictedTopicOffset = 0\<rparr>"

definition capacityReached :: "broker_shard \<Rightarrow> bool" where
  "capacityReached s \<longleftrightarrow> \<not> bs_Capacity s \<le> 0 \<and> int (length (bs_messages s)) \<ge> bs_Capacity s"

definition drop_policy :: "broker_shard \<Rightarrow> string" where
  "drop_policy s = (let dp = to_lower (trim_space (bs_DropPolicy s)) in if dp = [] then ''block'' else dp)"

definition bs_Enqueue :: "queued_message \<Rightarrow> broker_shard \<Rightarrow> enqueue_result \<times> broker_shard" where
  "bs_Enqueue m s =
     (let dp = drop_policy s; dropped = s\<lparr>bs_dropCount := bs_dropCount s + 1\<rparr>
      in if \<not> capacityReached s then (accepted_plain, s\<lparr>bs_messages := bs_messages s @ [m]\<rparr>)
         else if dp = ''reject'' then (rejected ''reject'', dropped)
         else if dp = ''drop_newest'' then (rejected ''drop_newest'', dropped)
         else if dp = ''drop_oldest''
         then (case bs_messages s of
                 [] \<Rightarrow> (accepted_plain, s\<lparr>bs_messages := [m]\<rparr>)
               | oldest # rest \<Rightarrow>
                   (\<lparr>er_Accepted = True, er_DropReason = ''drop_oldest'', er_DroppedOldest = True,
                     er_EvictedTopicOffset = qm_TopicOffset oldest\<rparr>,
                    dropped\<lparr>bs_messages := rest @ [m]\<rparr>))
         else if dp = ''block'' then (rejected ''block_full'', dropped)
         else (rejected ''reject'', dropped))"

definition bs_Depth :: "broker_shard \<Rightarrow> int" where
  "bs_Depth s = int (length (bs_messages s))"

definition TryPopForDispatch :: "broker_shard \<Rightarrow> queued_message option \<times> broker_shard" where
  "TryPopForDispatch s =
     (if bs_MaxConcurrency s > 0 \<and> bs_inFlight s \<ge> bs_MaxConcurrency s then (None, s)
      else case bs_messages s of
             [] \<Rightarrow> (None, s)
           | m # rest \<Rightarrow> (Some m, s\<lparr>bs_messages := rest, bs_inFlight := bs_inFlight s + 1\<rparr>))"

definition ConsumerFinished :: "broker_shard \<Rightarrow> broker_shard" where
  "ConsumerFinished s = (if bs_inFlight s > 0 then s\<lparr>bs_inFlight := bs_inFlight s - 1\<rparr> else s)"

definition RequeueFront :: "queued_message \<Rightarrow> broker_shard \<Rightarrow> broker_shard" where
  "RequeueFront m s = (let s = ConsumerFinished s in s\<lparr>bs_messages := m # bs_messages s\<rparr>)"

fun expire_loop :: "gotime \<Rightarrow> queued_message list \<Rightarrow> int list \<times> queued_message list" where
  "expire_loop threshold [] = ([], [])"
| "expire_loop threshold (m # ms) =
     (if qm_EnqueueTime m > threshold then ([], m # ms)
      else let (removed, rest) = expire_loop threshold ms in (qm_TopicOffset m # removed, rest))"

definition retention_threshold :: "gotime \<Rightarrow> int \<Rightarrow> gotime" where
  "retention_threshold now retentionMs = now + wrap64 (wrap64 (- retentionMs) * nanos_per_ms)"

definition ExpireQueuedByRetention :: "gotime \<Rightarrow> int \<Rightarrow> broker_shard \<Rightarrow> int list \<times> broker_shard" where
  "ExpireQueuedByRetention now retentionMs s =
     (if retentionMs \<le> 0 \<or> bs_messages s = [] then ([], s)
      else let (removed, rest) = expire_loop (retention_threshold now retentionMs) (bs_messages s)
           in (removed, s\<lparr>bs_messages := rest, bs_dropCount := bs_dropCount s + int (length removed)\<rparr>))"

function advance_commit :: "int \<Rightarrow> int list \<Rightarrow> int \<times> int list" where
  "advance_commit next pending =
     (if next \<in> set pending then advance_commit (next + 1) (removeAll next pending) else (next, pending))"
  by pat_completeness auto

termination advance_commit
  by (relation "measure (\<lambda>(next, pending). length pending)") (auto simp: length_removeAll_less)

declare advance_commit.simps [simp del]

definition RecordTopicOffsetProcessed :: "int \<Rightarrow> broker_shard \<Rightarrow> broker_shard" where
  "RecordTopicOffsetProcessed off s =
     (if off < bs_nextCommitExclusive s then s
      else let (next, pending) = advance_commit (bs_nextCommitExclusive s) (List.insert off (bs_pendingCommit s))
           in s\<lparr>bs_nextCommitExclusive := next, bs_pendingCommit := pending\<rparr>)"

definition CommittedOffsetExclusive :: "broker_shard \<Rightarrow> int" where
  "CommittedOffsetExclusive s = bs_nextCommitExclusive s"

definition ShouldScheduleRetentionAt :: "gotime \<Rightarrow> broker_shard \<Rightarrow> bool" where
  "ShouldScheduleRetentionAt candidate s \<longleftrightarrow>
     is_zero_time (bs_retentionNextFireScheduled s) \<or> candidate < bs_retentionNextFireScheduled s"

definition NoteRetentionScheduled :: "gotime \<Rightarrow> broker_shard \<Rightarrow> broker_shard" where
  "NoteRetentionScheduled t s = s\<lparr>bs_retentionNextFireScheduled := t\<rparr>"

definition ClearRetentionSchedule :: "broker_shard \<Rightarrow> broker_shard" where
  "ClearRetentionSchedule s = s\<lparr>bs_retentionNextFireScheduled := 0\<rparr>"

definition OldestQueuedEnqueueTime :: "broker_shard \<Rightarrow> gotime option" where
  "OldestQueuedEnqueueTime s = (case bs_messages s of [] \<Rightarrow> None | m # _ \<Rightarrow> Some (qm_EnqueueTime m))"

definition TopicConsumerLagMessages :: "int \<Rightarrow> int \<Rightarrow> float64" where
  "TopicConsumerLagMessages highWatermarkExclusive committedExclusive =
     (let lag = wrap64 (highWatermarkExclusive - committedExclusive) in if lag < 0 then 0 else of_int64 lag)"

definition NoteDLQ :: "broker_shard \<Rightarrow> broker_shard" where
  "NoteDLQ s = s\<lparr>bs_dlqCount := bs_dlqCount s + 1\<rparr>"

definition NoteRedelivery :: "broker_shard \<Rightarrow> broker_shard" where
  "NoteRedelivery s = s\<lparr>bs_redeliveryCount := bs_redeliveryCount s + 1\<rparr>"

definition bs_Snapshot :: "gotime \<Rightarrow> broker_shard \<Rightarrow> broker_snapshot" where
  "bs_Snapshot now s =
     \<lparr>sn_Depth = int (length (bs_messages s)), sn_InFlight = bs_inFlight s, sn_MaxConcurrency = bs_MaxConcurrency s,
      sn_ConsumerTarget = bs_ConsumerTarget s,
      sn_OldestMessageAgeMs = (case bs_messages s of [] \<Rightarrow> 0 | m # _ \<Rightarrow>
        let age = go_div (time_sub now (qm_EnqueueTime m)) nanos_per_ms in if age > 0 then of_int64 age else 0),
      sn_DropCount = bs_dropCount s, sn_RedeliveryCount = bs_redeliveryCount s, sn_DlqCount = bs_dlqCount s\<rparr>"

section \<open>The registry\<close>

text \<open>A pointer to a shard is its key in the registry: the operations that find or create a shard return the
  key together with the registry, and a caller updates the shard under that key.\<close>

record broker_queues =
  bq_queueShards :: "(string, broker_shard) gomap"
  bq_topicShards :: "(string, broker_shard) gomap"
  bq_topicPartitionHW :: "(string, int) gomap"

definition newBrokerQueues :: broker_queues where
  "newBrokerQueues = \<lparr>bq_queueShards = [], bq_topicShards = [], bq_topicPartitionHW = []\<rparr>"

definition TopicSubscriberPartitionShardKey :: "string \<Rightarrow> string \<Rightarrow> int \<Rightarrow> string \<Rightarrow> string" where
  "TopicSubscriberPartitionShardKey brokerID topicPath part consumerGroup =
     brokerID @ [CHR 0x1E] @ topicPath @ [CHR 0x1E] @ itoa part @ [CHR 0x1E] @ consumerGroup"

definition TopicPartitionLogKey :: "string \<Rightarrow> string \<Rightarrow> int \<Rightarrow> string" where
  "TopicPartitionLogKey brokerID topicPath part =
     brokerID @ [CHR 0x1F] @ topicPath @ [CHR 0x1F] @ itoa part"

definition NextTopicPartitionOffset :: "string \<Rightarrow> string \<Rightarrow> int \<Rightarrow> broker_queues \<Rightarrow> int \<times> broker_queues" where
  "NextTopicPartitionOffset brokerID topicPath part bq =
     (let k = TopicPartitionLogKey brokerID topicPath part; off = gm_get_or 0 (bq_topicPartitionHW bq) k
      in (off, bq\<lparr>bq_topicPartitionHW := gm_put k (off + 1) (bq_topicPartitionHW bq)\<rparr>))"

definition HighWatermarkExclusive :: "string \<Rightarrow> string \<Rightarrow> int \<Rightarrow> broker_queues \<Rightarrow> int" where
  "HighWatermarkExclusive brokerID topicPath part bq =
     gm_get_or 0 (bq_topicPartitionHW bq) (TopicPartitionLogKey brokerID topicPath part)"

definition new_queue_shard :: "string \<Rightarrow> string \<Rightarrow> queue_behavior \<Rightarrow> broker_shard" where
  "new_queue_shard brokerID topic eff =
     \<lparr>bs_BrokerID = brokerID, bs_Topic = topic, bs_Partition = 0,
      bs_Capacity = (if qb_Capacity eff < 0 then 0 else qb_Capacity eff),
      bs_MaxConcurrency = (if qb_ConsumerConcurrency eff \<le> 0 then 1 else qb_ConsumerConcurrency eff),
      bs_MaxRedeliveries = qb_MaxRedeliveries eff, bs_DropPolicy = qb_DropPolicy eff, bs_DLQTarget = qb_DLQTarget eff,
      bs_ConsumerTarget = qb_ConsumerTarget eff, bs_AckTimeoutMs = 0, bs_ConsumerGroup = [], bs_SubscriberName = [],
      bs_inFlight = 0, bs_messages = [], bs_dropCount = 0, bs_redeliveryCount = 0, bs_dlqCount = 0,
      bs_nextCommitExclusive = 0, bs_pendingCommit = [], bs_retentionNextFireScheduled = 0\<rparr>"

definition GetOrCreateShard :: "string \<Rightarrow> string \<Rightarrow> queue_behavior option \<Rightarrow> broker_queues \<Rightarrow> string \<times> broker_queues" where
  "GetOrCreateShard brokerID topic eff bq =
     (let eff = (case eff of None \<Rightarrow> DefaultQueueBehavior | Some e \<Rightarrow> e); key = BrokerQueueKey brokerID topic
      in if gm_get (bq_queueShards bq) key \<noteq> None then (key, bq)
         else (key, bq\<lparr>bq_queueShards := gm_put key (new_queue_shard brokerID topic eff) (bq_queueShards bq)\<rparr>))"

definition empty_subscriber :: topic_subscriber where
  "empty_subscriber = \<lparr>ts_Name = [], ts_ConsumerTarget = [], ts_ConsumerGroup = [], ts_ConsumerConcurrency = 0,
     ts_MinConsumerConcurrency = 0, ts_MaxConsumerConcurrency = 0, ts_AckTimeoutMs = 0, ts_MaxRedeliveries = 0,
     ts_DLQ = [], ts_DropPolicy = []\<rparr>"

definition new_topic_shard ::
  "string \<Rightarrow> string \<Rightarrow> int \<Rightarrow> string \<Rightarrow> topic_behavior \<Rightarrow> topic_subscriber \<Rightarrow> broker_shard" where
  "new_topic_shard brokerID topicPath part consumerGroup topicEff sub =
     \<lparr>bs_BrokerID = brokerID, bs_Topic = topicPath, bs_Partition = part,
      bs_Capacity = (if tb_Capacity topicEff < 0 then 0 else tb_Capacity topicEff),
      bs_MaxConcurrency = (if ts_ConsumerConcurrency sub \<le> 0 then 1 else ts_ConsumerConcurrency sub),
      bs_MaxRedeliveries = ts_MaxRedeliveries sub,
      bs_DropPolicy = (if trim_space (ts_DropPolicy sub) = [] then ''block'' else trim_space (ts_DropPolicy sub)),
      bs_DLQTarget = trim_space (ts_DLQ sub), bs_ConsumerTarget = trim_space (ts_ConsumerTarget sub),
      bs_AckTimeoutMs = ts_AckTimeoutMs sub, bs_ConsumerGroup = trim_space consumerGroup,
      bs_SubscriberName = trim_space (ts_Name sub),
      bs_inFlight = 0, bs_messages = [], bs_dropCount = 0, bs_redeliveryCount = 0, bs_dlqCount = 0,
      bs_nextCommitExclusive = 0, bs_pendingCommit = [], bs_retentionNextFireScheduled = 0\<rparr>"

definition GetOrCreateTopicSubscriberPartitionShard ::
  "string \<Rightarrow> string \<Rightarrow> int \<Rightarrow> string \<Rightarrow> topic_behavior option \<Rightarrow> topic_subscriber option \<Rightarrow> broker_queues \<Rightarrow> string \<times> broker_queues" where
  "GetOrCreateTopicSubscriberPartitionShard brokerID topicPath part consumerGroup topicEff sub bq =
     (let topicEff = (case topicEff of None \<Rightarrow> DefaultTopicBehavior | Some e \<Rightarrow> e);
          sub = (case sub of None \<Rightarrow> empty_subscriber | Some s \<Rightarrow> s);
          key = TopicSubscriberPartitionShardKey brokerID topicPath part consumerGroup
      in if gm_get (bq_topicShards bq) key \<noteq> None then (key, bq)
         else (key, bq\<lparr>bq_topicShards :=
                gm_put key (new_topic_shard brokerID topicPath part consumerGroup topicEff sub) (bq_topicShards bq)\<rparr>))"

definition GetShard :: "string \<Rightarrow> string \<Rightarrow> broker_queues \<Rightarrow> broker_shard option" where
  "GetShard brokerID topic bq = gm_get (bq_queueShards bq) (BrokerQueueKey brokerID topic)"

definition GetTopicSubscriberPartitionShard :: "string \<Rightarrow> string \<Rightarrow> int \<Rightarrow> string \<Rightarrow> broker_queues \<Rightarrow> broker_shard option" where
  "GetTopicSubscriberPartitionShard brokerID topicPath part consumerGroup bq =
     gm_get (bq_topicShards bq) (TopicSubscriberPartitionShardKey brokerID topicPath part consumerGroup)"

definition GetTopicShardByKey :: "string \<Rightarrow> broker_queues \<Rightarrow> broker_shard option" where
  "GetTopicShardByKey key bq = gm_get (bq_topicShards bq) key"

definition AllShards :: "broker_queues \<Rightarrow> broker_shard list" where
  "AllShards bq = map snd (bq_queueShards bq) @ map snd (bq_topicShards bq)"

definition QueueHealthSnapshots :: "gotime \<Rightarrow> broker_queues \<Rightarrow> (string \<times> string \<times> broker_snapshot) list" where
  "QueueHealthSnapshots now bq =
     map (\<lambda>(k, s). (bs_BrokerID s, bs_Topic s, bs_Snapshot now s)) (bq_queueShards bq)"

record topic_health =
  th_BrokerID :: string
  th_Topic :: string
  th_Partition :: int
  th_Subscriber :: string
  th_ConsumerGroup :: string
  th_HighWatermarkExclusive :: int
  th_CommittedOffsetExclusive :: int
  th_ConsumerLag :: float64
  th_Snapshot :: broker_snapshot

definition TopicHealthSnapshots :: "gotime \<Rightarrow> broker_queues \<Rightarrow> topic_health list" where
  "TopicHealthSnapshots now bq =
     map (\<lambda>(k, s).
       let hw = gm_get_or 0 (bq_topicPartitionHW bq) (TopicPartitionLogKey (bs_BrokerID s) (bs_Topic s) (bs_Partition s));
           committed = CommittedOffsetExclusive s
       in \<lparr>th_BrokerID = bs_BrokerID s, th_Topic = bs_Topic s, th_Partition = bs_Partition s,
           th_Subscriber = bs_SubscriberName s, th_ConsumerGroup = bs_ConsumerGroup s,
           th_HighWatermarkExclusive = hw, th_CommittedOffsetExclusive = committed,
           th_ConsumerLag = TopicConsumerLagMessages hw committed, th_Snapshot = bs_Snapshot now s\<rparr>) (bq_topicShards bq)"

section \<open>Where messages go\<close>

text \<open>A ledger follows the messages of one shard by their identifiers: those offered to it, those held by consumers,
  those finished and those dropped. The consumer that requeues a message hands back the
  one it holds, perhaps with another redelivery count.\<close>

record ledger =
  lg_shard :: broker_shard
  lg_offered :: "string list"
  lg_held :: "string list"
  lg_done :: "string list"
  lg_dropped :: "string list"

inductive broker_step :: "ledger \<Rightarrow> ledger \<Rightarrow> bool" where
  offer: "bs_Enqueue m (lg_shard L) = (r, s) \<Longrightarrow>
    broker_step L (L\<lparr>lg_shard := s, lg_offered := qm_ID m # lg_offered L,
      lg_dropped := (if \<not> er_Accepted r then [qm_ID m]
        else if er_DroppedOldest r then [qm_ID (hd (bs_messages (lg_shard L)))] else []) @ lg_dropped L\<rparr>)"
| dispatch: "TryPopForDispatch (lg_shard L) = (popped, s) \<Longrightarrow>
    broker_step L (L\<lparr>lg_shard := s, lg_held := map qm_ID (case popped of None \<Rightarrow> [] | Some m \<Rightarrow> [m]) @ lg_held L\<rparr>)"
| finish: "i \<in> set (lg_held L) \<Longrightarrow>
    broker_step L (L\<lparr>lg_shard := ConsumerFinished (lg_shard L), lg_held := remove1 i (lg_held L), lg_done := i # lg_done L\<rparr>)"
| requeue: "qm_ID m \<in> set (lg_held L) \<Longrightarrow>
    broker_step L (L\<lparr>lg_shard := RequeueFront m (lg_shard L), lg_held := remove1 (qm_ID m) (lg_held L)\<rparr>)"
| expire: "ExpireQueuedByRetention now ms (lg_shard L) = (removed, s) \<Longrightarrow>
    broker_step L (L\<lparr>lg_shard := s,
      lg_dropped := map qm_ID (take (length removed) (bs_messages (lg_shard L))) @ lg_dropped L\<rparr>)"
| commit: "broker_step L (L\<lparr>lg_shard := RecordTopicOffsetProcessed off (lg_shard L)\<rparr>)"
| note_dlq: "broker_step L (L\<lparr>lg_shard := NoteDLQ (lg_shard L)\<rparr>)"
| note_redelivery: "broker_step L (L\<lparr>lg_shard := NoteRedelivery (lg_shard L)\<rparr>)"
| note_retention: "broker_step L (L\<lparr>lg_shard := NoteRetentionScheduled t (lg_shard L)\<rparr>)"
| clear_retention: "broker_step L (L\<lparr>lg_shard := ClearRetentionSchedule (lg_shard L)\<rparr>)"

definition fresh_shard :: "broker_shard \<Rightarrow> bool" where
  "fresh_shard s \<longleftrightarrow> bs_messages s = [] \<and> bs_inFlight s = 0 \<and> bs_dropCount s = 0 \<and> 0 < bs_MaxConcurrency s"

inductive broker_reachable :: "ledger \<Rightarrow> bool" where
  new: "fresh_shard s \<Longrightarrow>
    broker_reachable \<lparr>lg_shard = s, lg_offered = [], lg_held = [], lg_done = [], lg_dropped = []\<rparr>"
| step: "broker_reachable L \<Longrightarrow> broker_step L L' \<Longrightarrow> broker_reachable L'"

definition broker_inv :: "ledger \<Rightarrow> bool" where
  "broker_inv L \<longleftrightarrow> (let s = lg_shard L in
     mset (lg_offered L) =
       mset (map qm_ID (bs_messages s)) + mset (lg_held L) + mset (lg_done L) + mset (lg_dropped L) \<and>
     bs_inFlight s = int (length (lg_held L)) \<and> bs_dropCount s = int (length (lg_dropped L)) \<and>
     0 < bs_MaxConcurrency s \<and> bs_inFlight s \<le> bs_MaxConcurrency s \<and>
     (0 < bs_Capacity s \<longrightarrow> bs_Depth s + bs_inFlight s \<le> bs_Capacity s + bs_MaxConcurrency s))"

lemma bs_Enqueue_cases:
  assumes "bs_Enqueue m s = (r, s')"
  obtains (appended) "s' = s\<lparr>bs_messages := bs_messages s @ [m]\<rparr>" "er_Accepted r" "\<not> er_DroppedOldest r"
      "\<not> capacityReached s"
  | (refused) "s' = s\<lparr>bs_dropCount := bs_dropCount s + 1\<rparr>" "\<not> er_Accepted r" "capacityReached s"
  | (evicted) oldest rest where "bs_messages s = oldest # rest"
      "s' = s\<lparr>bs_dropCount := bs_dropCount s + 1, bs_messages := rest @ [m]\<rparr>" "er_Accepted r" "er_DroppedOldest r"
      "er_EvictedTopicOffset r = qm_TopicOffset oldest" "capacityReached s" "drop_policy s = ''drop_oldest''"
proof (cases "capacityReached s")
  case False
  then have "r = accepted_plain" "s' = s\<lparr>bs_messages := bs_messages s @ [m]\<rparr>" using assms by (simp_all add: bs_Enqueue_def)
  then show ?thesis using False by (intro appended) (simp_all add: accepted_plain_def)
next
  case cap: True
  then have "bs_messages s \<noteq> []" by (auto simp: capacityReached_def)
  then obtain oldest rest where m: "bs_messages s = oldest # rest" by (cases "bs_messages s") auto
  show ?thesis
  proof (cases "drop_policy s = ''drop_oldest''")
    case True
    then show ?thesis using cap assms by (intro evicted [OF m]) (auto simp: bs_Enqueue_def m)
  next
    case False
    then have "\<exists>reason. bs_Enqueue m s = (rejected reason, s\<lparr>bs_dropCount := bs_dropCount s + 1\<rparr>)"
      using cap by (simp add: bs_Enqueue_def Let_def) blast
    then show ?thesis using assms cap by (intro refused) (auto simp: rejected_def)
  qed
qed

lemma expire_loop_eq:
  "expire_loop t ms = (map qm_TopicOffset (takeWhile (\<lambda>m. qm_EnqueueTime m \<le> t) ms),
     dropWhile (\<lambda>m. qm_EnqueueTime m \<le> t) ms)"
  by (induction ms) (auto simp: not_le)

lemma ExpireQueuedByRetention_split:
  assumes "ExpireQueuedByRetention now ms s = (removed, s')"
  shows "length removed \<le> length (bs_messages s) \<and>
    s' = s\<lparr>bs_messages := drop (length removed) (bs_messages s), bs_dropCount := bs_dropCount s + int (length removed)\<rparr>"
proof (cases "ms \<le> 0 \<or> bs_messages s = []")
  case True
  then show ?thesis using assms by (auto simp: ExpireQueuedByRetention_def)
next
  case False
  let ?P = "\<lambda>m. qm_EnqueueTime m \<le> retention_threshold now ms"
  have "removed = map qm_TopicOffset (takeWhile ?P (bs_messages s))"
    "s' = s\<lparr>bs_messages := dropWhile ?P (bs_messages s), bs_dropCount := bs_dropCount s + int (length removed)\<rparr>"
    using False assms by (auto simp: ExpireQueuedByRetention_def expire_loop_eq)
  then show ?thesis by (simp add: length_takeWhile_le dropWhile_eq_drop)
qed

lemma RecordTopicOffsetProcessed_frame:
  "bs_messages (RecordTopicOffsetProcessed off s) = bs_messages s" "bs_inFlight (RecordTopicOffsetProcessed off s) = bs_inFlight s"
  "bs_dropCount (RecordTopicOffsetProcessed off s) = bs_dropCount s"
  "bs_MaxConcurrency (RecordTopicOffsetProcessed off s) = bs_MaxConcurrency s"
  "bs_Capacity (RecordTopicOffsetProcessed off s) = bs_Capacity s"
  by (simp_all add: RecordTopicOffsetProcessed_def case_prod_unfold Let_def)

lemma Suc_length_remove1: "x \<in> set xs \<Longrightarrow> Suc (length (remove1 x xs)) = length xs"
  by (induction xs) auto

lemma mset_take_drop: "mset (map f xs) = mset (map f (take k xs)) + mset (map f (drop k xs))"
  by (metis append_take_drop_id map_append mset_append)

lemma broker_step_inv:
  assumes "broker_step L L'" "broker_inv L"
  shows "broker_inv L'"
  using assms
proof (induction rule: broker_step.induct)
  case (offer m L r s)
  show ?case
    using offer(1)
  proof (cases rule: bs_Enqueue_cases)
    case appended
    then show ?thesis using offer(2) by (auto simp: broker_inv_def Let_def bs_Depth_def capacityReached_def)
  next
    case refused
    then show ?thesis using offer(2) by (auto simp: broker_inv_def Let_def bs_Depth_def)
  next
    case (evicted oldest rest)
    then show ?thesis using offer(2) by (auto simp: broker_inv_def Let_def bs_Depth_def)
  qed
next
  case (dispatch L popped s)
  then show ?case
    by (auto simp: broker_inv_def Let_def bs_Depth_def TryPopForDispatch_def split: if_splits list.splits)
next
  case (finish i L)
  with Suc_length_remove1 [OF finish(1)] show ?case by (auto simp: broker_inv_def Let_def bs_Depth_def ConsumerFinished_def)
next
  case (requeue m L)
  with Suc_length_remove1 [OF requeue(1)] show ?case by (auto simp: broker_inv_def Let_def bs_Depth_def RequeueFront_def ConsumerFinished_def)
next
  case (expire now ms L removed s)
  note e = ExpireQueuedByRetention_split [OF expire(1)]
  have "mset (map qm_ID (bs_messages (lg_shard L))) =
      mset (map qm_ID (take (length removed) (bs_messages (lg_shard L)))) + mset (map qm_ID (bs_messages s))"
    using e mset_take_drop [of qm_ID "bs_messages (lg_shard L)" "length removed"] by simp
  with e expire(2) show ?case by (auto simp: broker_inv_def Let_def bs_Depth_def)
next
  case (commit L off)
  then show ?case by (auto simp: broker_inv_def Let_def bs_Depth_def RecordTopicOffsetProcessed_frame)
qed (auto simp: broker_inv_def Let_def bs_Depth_def NoteDLQ_def NoteRedelivery_def NoteRetentionScheduled_def
    ClearRetentionSchedule_def)

lemma broker_reachable_inv: "broker_reachable L \<Longrightarrow> broker_inv L"
proof (induction rule: broker_reachable.induct)
  case (new s)
  then show ?case by (auto simp: broker_inv_def fresh_shard_def bs_Depth_def Let_def)
qed (rule broker_step_inv)

section \<open>The commit frontier\<close>

lemma advance_commit_spec:
  "advance_commit n ps = (n', ps') \<Longrightarrow>
   n \<le> n' \<and> {n ..< n'} \<subseteq> set ps \<and> n' \<notin> set ps \<and> set ps' = set ps - {n ..< n'}"
proof (induction n ps arbitrary: n' ps' rule: advance_commit.induct)
  case (1 n ps)
  show ?case
  proof (cases "n \<in> set ps")
    case True
    then have "advance_commit (n + 1) (removeAll n ps) = (n', ps')" using 1(2) by (simp add: advance_commit.simps [of n])
    from 1(1) [OF True this] have ih: "n + 1 \<le> n'" "{n + 1 ..< n'} \<subseteq> set (removeAll n ps)" "n' \<notin> set (removeAll n ps)"
      "set ps' = set (removeAll n ps) - {n + 1 ..< n'}" by auto
    have "{n ..< n'} = insert n {n + 1 ..< n'}" using ih(1) by auto
    then show ?thesis using ih True by auto
  next
    case False
    then show ?thesis using 1(2) by (simp add: advance_commit.simps [of n])
  qed
qed

definition frontier_inv :: "int set \<Rightarrow> broker_shard \<Rightarrow> bool" where
  "frontier_inv P s \<longleftrightarrow> 0 \<le> bs_nextCommitExclusive s \<and> {0 ..< bs_nextCommitExclusive s} \<subseteq> P \<and>
     bs_nextCommitExclusive s \<notin> P \<and> set (bs_pendingCommit s) = {off \<in> P. bs_nextCommitExclusive s < off}"

lemma frontier_step:
  assumes "frontier_inv P s" "0 \<le> off"
  shows "frontier_inv (insert off P) (RecordTopicOffsetProcessed off s)"
proof (cases "off < bs_nextCommitExclusive s")
  case True
  then have "off \<in> P" using assms by (auto simp: frontier_inv_def)
  then show ?thesis using assms(1) True by (simp add: RecordTopicOffsetProcessed_def insert_absorb)
next
  case False
  let ?n = "bs_nextCommitExclusive s"
  obtain n' ps' where a: "advance_commit ?n (List.insert off (bs_pendingCommit s)) = (n', ps')"
    by (cases "advance_commit ?n (List.insert off (bs_pendingCommit s))")
  have p: "set (List.insert off (bs_pendingCommit s)) = insert off {x \<in> P. ?n < x}"
    using assms(1) by (simp add: frontier_inv_def)
  note n = advance_commit_spec [OF a, unfolded p]
  have f: "0 \<le> ?n" "{0 ..< ?n} \<subseteq> P" "?n \<notin> P" using assms(1) by (auto simp: frontier_inv_def)
  have s': "RecordTopicOffsetProcessed off s = s\<lparr>bs_nextCommitExclusive := n', bs_pendingCommit := ps'\<rparr>"
    using False a by (simp add: RecordTopicOffsetProcessed_def)
  have "{0 ..< n'} = {0 ..< ?n} \<union> {?n ..< n'}" using n f(1) by auto
  moreover have "{?n ..< n'} \<subseteq> insert off P" using n by auto
  ultimately have 1: "{0 ..< n'} \<subseteq> insert off P" using f(2) by auto
  have 2: "n' \<notin> insert off P"
  proof
    assume "n' \<in> insert off P"
    with n have "n' \<in> P" "n' \<le> ?n" by auto
    then show False using n f(3) by (metis antisym)
  qed
  have "?n \<le> n'" using n by blast
  have ps': "set ps' = insert off {x \<in> P. ?n < x} - {?n ..< n'}" using n by blast
  have 3: "set ps' = {x \<in> insert off P. n' < x}"
  proof (rule set_eqI)
    fix x
    show "x \<in> set ps' \<longleftrightarrow> x \<in> {x \<in> insert off P. n' < x}"
      using 2 False \<open>?n \<le> n'\<close> by (cases "x = n'") (auto simp: ps')
  qed
  show ?thesis unfolding frontier_inv_def s' using 1 2 3 n f(1) by simp
qed

lemma frontier_fold:
  assumes "\<forall>off \<in> set offs. 0 \<le> off" "frontier_inv P s"
  shows "frontier_inv (P \<union> set offs) (fold RecordTopicOffsetProcessed offs s)"
  using assms
proof (induction offs arbitrary: P s)
  case (Cons off offs)
  then show ?case using Cons.IH [of "insert off P" "RecordTopicOffsetProcessed off s"] frontier_step by simp
qed simp

section \<open>Offsets\<close>

fun assign_offsets :: "string \<Rightarrow> string \<Rightarrow> int \<Rightarrow> nat \<Rightarrow> broker_queues \<Rightarrow> int list \<times> broker_queues" where
  "assign_offsets b t part 0 bq = ([], bq)"
| "assign_offsets b t part (Suc n) bq =
     (let (off, bq1) = NextTopicPartitionOffset b t part bq; (offs, bq2) = assign_offsets b t part n bq1 in (off # offs, bq2))"

lemma NextTopicPartitionOffset_eq:
  "NextTopicPartitionOffset b t part bq = (off, bq') \<Longrightarrow>
   off = HighWatermarkExclusive b t part bq \<and> HighWatermarkExclusive b t part bq' = off + 1 \<and>
   bq_queueShards bq' = bq_queueShards bq \<and> bq_topicShards bq' = bq_topicShards bq \<and>
   (TopicPartitionLogKey b' t' part' \<noteq> TopicPartitionLogKey b t part \<longrightarrow>
      HighWatermarkExclusive b' t' part' bq' = HighWatermarkExclusive b' t' part' bq)"
  by (auto simp: NextTopicPartitionOffset_def HighWatermarkExclusive_def Let_def)

lemma assign_offsets_eq:
  "fst (assign_offsets b t part n bq) =
     map (\<lambda>k. HighWatermarkExclusive b t part bq + int k) [0..<n] \<and>
   HighWatermarkExclusive b t part (snd (assign_offsets b t part n bq)) = HighWatermarkExclusive b t part bq + int n \<and>
   (TopicPartitionLogKey b' t' part' \<noteq> TopicPartitionLogKey b t part \<longrightarrow>
      HighWatermarkExclusive b' t' part' (snd (assign_offsets b t part n bq)) = HighWatermarkExclusive b' t' part' bq)"
proof (induction n arbitrary: bq)
  case (Suc n)
  obtain off bq1 where o: "NextTopicPartitionOffset b t part bq = (off, bq1)"
    by (cases "NextTopicPartitionOffset b t part bq")
  note e = NextTopicPartitionOffset_eq [OF o, of b' t' part']
  have "map (\<lambda>k. HighWatermarkExclusive b t part bq + int k) [0..<Suc n] =
      off # map (\<lambda>k. HighWatermarkExclusive b t part bq1 + int k) [0..<n]"
    using e unfolding upt_conv_Cons [OF zero_less_Suc] map_Suc_upt [symmetric] by (simp add: algebra_simps)
  then show ?case using Suc [of bq1] e by (simp add: o case_prod_unfold Let_def)
qed simp

section \<open>Properties\<close>

text \<open>C9: a broker shard loses and duplicates nothing. After any sequence of publishes, dispatches,
  acknowledgements, redeliveries and retention sweeps the messages offered are exactly those queued,
  those held by a consumer, those finished and those counted as dropped; the in-flight counter is
  the number held and never exceeds the concurrency; and a shard with a capacity holds, queued and in
  flight together, at most the capacity plus the concurrency.\<close>

theorem broker_conservation:
  assumes "broker_reachable L"
  shows "mset (lg_offered L) =
      mset (map qm_ID (bs_messages (lg_shard L))) + mset (lg_held L) + mset (lg_done L) + mset (lg_dropped L) \<and>
    bs_inFlight (lg_shard L) = int (length (lg_held L)) \<and> bs_dropCount (lg_shard L) = int (length (lg_dropped L)) \<and>
    bs_inFlight (lg_shard L) \<le> bs_MaxConcurrency (lg_shard L) \<and>
    (0 < bs_Capacity (lg_shard L) \<longrightarrow>
       bs_Depth (lg_shard L) + bs_inFlight (lg_shard L) \<le> bs_Capacity (lg_shard L) + bs_MaxConcurrency (lg_shard L))"
  using broker_reachable_inv [OF assms] unfolding broker_inv_def Let_def by blast

definition demo_shard :: broker_shard where
  "demo_shard = new_queue_shard ''mq'' ''/t'' (DefaultQueueBehavior\<lparr>qb_Capacity := 1, qb_DropPolicy := '' Drop_Oldest''\<rparr>)"

definition demo_message :: "string \<Rightarrow> gotime \<Rightarrow> int \<Rightarrow> queued_message" where
  "demo_message i t off = \<lparr>qm_ID = i, qm_EnqueueTime = t, qm_Redeliveries = 0, qm_ParentRequestID = [], qm_TraceID = [],
     qm_Metadata = [], qm_TopicOffset = off\<rparr>"

lemma demo_shard_fresh: "fresh_shard demo_shard"
  by (simp add: fresh_shard_def demo_shard_def new_queue_shard_def DefaultQueueBehavior_def)

theorem broker_conservation_witness:
  "\<exists>L. broker_reachable L \<and> lg_offered L = [''m2'', ''m1''] \<and>
     mset [''m2'', ''m1''] = mset (map qm_ID (bs_messages (lg_shard L))) + mset (lg_held L) + mset (lg_done L) + mset (lg_dropped L)"
proof -
  define L0 where "L0 = \<lparr>lg_shard = demo_shard, lg_offered = [], lg_held = [], lg_done = [], lg_dropped = []\<rparr>"
  have "broker_reachable L0" unfolding L0_def by (rule broker_reachable.new [OF demo_shard_fresh])
  then obtain L1 where "broker_reachable L1" "lg_offered L1 = [''m1'']"
    using broker_reachable.step [OF _ broker_step.offer [OF surjective_pairing, of L0 "demo_message ''m1'' 1 0"]]
    by (auto simp: demo_message_def L0_def)
  then obtain L2 where L2: "broker_reachable L2" "lg_offered L2 = [''m2'', ''m1'']"
    using broker_reachable.step [OF _ broker_step.offer [OF surjective_pairing, of L1 "demo_message ''m2'' 2 1"]]
    by (auto simp: demo_message_def)
  from broker_conservation [OF this(1)] L2 show ?thesis by metis
qed

text \<open>C11: the committed offset of a subscriber group is the least offset not yet processed. Whatever the
  order in which non-negative offsets are recorded and however often, every offset below the frontier has been
  recorded, the frontier itself has not, and the pending offsets are the recorded ones above it.\<close>

theorem commit_frontier_least:
  assumes "bs_nextCommitExclusive s = 0" "bs_pendingCommit s = []" "\<forall>off \<in> set offs. 0 \<le> off"
  shows "let s' = fold RecordTopicOffsetProcessed offs s; frontier = CommittedOffsetExclusive s' in
    0 \<le> frontier \<and> (\<forall>off. 0 \<le> off \<and> off < frontier \<longrightarrow> off \<in> set offs) \<and> frontier \<notin> set offs \<and>
    set (bs_pendingCommit s') = {off \<in> set offs. frontier < off}"
proof -
  have "frontier_inv {} s" using assms(1,2) by (simp add: frontier_inv_def)
  from frontier_fold [OF assms(3) this] show ?thesis
    by (auto simp: frontier_inv_def CommittedOffsetExclusive_def Let_def subset_iff)
qed

theorem commit_frontier_least_witness:
  "CommittedOffsetExclusive (fold RecordTopicOffsetProcessed [2, 0, 4, 1, 0] demo_shard) \<notin> set [2, 0, 4, 1, 0]"
  using commit_frontier_least [of demo_shard "[2, 0, 4, 1, 0]"]
  by (simp add: Let_def demo_shard_def new_queue_shard_def DefaultQueueBehavior_def del: fold_simps)

text \<open>Retention removes exactly the expired messages. When the queued messages are in the order
  of their enqueue times, a sweep with a retention of \<open>ms\<close> milliseconds (that fits a duration) keeps
  precisely the younger ones, in order, returns the offsets of the others, and counts them as dropped.\<close>

theorem retention_exact:
  assumes "sorted (map qm_EnqueueTime (bs_messages s))" "0 < ms" "ms * nanos_per_ms < 2 ^ 63"
  shows "let (removed, s') = ExpireQueuedByRetention now ms s; old = (\<lambda>m. now - qm_EnqueueTime m \<ge> ms * nanos_per_ms) in
    bs_messages s' = filter (\<lambda>m. \<not> old m) (bs_messages s) \<and>
    removed = map qm_TopicOffset (filter old (bs_messages s)) \<and>
    bs_dropCount s' = bs_dropCount s + int (length (filter old (bs_messages s)))"
proof -
  let ?t = "retention_threshold now ms"
  have "wrap64 (- ms) = - ms" using assms(2,3) by (intro wrap64_id) auto
  moreover have "wrap64 (- ms * nanos_per_ms) = - ms * nanos_per_ms" using assms(2,3) by (intro wrap64_id) auto
  ultimately have t: "?t = now - ms * nanos_per_ms" by (simp add: retention_threshold_def)
  have split: "takeWhile (\<lambda>m. qm_EnqueueTime m \<le> ?t) xs = filter (\<lambda>m. qm_EnqueueTime m \<le> ?t) xs \<and>
      dropWhile (\<lambda>m. qm_EnqueueTime m \<le> ?t) xs = filter (\<lambda>m. \<not> qm_EnqueueTime m \<le> ?t) xs"
    if "sorted (map qm_EnqueueTime xs)" for xs
    using that
  proof (induction xs)
    case (Cons m xs)
    show ?case
    proof (cases "qm_EnqueueTime m \<le> ?t")
      case False
      then have "\<forall>x \<in> set xs. \<not> qm_EnqueueTime x \<le> ?t" using Cons.prems by fastforce
      then show ?thesis using False by (simp add: filter_id_conv filter_empty_conv)
    qed (use Cons in simp)
  qed simp
  have old: "(\<lambda>m. now - qm_EnqueueTime m \<ge> ms * nanos_per_ms) = (\<lambda>m. qm_EnqueueTime m \<le> ?t)"
    by (auto simp: t fun_eq_iff)
  show ?thesis unfolding old using split [OF assms(1)] assms(2)
    by (auto simp: ExpireQueuedByRetention_def expire_loop_eq Let_def)
qed

theorem retention_exact_witness:
  "map qm_ID (bs_messages (snd (ExpireQueuedByRetention 5000000 2
     (demo_shard\<lparr>bs_messages := [demo_message ''a'' 1 0, demo_message ''b'' 4000000 1]\<rparr>)))) = [''b'']"
  using retention_exact [of "demo_shard\<lparr>bs_messages := [demo_message ''a'' 1 0, demo_message ''b'' 4000000 1]\<rparr>" 2 5000000]
  by (simp add: demo_message_def case_prod_unfold Let_def)

text \<open>The offsets of a topic partition are consecutive from its high watermark, which ends past the
  last of them, and assigning them moves no other partition. A group that has processed only assigned
  offsets of a fresh partition never commits past the watermark, and its lag is the distance.\<close>

theorem topic_offsets_and_lag:
  assumes "bs_nextCommitExclusive s = 0" "bs_pendingCommit s = []"
    and "HighWatermarkExclusive b t part bq = 0" "n < 2 ^ 53"
    and "set offs \<subseteq> set (fst (assign_offsets b t part n bq))"
  shows "let (assigned, bq') = assign_offsets b t part n bq; hw = HighWatermarkExclusive b t part bq';
      committed = CommittedOffsetExclusive (fold RecordTopicOffsetProcessed offs s) in
    assigned = map int [0..<n] \<and> hw = int n \<and> committed \<le> hw \<and>
    TopicConsumerLagMessages hw committed = of_int (hw - committed) \<and>
    (TopicPartitionLogKey b' t' part' \<noteq> TopicPartitionLogKey b t part \<longrightarrow>
       HighWatermarkExclusive b' t' part' bq' = HighWatermarkExclusive b' t' part' bq)"
proof -
  define c where "c = CommittedOffsetExclusive (fold RecordTopicOffsetProcessed offs s)"
  note a = assign_offsets_eq [of b t part n bq b' t' part']
  have as: "fst (assign_offsets b t part n bq) = map int [0..<n]" using a assms(3) by simp
  then have o: "\<forall>off \<in> set offs. 0 \<le> off" "set offs \<subseteq> int ` {0..<n}" using assms(5) by auto
  have "frontier_inv {} s" using assms(1,2) by (simp add: frontier_inv_def)
  from frontier_fold [OF o(1) this] have f: "0 \<le> c" "{0 ..< c} \<subseteq> set offs"
    by (auto simp: frontier_inv_def c_def CommittedOffsetExclusive_def)
  have c: "c \<le> int n"
  proof (rule ccontr)
    assume "\<not> c \<le> int n"
    then have "int n \<in> {0 ..< c}" by simp
    then have "int n \<in> int ` {0..<n}" using f(2) o(2) by blast
    then show False by auto
  qed
  have "wrap64 (int n - c) = int n - c" using c f(1) assms(4) by (intro wrap64_id) auto
  moreover have "of_int64 (int n - c) = of_int (int n - c)" using c f(1) assms(4) by (intro of_int64_exact) auto
  ultimately have "TopicConsumerLagMessages (int n) c = of_int (int n - c)"
    using c by (simp add: TopicConsumerLagMessages_def)
  then show ?thesis using a as assms(3) c by (simp add: case_prod_unfold Let_def c_def)
qed

theorem topic_offsets_and_lag_witness:
  "CommittedOffsetExclusive (fold RecordTopicOffsetProcessed [1, 0] demo_shard) \<le>
     HighWatermarkExclusive ''mq'' ''/t'' 0 (snd (assign_offsets ''mq'' ''/t'' 0 3 newBrokerQueues))"
proof -
  have h: "HighWatermarkExclusive ''mq'' ''/t'' 0 newBrokerQueues = 0"
    by (simp add: HighWatermarkExclusive_def newBrokerQueues_def gm_get_or_def)
  then have o: "set [1, 0] \<subseteq> set (fst (assign_offsets ''mq'' ''/t'' 0 3 newBrokerQueues))"
    using assign_offsets_eq [of "''mq''" "''/t''" 0 3 newBrokerQueues] by simp
  have "bs_nextCommitExclusive demo_shard = 0" "bs_pendingCommit demo_shard = []"
    by (simp_all add: demo_shard_def new_queue_shard_def)
  from topic_offsets_and_lag [OF this h _ o, of "[]" "[]" 0] show ?thesis
    by (simp add: case_prod_unfold Let_def del: fold_simps)
qed

end
