(* ===== verification/Resource_Manager.thy ===== *)
theory Resource_Manager
  imports Sim_Host Broker_Queue Sim_Models Go_Hash
begin

text \<open>
  The resource manager (\<open>internal/resource/manager.go\<close>, \<open>routing.go\<close> and \<open>placement.go\<close>). A pointer to an instance or a host is
  its identifier, the key of the manager's own map; the cache of routable instances holds identifiers. Go ranges over
  a map in an arbitrary order, which here is the order of the association list: nothing is assumed of
  it. An operation that can fail returns the error, if any, next to the manager, since the code
  keeps the changes made before it. Wall-clock times, random numbers and \<open>fmt.Sprint\<close> are arguments.
\<close>

definition DefaultInstanceCPUCores :: float64 where
  "DefaultInstanceCPUCores = 1"

definition DefaultInstanceMemoryMB :: float64 where
  "DefaultInstanceMemoryMB = 512"

definition DefaultMemoryDownsizeHeadroomMB :: float64 where
  "DefaultMemoryDownsizeHeadroomMB = 16"

definition DefaultDrainTimeout :: duration where
  "DefaultDrainTimeout = 3600 * nanos_per_s"

record 'r resource_manager =
  mr_hosts :: "(string, sim_host) gomap"
  mr_instances :: "(string, service_instance) gomap"
  mr_hostToInstances :: "(string, string list) gomap"
  mr_roundRobinIdx :: "(string, int) gomap"
  mr_weightedRoundRobinIdx :: "(string, int) gomap"
  mr_sortedServiceInstMap :: "(string, string list) gomap"
  mr_serviceRouting :: "(string, routing_policy) gomap"
  mr_endpointRouting :: "(string, routing_policy) gomap"
  mr_routingRand :: 'r
  mr_nextInstanceID :: int
  mr_drainTimeout :: duration
  mr_lastSimTime :: gotime
  mr_brokerQueues :: broker_queues

definition mr_NewManager :: "'r \<Rightarrow> 'r resource_manager" where
  "mr_NewManager rng =
     \<lparr>mr_hosts = [], mr_instances = [], mr_hostToInstances = [], mr_roundRobinIdx = [], mr_weightedRoundRobinIdx = [],
      mr_sortedServiceInstMap = [], mr_serviceRouting = [], mr_endpointRouting = [], mr_routingRand = rng,
      mr_nextInstanceID = 0, mr_drainTimeout = 0, mr_lastSimTime = 0, mr_brokerQueues = newBrokerQueues\<rparr>"

section \<open>Placement\<close>

definition hostMemoryCapacityMB :: "sim_host \<Rightarrow> float64" where
  "hostMemoryCapacityMB h = fmul (of_int64 (if sh_memoryGB h < 1 then 1 else sh_memoryGB h)) 1024"

definition instances_on :: "'r resource_manager \<Rightarrow> string \<Rightarrow> string list" where
  "instances_on m hostID = gm_get_or [] (mr_hostToInstances m) hostID"

definition collectInstancesForHost :: "'r resource_manager \<Rightarrow> string \<Rightarrow> service_instance list" where
  "collectInstancesForHost m hostID = List.map_filter (gm_get (mr_instances m)) (instances_on m hostID)"

definition sum_cores :: "service_instance list \<Rightarrow> float64" where
  "sum_cores insts = foldl (\<lambda>total inst. fadd total (si_cpuCores inst)) 0 insts"

definition sum_memory :: "service_instance list \<Rightarrow> float64" where
  "sum_memory insts = foldl (\<lambda>total inst. fadd total (si_memoryMB inst)) 0 insts"

definition cpu_limit :: "int \<Rightarrow> float64" where
  "cpu_limit cores = fadd (of_int64 cores) (fl (1 / 1000000000))"

definition memory_limit :: "float64 \<Rightarrow> float64" where
  "memory_limit capMem = fadd capMem (fl (1 / 1000000))"

definition fits :: "sim_host \<Rightarrow> float64 \<times> float64 \<Rightarrow> float64 \<Rightarrow> float64 \<Rightarrow> bool" where
  "fits h load cpuCores memoryMB \<longleftrightarrow>
     fadd (fst load) cpuCores \<le> cpu_limit (sh_cpuCores h) \<and> fadd (snd load) memoryMB \<le> memory_limit (hostMemoryCapacityMB h)"

definition rotation :: "nat \<Rightarrow> 'a list \<Rightarrow> 'a list" where
  "rotation start xs = map (\<lambda>j. xs ! ((start + j) mod length xs)) [0..<length xs]"

definition HostIDs :: "'r resource_manager \<Rightarrow> string list" where
  "HostIDs m = sort (gm_keys (mr_hosts m))"

definition service_ids :: "'r resource_manager \<Rightarrow> string \<Rightarrow> string list" where
  "service_ids m serviceName = map fst (filter (\<lambda>(i, inst). si_serviceName inst = serviceName) (mr_instances m))"

definition getInstancesForService :: "'r resource_manager \<Rightarrow> string \<Rightarrow> service_instance list" where
  "getInstancesForService m serviceName = filter (\<lambda>inst. si_serviceName inst = serviceName) (map snd (mr_instances m))"

definition pickHostForNewInstance :: "'r resource_manager \<Rightarrow> string \<Rightarrow> float64 \<Rightarrow> float64 \<Rightarrow> go_error + string" where
  "pickHostForNewInstance m serviceID cpuCores memoryMB =
     (let hostIDs = HostIDs m; existing = length (getInstancesForService m serviceID)
      in if hostIDs = [] then Inl (Err ''no hosts available'')
         else case find (\<lambda>hid. case gm_get (mr_hosts m) hid of None \<Rightarrow> False | Some h \<Rightarrow>
                     let insts = collectInstancesForHost m hid in fits h (sum_cores insts, sum_memory insts) cpuCores memoryMB)
                   (rotation (existing mod length hostIDs) hostIDs) of
                None \<Rightarrow> Inl (Err ''no host has capacity for new instance (need %.2f CPU cores, %.2f MB memory)'')
              | Some hid \<Rightarrow> Inr hid)"

definition instance_id :: "string \<Rightarrow> int \<Rightarrow> string" where
  "instance_id serviceID n = serviceID @ ''-instance-'' @ itoa n"

definition update_host :: "string \<Rightarrow> (sim_host \<Rightarrow> sim_host) \<Rightarrow> 'r resource_manager \<Rightarrow> 'r resource_manager" where
  "update_host hostID f m =
     (case gm_get (mr_hosts m) hostID of None \<Rightarrow> m | Some h \<Rightarrow> m\<lparr>mr_hosts := gm_put hostID (f h) (mr_hosts m)\<rparr>)"

definition update_instance :: "string \<Rightarrow> (service_instance \<Rightarrow> service_instance) \<Rightarrow> 'r resource_manager \<Rightarrow> 'r resource_manager" where
  "update_instance i f m =
     (case gm_get (mr_instances m) i of None \<Rightarrow> m | Some inst \<Rightarrow> m\<lparr>mr_instances := gm_put i (f inst) (mr_instances m)\<rparr>)"

definition place_instance ::
  "gotime \<Rightarrow> string \<Rightarrow> string \<Rightarrow> string \<Rightarrow> float64 \<Rightarrow> float64 \<Rightarrow> 'r resource_manager \<Rightarrow> 'r resource_manager" where
  "place_instance now i serviceID hostID cpuCores memoryMB m =
     (let m1 = m\<lparr>mr_instances := gm_put i (NewServiceInstance now i serviceID hostID cpuCores memoryMB) (mr_instances m)\<rparr>;
          m2 = update_host hostID (AddService i) m1
      in m2\<lparr>mr_hostToInstances := gm_put hostID (instances_on m2 hostID @ [i]) (mr_hostToInstances m2)\<rparr>)"

definition routable_ids :: "(string, service_instance) gomap \<Rightarrow> string \<Rightarrow> string list" where
  "routable_ids insts sn =
     sort (map (si_id \<circ> snd) (filter (\<lambda>(i, inst). IsRoutable inst \<and> si_serviceName inst = sn) insts))"

definition rebuildSortedInstanceCache :: "'r resource_manager \<Rightarrow> 'r resource_manager" where
  "rebuildSortedInstanceCache m =
     (let names = remdups (map (si_serviceName \<circ> snd) (filter (\<lambda>(i, inst). IsRoutable inst) (mr_instances m)));
          next = map (\<lambda>sn. (sn, routable_ids (mr_instances m) sn)) names;
          rr = fold (\<lambda>(sn, ids) rr. if ids \<noteq> [] \<and> gm_get_or 0 rr sn \<ge> int (length ids) then gm_put sn 0 rr else rr)
                 next (mr_roundRobinIdx m)
      in m\<lparr>mr_sortedServiceInstMap := next, mr_roundRobinIdx := rr\<rparr>)"

section \<open>Initialization\<close>

definition add_host :: "host_spec \<Rightarrow> 'r resource_manager \<Rightarrow> 'r resource_manager" where
  "add_host hc m =
     (let memoryGB = (if ho_MemoryGB hc \<le> 0 then 16 else ho_MemoryGB hc)
      in m\<lparr>mr_hosts := gm_put (ho_ID hc) (SetLabels (ho_Labels hc) (SetZone (ho_Zone hc) (NewHost (ho_ID hc) (ho_Cores hc) memoryGB)))
             (mr_hosts m)\<rparr>)"

definition zone_allowed :: "service \<Rightarrow> sim_host \<Rightarrow> bool" where
  "zone_allowed svc h =
     (case sv_Placement svc of None \<Rightarrow> True | Some p \<Rightarrow> pp_RequiredZones p = [] \<or>
        (\<exists>z \<in> set (pp_RequiredZones p). equal_fold (trim_space (sh_zone h)) (trim_space z)))"

definition anti_affinity_conflict :: "service \<Rightarrow> service_instance list \<Rightarrow> bool" where
  "anti_affinity_conflict svc insts =
     (case sv_Placement svc of None \<Rightarrow> False | Some p \<Rightarrow>
        \<exists>inst \<in> set insts. \<exists>blocked \<in> set (pp_AntiAffinityServices p).
          equal_fold (trim_space blocked) (trim_space (si_serviceName inst)))"

record 'r placing =
  pl_manager :: "'r resource_manager"
  pl_load :: "(string, float64 \<times> float64) gomap"
  pl_instanceID :: int

definition place_replica ::
  "gotime \<Rightarrow> string list \<Rightarrow> service \<Rightarrow> float64 \<Rightarrow> float64 \<Rightarrow> nat \<Rightarrow> 'r placing \<Rightarrow> go_error option \<times> 'r placing" where
  "place_replica now hostIDs svc cpuCores memoryMB replica st =
     (let m = pl_manager st
      in case find (\<lambda>hid. case gm_get (mr_hosts m) hid of None \<Rightarrow> False | Some h \<Rightarrow>
                zone_allowed svc h \<and> \<not> anti_affinity_conflict svc (collectInstancesForHost m hid) \<and>
                fits h (gm_get_or (0, 0) (pl_load st) hid) cpuCores memoryMB)
              (rotation (replica mod length hostIDs) hostIDs) of
           None \<Rightarrow> (Some (Err ''cannot place service %s: insufficient host capacity''), st)
         | Some hid \<Rightarrow>
             let l = gm_get_or (0, 0) (pl_load st) hid; i = instance_id (sv_ID svc) (pl_instanceID st)
             in (None, \<lparr>pl_manager = place_instance now i (sv_ID svc) hid cpuCores memoryMB m,
                        pl_load = gm_put hid (fadd (fst l) cpuCores, fadd (snd l) memoryMB) (pl_load st),
                        pl_instanceID = pl_instanceID st + 1\<rparr>))"

fun place_replicas ::
  "gotime \<Rightarrow> string list \<Rightarrow> service \<Rightarrow> float64 \<Rightarrow> float64 \<Rightarrow> nat list \<Rightarrow> 'r placing \<Rightarrow> go_error option \<times> 'r placing" where
  "place_replicas now hostIDs svc cpuCores memoryMB [] st = (None, st)"
| "place_replicas now hostIDs svc cpuCores memoryMB (replica # replicas) st =
     (case place_replica now hostIDs svc cpuCores memoryMB replica st of
        (Some err, st1) \<Rightarrow> (Some err, st1)
      | (None, st1) \<Rightarrow> place_replicas now hostIDs svc cpuCores memoryMB replicas st1)"

definition note_routing :: "service \<Rightarrow> 'r resource_manager \<Rightarrow> 'r resource_manager" where
  "note_routing svc m =
     (let m1 = (case sv_Routing svc of None \<Rightarrow> m | Some r \<Rightarrow> m\<lparr>mr_serviceRouting := gm_put (sv_ID svc) r (mr_serviceRouting m)\<rparr>)
      in fold (\<lambda>ep m. case ep_Routing ep of None \<Rightarrow> m
                | Some r \<Rightarrow> m\<lparr>mr_endpointRouting := gm_put (sv_ID svc @ '':'' @ ep_Path ep) r (mr_endpointRouting m)\<rparr>)
           (sv_Endpoints svc) m1)"

fun place_services :: "gotime \<Rightarrow> string list \<Rightarrow> service list \<Rightarrow> 'r placing \<Rightarrow> go_error option \<times> 'r placing" where
  "place_services now hostIDs [] st = (None, st)"
| "place_services now hostIDs (svc # svcs) st =
     (let st0 = st\<lparr>pl_manager := note_routing svc (pl_manager st)\<rparr>;
          cpuCores = (if sv_CPUCores svc = 0 then DefaultInstanceCPUCores else sv_CPUCores svc);
          memoryMB = (if sv_MemoryMB svc = 0 then DefaultInstanceMemoryMB else sv_MemoryMB svc)
      in case place_replicas now hostIDs svc cpuCores memoryMB [0..<nat (sv_Replicas svc)] st0 of
           (Some err, st1) \<Rightarrow> (Some err, st1)
         | (None, st1) \<Rightarrow> place_services now hostIDs svcs st1)"

definition InitializeFromScenario :: "gotime \<Rightarrow> scenario \<Rightarrow> 'r resource_manager \<Rightarrow> go_error option \<times> 'r resource_manager" where
  "InitializeFromScenario now s m0 =
     (let m = fold add_host (sc_Hosts s) m0; hostIDs = HostIDs m
      in if hostIDs = [] then (Some (Err ''no hosts defined''), m)
         else case place_services now hostIDs (sc_Services s)
                     \<lparr>pl_manager = m, pl_load = map (\<lambda>i. (i, (0, 0))) hostIDs, pl_instanceID = 0\<rparr> of
                (Some err, st) \<Rightarrow> (Some err, pl_manager st)
              | (None, st) \<Rightarrow> (None, rebuildSortedInstanceCache ((pl_manager st)\<lparr>mr_nextInstanceID := pl_instanceID st\<rparr>)))"

section \<open>Scaling services\<close>

definition SelectInstanceForService :: "string \<Rightarrow> 'r resource_manager \<Rightarrow> (go_error + string) \<times> 'r resource_manager" where
  "SelectInstanceForService serviceName m =
     (case gm_get (mr_sortedServiceInstMap m) serviceName of
        None \<Rightarrow> (Inl (Err ''no instances available for service %s''), m)
      | Some ids \<Rightarrow>
          if ids = [] then (Inl (Err ''no instances available for service %s''), m)
          else let idx = gm_get_or 0 (mr_roundRobinIdx m) serviceName
               in case slice_get ids idx of
                    Inl err \<Rightarrow> (Inl err, m)
                  | Inr i \<Rightarrow> (Inr i, m\<lparr>mr_roundRobinIdx :=
                        gm_put serviceName (go_mod (idx + 1) (int (length ids))) (mr_roundRobinIdx m)\<rparr>))"

definition effectiveDrainTimeout :: "duration \<Rightarrow> 'r resource_manager \<Rightarrow> duration" where
  "effectiveDrainTimeout optTimeout m =
     (if optTimeout > 0 then optTimeout else if mr_drainTimeout m > 0 then mr_drainTimeout m else DefaultDrainTimeout)"

fun add_replicas ::
  "gotime \<Rightarrow> string \<Rightarrow> float64 \<Rightarrow> float64 \<Rightarrow> nat \<Rightarrow> 'r resource_manager \<Rightarrow> go_error option \<times> 'r resource_manager" where
  "add_replicas now serviceID cpuCores memoryMB 0 m = (None, m)"
| "add_replicas now serviceID cpuCores memoryMB (Suc n) m =
     (case pickHostForNewInstance m serviceID cpuCores memoryMB of
        Inl err \<Rightarrow> (Some err, m)
      | Inr hostID \<Rightarrow>
          let i = instance_id serviceID (mr_nextInstanceID m);
              m1 = place_instance now i serviceID hostID cpuCores memoryMB
                     (m\<lparr>mr_nextInstanceID := mr_nextInstanceID m + 1\<rparr>)
          in add_replicas now serviceID cpuCores memoryMB n m1)"

definition active_ids :: "'r resource_manager \<Rightarrow> string list \<Rightarrow> string list" where
  "active_ids m ids = filter (\<lambda>i. case gm_get (mr_instances m) i of None \<Rightarrow> False
     | Some inst \<Rightarrow> si_lifecycle inst = InstanceActive) ids"

definition ScaleServiceWithOptions ::
  "gotime \<Rightarrow> string \<Rightarrow> int \<Rightarrow> gotime \<Rightarrow> duration \<Rightarrow> 'r resource_manager \<Rightarrow> go_error option \<times> 'r resource_manager" where
  "ScaleServiceWithOptions now serviceID newReplicas optSimTime optTimeout m =
     (if newReplicas < 1 then (Some (Err ''replicas must be at least 1, got %d''), m)
      else let simTime = (if is_zero_time optSimTime then now else optSimTime);
               deadline = simTime + effectiveDrainTimeout optTimeout m;
               allInst = sort (service_ids m serviceID);
               activeInst = active_ids m allInst; activeN = int (length activeInst)
           in if allInst = [] then (Some (Err ''service not found: %s''), m)
              else if newReplicas > activeN
              then if mr_hosts m = [] then (Some (Err ''no hosts available''), m)
                   else (case activeInst of
                           [] \<Rightarrow> (Some (Panic ''index out of range''), m)
                         | template # _ \<Rightarrow>
                             (case gm_get (mr_instances m) template of
                                None \<Rightarrow> (Some (Panic ''nil pointer dereference''), m)
                              | Some t \<Rightarrow>
                                  (case add_replicas now serviceID (si_cpuCores t) (si_memoryMB t) (nat (newReplicas - activeN)) m of
                                     (Some err, m1) \<Rightarrow> (Some err, m1)
                                   | (None, m1) \<Rightarrow> (None, rebuildSortedInstanceCache m1))))
              else if newReplicas < activeN
              then (None, rebuildSortedInstanceCache
                     (fold (\<lambda>i. update_instance i (SetDraining deadline)) (drop (nat newReplicas) activeInst) m))
              else (None, m))"

definition ScaleService :: "gotime \<Rightarrow> string \<Rightarrow> int \<Rightarrow> 'r resource_manager \<Rightarrow> go_error option \<times> 'r resource_manager" where
  "ScaleService now serviceID newReplicas m = ScaleServiceWithOptions now serviceID newReplicas 0 0 m"

definition delete_instance :: "string \<Rightarrow> string \<Rightarrow> 'r resource_manager \<Rightarrow> 'r resource_manager" where
  "delete_instance instanceID hostID m =
     (let m1 = m\<lparr>mr_instances := gm_del instanceID (mr_instances m)\<rparr>;
          m2 = (case gm_get (mr_hostToInstances m1) hostID of None \<Rightarrow> m1
                | Some ids \<Rightarrow> m1\<lparr>mr_hostToInstances := gm_put hostID (filter (\<lambda>x. x \<noteq> instanceID) ids) (mr_hostToInstances m1)\<rparr>)
      in update_host hostID (RemoveService instanceID) m2)"

definition removeInstance ::
  "gotime \<Rightarrow> string \<Rightarrow> gotime \<Rightarrow> bool \<Rightarrow> 'r resource_manager \<Rightarrow> string list \<times> 'r resource_manager" where
  "removeInstance now instanceID simTime0 evictAccounting m =
     (case gm_get (mr_instances m) instanceID of
        None \<Rightarrow> ([], m)
      | Some inst \<Rightarrow>
          let hostID = si_hostID inst;
              simTime = (if is_zero_time simTime0 then now else simTime0);
              (dropped, m1) =
                (if evictAccounting
                 then let (dropped, inst') = EvictResourceState simTime inst;
                          m' = m\<lparr>mr_instances := gm_put instanceID inst' (mr_instances m)\<rparr>;
                          insts = collectInstancesForHost m' hostID
                      in (dropped, update_host hostID
                            (UpdateMemoryUtilization insts \<circ> UpdateCPUUtilizationFromInstancesAt now simTime insts) m')
                 else ([], m))
          in (dropped, delete_instance instanceID hostID m1))"

definition is_idle :: "service_instance \<Rightarrow> bool" where
  "is_idle inst \<longleftrightarrow> si_activeRequests inst = 0 \<and> si_QueueLength inst = 0"

definition timed_out :: "gotime \<Rightarrow> service_instance \<Rightarrow> bool" where
  "timed_out simTime inst \<longleftrightarrow> \<not> is_zero_time (si_drainDeadline inst) \<and> \<not> simTime < si_drainDeadline inst"

definition drain_ids :: "(service_instance \<Rightarrow> bool) \<Rightarrow> 'r resource_manager \<Rightarrow> string list" where
  "drain_ids P m = map fst (filter (\<lambda>(i, inst). si_lifecycle inst = InstanceDraining \<and> P inst) (mr_instances m))"

definition NoteSimTime :: "gotime \<Rightarrow> 'r resource_manager \<Rightarrow> 'r resource_manager" where
  "NoteSimTime t m = (if \<not> is_zero_time t \<and> t > mr_lastSimTime m then m\<lparr>mr_lastSimTime := t\<rparr> else m)"

fun remove_all :: "gotime \<Rightarrow> gotime \<Rightarrow> bool \<Rightarrow> string list \<Rightarrow> 'r resource_manager \<Rightarrow> string list \<times> 'r resource_manager" where
  "remove_all now simTime evict [] m = ([], m)"
| "remove_all now simTime evict (i # ids) m =
     (let (dropped, m1) = removeInstance now i simTime evict m; (rest, m2) = remove_all now simTime evict ids m1
      in (dropped @ rest, m2))"

definition ProcessDrainingInstances :: "gotime \<Rightarrow> gotime \<Rightarrow> 'r resource_manager \<Rightarrow> string list \<times> 'r resource_manager" where
  "ProcessDrainingInstances now simTime m0 =
     (let m = NoteSimTime simTime m0;
          removeIDs = drain_ids is_idle m;
          evictIDs = drain_ids (\<lambda>inst. \<not> is_idle inst \<and> timed_out simTime inst) m;
          (dropped, m1) = remove_all now simTime True evictIDs m;
          (_, m2) = remove_all now simTime False removeIDs m1
      in (dropped, if length removeIDs + length evictIDs > 0 then rebuildSortedInstanceCache m2 else m2))"

definition ActiveReplicas :: "string \<Rightarrow> 'r resource_manager \<Rightarrow> int" where
  "ActiveReplicas serviceID m =
     (case gm_get (mr_sortedServiceInstMap m) serviceID of None \<Rightarrow> 0 | Some ids \<Rightarrow> int (length ids))"

definition HostCount :: "'r resource_manager \<Rightarrow> int" where
  "HostCount m = int (length (mr_hosts m))"

definition MaxHostCPUUtilization :: "'r resource_manager \<Rightarrow> float64" where
  "MaxHostCPUUtilization m =
     fold (\<lambda>(i, h) maxUtil. if sh_cpuUtilization h > maxUtil then sh_cpuUtilization h else maxUtil) (mr_hosts m) 0"

definition MaxHostMemoryUtilization :: "'r resource_manager \<Rightarrow> float64" where
  "MaxHostMemoryUtilization m =
     fold (\<lambda>(i, h) maxUtil. if sh_memoryUtilization h > maxUtil then sh_memoryUtilization h else maxUtil) (mr_hosts m) 0"

definition SetScaleDownDrainTimeout :: "duration \<Rightarrow> 'r resource_manager \<Rightarrow> 'r resource_manager" where
  "SetScaleDownDrainTimeout d m = (if d > 0 then m\<lparr>mr_drainTimeout := d\<rparr> else m)"

definition ListServiceIDs :: "'r resource_manager \<Rightarrow> string list" where
  "ListServiceIDs m = sort (remdups (map (si_serviceName \<circ> snd) (mr_instances m)))"

section \<open>Scaling hosts\<close>

definition auto_host_id :: "int \<Rightarrow> string" where
  "auto_host_id n = ''host-auto-'' @ itoa n"

text \<open>Each iteration of the loop takes the next number; an identifier that is in use is skipped. There are at most as
  many such identifiers as hosts, so the fuel of twice the target and the hosts is enough.\<close>

fun add_hosts :: "nat \<Rightarrow> int \<Rightarrow> int \<Rightarrow> sim_host \<Rightarrow> 'r resource_manager \<Rightarrow> 'r resource_manager option" where
  "add_hosts fuel targetCount nextIndex template m =
     (if \<not> int (length (mr_hosts m)) < targetCount then Some m
      else case fuel of 0 \<Rightarrow> None
           | Suc k \<Rightarrow>
               let i = auto_host_id nextIndex
               in if gm_get (mr_hosts m) i \<noteq> None then add_hosts k targetCount (nextIndex + 1) template m
                  else add_hosts k targetCount (nextIndex + 1) template
                         (m\<lparr>mr_hosts := gm_put i (NewHost i (sh_cpuCores template) (sh_memoryGB template)) (mr_hosts m)\<rparr>))"

declare add_hosts.simps [simp del]

definition ScaleOutHosts :: "nat \<Rightarrow> int \<Rightarrow> 'r resource_manager \<Rightarrow> (go_error option \<times> 'r resource_manager) option" where
  "ScaleOutHosts fuel targetCount m =
     (if targetCount \<le> int (length (mr_hosts m)) then Some (None, m)
      else case mr_hosts m of
             [] \<Rightarrow> Some (Some (Err ''cannot scale out hosts: no existing hosts to copy capacity from''), m)
           | (i, template) # _ \<Rightarrow>
               map_option (\<lambda>m1. (None, m1)) (add_hosts fuel targetCount (int (length (mr_hosts m)) + 1) template m))"

definition IncreaseHostCapacity :: "int \<Rightarrow> int \<Rightarrow> 'r resource_manager \<Rightarrow> 'r resource_manager" where
  "IncreaseHostCapacity cpuDelta memoryGBDelta m =
     (if cpuDelta \<le> 0 \<and> memoryGBDelta \<le> 0 then m
      else m\<lparr>mr_hosts := map (\<lambda>(i, h).
             let h1 = (if cpuDelta > 0 then sh_SetCPUCores (sh_cpuCores h + cpuDelta) h else h)
             in (i, if memoryGBDelta > 0 then sh_SetMemoryGB (sh_memoryGB h1 + memoryGBDelta) h1 else h1)) (mr_hosts m)\<rparr>)"

definition auto_number :: "string \<Rightarrow> int" where
  "auto_number hostID = (case atoi (drop (length ''host-auto-'') hostID) of None \<Rightarrow> 0 | Some n \<Rightarrow> n)"

definition ScaleInHosts :: "int \<Rightarrow> 'r resource_manager \<Rightarrow> go_error option \<times> 'r resource_manager" where
  "ScaleInHosts targetCount0 m =
     (let current = int (length (mr_hosts m)); targetCount = (if targetCount0 < 1 then 1 else targetCount0)
      in if targetCount0 \<ge> current \<or> current \<le> 1 then (None, m)
         else let empty = filter (\<lambda>i. instances_on m i = []) (gm_keys (mr_hosts m));
                  candidates = sort_key (\<lambda>i. - auto_number i) (filter (\<lambda>i. has_prefix i ''host-auto-'') empty) @
                    filter (\<lambda>i. \<not> has_prefix i ''host-auto-'') empty;
                  toRemove = current - targetCount
              in if toRemove \<le> 0 then (None, m)
                 else if int (length candidates) < toRemove
                 then (Some (Err ''cannot scale in to %d hosts: only %d empty host(s) available''), m)
                 else (None, fold (\<lambda>i m. m\<lparr>mr_hosts := gm_del i (mr_hosts m), mr_hostToInstances := gm_del i (mr_hostToInstances m)\<rparr>)
                        (take (nat toRemove) candidates) m))"

definition capacity_checks :: "int \<Rightarrow> int \<Rightarrow> 'r resource_manager \<Rightarrow> sim_host \<Rightarrow> string \<Rightarrow> go_error + unit" where
  "capacity_checks cpuDelta memoryGBDelta m h hostID =
     (let insts = collectInstancesForHost m hostID;
          newCores = max 1 (sh_cpuCores h + cpuDelta); newMemGB = max 1 (sh_memoryGB h + memoryGBDelta)
      in err_checks
        [(sum_cores insts > cpu_limit newCores, ''cannot decrease host capacity: allocated CPU cores would exceed new capacity''),
         (sum_memory insts > memory_limit (fmul (of_int64 newMemGB) 1024),
            ''cannot decrease host capacity: allocated MB would exceed new memory capacity'')])"

definition DecreaseHostCapacity :: "int \<Rightarrow> int \<Rightarrow> 'r resource_manager \<Rightarrow> go_error option \<times> 'r resource_manager" where
  "DecreaseHostCapacity cpuDelta memoryGBDelta m =
     (if cpuDelta \<ge> 0 \<and> memoryGBDelta \<ge> 0 then (None, m)
      else case err_iter (\<lambda>(i, h). capacity_checks cpuDelta memoryGBDelta m h i) (mr_hosts m) of
             Inl err \<Rightarrow> (Some err, m)
           | Inr _ \<Rightarrow> (None, m\<lparr>mr_hosts := map (\<lambda>(i, h).
               let h1 = (if cpuDelta < 0 then sh_SetCPUCores (max 1 (sh_cpuCores h + cpuDelta)) h else h)
               in (i, if memoryGBDelta < 0 then sh_SetMemoryGB (max 1 (sh_memoryGB h1 + memoryGBDelta)) h1 else h1)) (mr_hosts m)\<rparr>))"

section \<open>Vertical scaling\<close>

definition eps_cores :: float64 where
  "eps_cores = fl (1 / 1000000000)"

definition downsize_checks :: "float64 \<Rightarrow> float64 \<Rightarrow> float64 \<Rightarrow> service_instance \<Rightarrow> go_error + unit" where
  "downsize_checks cpuCores memoryMB headroom inst =
     err_checks
       [(cpuCores > 0 \<and> fadd cpuCores eps_cores < si_cpuCores inst \<and> (si_activeRequests inst \<noteq> 0 \<or> si_QueueLength inst \<noteq> 0),
           ''cannot decrease CPU for instance %s while it has active requests or queued work''),
        (memoryMB > 0 \<and> fadd memoryMB eps_cores < si_memoryMB inst \<and>
           fadd memoryMB eps_cores < fadd (si_activeMemoryMB inst) headroom,
           ''cannot decrease memory for instance %s: proposed %.2f MB is below active usage plus headroom'')]"

definition resize :: "float64 \<Rightarrow> float64 \<Rightarrow> service_instance \<Rightarrow> service_instance" where
  "resize cpuCores memoryMB inst =
     (let inst1 = (if cpuCores > 0 then si_SetCPUCores cpuCores inst else inst)
      in if memoryMB > 0 then si_SetMemoryMB memoryMB inst1 else inst1)"

text \<open>The sums of the capacity check count an instance of the service with the proposed sizes.\<close>

definition proposed :: "string \<Rightarrow> float64 \<Rightarrow> float64 \<Rightarrow> service_instance \<Rightarrow> service_instance" where
  "proposed serviceID cpuCores memoryMB inst =
     (if si_serviceName inst = serviceID
      then inst\<lparr>si_cpuCores := (if cpuCores > 0 then cpuCores else si_cpuCores inst),
                si_memoryMB := (if memoryMB > 0 then memoryMB else si_memoryMB inst)\<rparr>
      else inst)"

definition resource_checks :: "string \<Rightarrow> float64 \<Rightarrow> float64 \<Rightarrow> 'r resource_manager \<Rightarrow> sim_host \<Rightarrow> string \<Rightarrow> go_error + unit" where
  "resource_checks serviceID cpuCores memoryMB m h hostID =
     (let insts = map (proposed serviceID cpuCores memoryMB) (collectInstancesForHost m hostID)
      in if insts = [] then Inr ()
         else err_checks
           [(sh_cpuCores h > 0 \<and> sum_cores insts > cpu_limit (sh_cpuCores h), ''host CPU capacity exceeded on %s''),
            (sh_memoryGB h > 0 \<and> sum_memory insts > memory_limit (fmul (of_int64 (sh_memoryGB h)) 1024),
               ''host memory capacity exceeded on %s'')])"

definition UpdateServiceResourcesWithHeadroom ::
  "string \<Rightarrow> float64 \<Rightarrow> float64 \<Rightarrow> float64 \<Rightarrow> 'r resource_manager \<Rightarrow> go_error option \<times> 'r resource_manager" where
  "UpdateServiceResourcesWithHeadroom serviceID cpuCores memoryMB memoryHeadroomMB m =
     (if cpuCores < 0 \<or> memoryMB < 0 then (Some (Err ''cpu_cores and memory_mb must be non-negative''), m)
      else let insts = getInstancesForService m serviceID;
               headroom = (if memoryHeadroomMB \<le> 0 then DefaultMemoryDownsizeHeadroomMB else memoryHeadroomMB)
           in if insts = [] then (Some (Err ''service not found: %s''), m)
              else case err_bind (err_iter (downsize_checks cpuCores memoryMB headroom) insts) (\<lambda>_.
                     err_iter (\<lambda>(i, h). resource_checks serviceID cpuCores memoryMB m h i) (mr_hosts m)) of
                     Inl err \<Rightarrow> (Some err, m)
                   | Inr _ \<Rightarrow> (None, m\<lparr>mr_instances := map (\<lambda>(i, inst).
                       (i, if si_serviceName inst = serviceID then resize cpuCores memoryMB inst else inst)) (mr_instances m)\<rparr>))"

definition UpdateServiceResources :: "string \<Rightarrow> float64 \<Rightarrow> float64 \<Rightarrow> 'r resource_manager \<Rightarrow> go_error option \<times> 'r resource_manager" where
  "UpdateServiceResources serviceID cpuCores memoryMB m = UpdateServiceResourcesWithHeadroom serviceID cpuCores memoryMB 0 m"

section \<open>Requests\<close>

definition with_instance ::
  "string \<Rightarrow> (service_instance \<Rightarrow> 'a \<times> service_instance) \<Rightarrow> 'r resource_manager \<Rightarrow> (go_error + 'a) \<times> 'r resource_manager" where
  "with_instance instanceID f m =
     (case gm_get (mr_instances m) instanceID of
        None \<Rightarrow> (Inl (Err ''instance not found: %s''), m)
      | Some inst \<Rightarrow> let (r, inst') = f inst in (Inr r, m\<lparr>mr_instances := gm_put instanceID inst' (mr_instances m)\<rparr>))"

definition mr_ReserveCPUWork :: "string \<Rightarrow> gotime \<Rightarrow> float64 \<Rightarrow> 'r resource_manager \<Rightarrow> (go_error + gotime \<times> gotime) \<times> 'r resource_manager" where
  "mr_ReserveCPUWork instanceID arrivalTime cpuDemandMs m = with_instance instanceID (ReserveCPUWork arrivalTime cpuDemandMs) m"

definition mr_ReserveDBWork :: "string \<Rightarrow> gotime \<Rightarrow> float64 \<Rightarrow> int \<Rightarrow> 'r resource_manager \<Rightarrow> (go_error + db_reservation) \<times> 'r resource_manager" where
  "mr_ReserveDBWork instanceID arrival ioDurMs maxSlots m = with_instance instanceID (ReserveDBWork arrival ioDurMs maxSlots) m"

definition mr_ReleaseDBConnection :: "string \<Rightarrow> 'r resource_manager \<Rightarrow> 'r resource_manager" where
  "mr_ReleaseDBConnection instanceID m = update_instance instanceID ReleaseDBConnection m"

definition mr_RollbackCPUTailReservation :: "string \<Rightarrow> gotime \<Rightarrow> gotime \<Rightarrow> 'r resource_manager \<Rightarrow> 'r resource_manager" where
  "mr_RollbackCPUTailReservation instanceID cpuStart cpuEnd m =
     update_instance instanceID (RollbackCPUTailReservation cpuStart cpuEnd) m"

text \<open>An update of an instance followed by the update of its host's gauge from all instances of the host; nothing is done
  where the instance or its host is missing.\<close>

definition on_host ::
  "string \<Rightarrow> (service_instance \<Rightarrow> service_instance) \<Rightarrow> (service_instance list \<Rightarrow> sim_host \<Rightarrow> sim_host) \<Rightarrow>
   'r resource_manager \<Rightarrow> go_error option \<times> 'r resource_manager" where
  "on_host instanceID f g m =
     (case gm_get (mr_instances m) instanceID of
        None \<Rightarrow> (Some (Err ''instance not found: %s''), m)
      | Some inst \<Rightarrow>
          if gm_get (mr_hosts m) (si_hostID inst) = None then (Some (Err ''host not found: %s''), m)
          else let m1 = update_instance instanceID f m
               in (None, update_host (si_hostID inst) (g (collectInstancesForHost m1 (si_hostID inst))) m1))"

definition mr_AllocateCPU :: "gotime \<Rightarrow> string \<Rightarrow> float64 \<Rightarrow> gotime \<Rightarrow> 'r resource_manager \<Rightarrow> go_error option \<times> 'r resource_manager" where
  "mr_AllocateCPU now instanceID cpuTimeMs simTime m =
     on_host instanceID (AllocateCPU cpuTimeMs simTime) (UpdateCPUUtilizationFromInstancesAt now simTime) m"

definition mr_ReleaseCPU :: "gotime \<Rightarrow> string \<Rightarrow> float64 \<Rightarrow> gotime \<Rightarrow> 'r resource_manager \<Rightarrow> 'r resource_manager" where
  "mr_ReleaseCPU now instanceID cpuTimeMs simTime m =
     snd (on_host instanceID (ReleaseCPU cpuTimeMs simTime) (UpdateCPUUtilizationFromInstancesAt now simTime) m)"

definition mr_AllocateMemory :: "string \<Rightarrow> float64 \<Rightarrow> 'r resource_manager \<Rightarrow> go_error option \<times> 'r resource_manager" where
  "mr_AllocateMemory instanceID memoryMB m =
     (let full = (case gm_get (mr_instances m) instanceID of None \<Rightarrow> False | Some inst \<Rightarrow>
            (case gm_get (mr_hosts m) (si_hostID inst) of None \<Rightarrow> False | Some h \<Rightarrow>
               sh_memoryGB h > 0 \<and>
               fadd (sh_memoryUtilization h) (fdiv (fdiv memoryMB 1024) (of_int64 (sh_memoryGB h))) > 1))
      in if full then (Some (Err ''host memory at capacity''), m)
         else on_host instanceID (si_AllocateMemory memoryMB) UpdateMemoryUtilization m)"

definition mr_ReleaseMemory :: "string \<Rightarrow> float64 \<Rightarrow> 'r resource_manager \<Rightarrow> 'r resource_manager" where
  "mr_ReleaseMemory instanceID memoryMB m =
     snd (on_host instanceID (si_ReleaseMemory memoryMB) UpdateMemoryUtilization m)"

definition mr_EnqueueRequest :: "string \<Rightarrow> string \<Rightarrow> 'r resource_manager \<Rightarrow> (go_error + unit) \<times> 'r resource_manager" where
  "mr_EnqueueRequest instanceID requestID m = with_instance instanceID (\<lambda>inst. ((), si_EnqueueRequest requestID inst)) m"

definition mr_DequeueRequest :: "string \<Rightarrow> 'r resource_manager \<Rightarrow> string option \<times> 'r resource_manager" where
  "mr_DequeueRequest instanceID m =
     (case with_instance instanceID si_DequeueRequest m of (Inl _, m1) \<Rightarrow> (None, m1) | (Inr r, m1) \<Rightarrow> (r, m1))"

definition GetQueueLength :: "string \<Rightarrow> 'r resource_manager \<Rightarrow> int" where
  "GetQueueLength instanceID m =
     (case gm_get (mr_instances m) instanceID of None \<Rightarrow> 0 | Some inst \<Rightarrow> si_QueueLength inst)"

definition GetHostUtilization :: "string \<Rightarrow> 'r resource_manager \<Rightarrow> (float64 \<times> float64) option" where
  "GetHostUtilization hostID m =
     map_option (\<lambda>h. (sh_cpuUtilization h, sh_memoryUtilization h)) (gm_get (mr_hosts m) hostID)"

definition GetInstanceUtilization :: "gotime \<Rightarrow> string \<Rightarrow> 'r resource_manager \<Rightarrow> (float64 \<times> float64) option" where
  "GetInstanceUtilization now instanceID m =
     map_option (\<lambda>inst. (CPUUtilizationAt now inst, si_MemoryUtilization inst)) (gm_get (mr_instances m) instanceID)"

section \<open>Broker state\<close>

definition mr_GetBrokerQueue :: "string \<Rightarrow> string \<Rightarrow> queue_behavior option \<Rightarrow> 'r resource_manager \<Rightarrow> string \<times> 'r resource_manager" where
  "mr_GetBrokerQueue brokerID topic eff m =
     (let (key, bq) = GetOrCreateShard brokerID topic eff (mr_brokerQueues m) in (key, m\<lparr>mr_brokerQueues := bq\<rparr>))"

definition mr_GetBrokerTopicSubscriberPartitionShard ::
  "string \<Rightarrow> string \<Rightarrow> int \<Rightarrow> string \<Rightarrow> topic_behavior option \<Rightarrow> topic_subscriber option \<Rightarrow> 'r resource_manager \<Rightarrow>
   string \<times> 'r resource_manager" where
  "mr_GetBrokerTopicSubscriberPartitionShard brokerID topicPath part consumerGroup topicEff sub m =
     (let (key, bq) = GetOrCreateTopicSubscriberPartitionShard brokerID topicPath part consumerGroup topicEff sub (mr_brokerQueues m)
      in (key, m\<lparr>mr_brokerQueues := bq\<rparr>))"

definition mr_GetBrokerTopicSubscriberShard ::
  "string \<Rightarrow> string \<Rightarrow> string \<Rightarrow> topic_behavior option \<Rightarrow> topic_subscriber option \<Rightarrow> 'r resource_manager \<Rightarrow> string \<times> 'r resource_manager" where
  "mr_GetBrokerTopicSubscriberShard brokerID topicPath consumerGroup topicEff sub m =
     mr_GetBrokerTopicSubscriberPartitionShard brokerID topicPath 0 consumerGroup topicEff sub m"

section \<open>Routing\<close>

text \<open>The generator made from a seed is the parameter \<open>newSource\<close>.\<close>

definition SetRoutingSeed :: "(int \<Rightarrow> 'r) \<Rightarrow> int \<Rightarrow> 'r resource_manager \<Rightarrow> 'r resource_manager" where
  "SetRoutingSeed newSource seed m = m\<lparr>mr_routingRand := newSource seed\<rparr>"

definition normalizeRoutingStrategy :: "string \<Rightarrow> string" where
  "normalizeRoutingStrategy s = (let s = to_lower (trim_space s) in if s = [] then ''round_robin'' else s)"

definition routingPolicyForRequest :: "string \<Rightarrow> request option \<Rightarrow> 'r resource_manager \<Rightarrow> routing_policy option" where
  "routingPolicyForRequest serviceName req m =
     (case Option.bind req (\<lambda>r. gm_get (mr_endpointRouting m) (serviceName @ '':'' @ rq_endpoint r)) of
        Some pol \<Rightarrow> Some pol
      | None \<Rightarrow> gm_get (mr_serviceRouting m) serviceName)"

definition zone_of :: "'r resource_manager \<Rightarrow> string \<Rightarrow> string option" where
  "zone_of m i = Option.bind (gm_get (mr_instances m) i) (\<lambda>inst. map_option sh_zone (gm_get (mr_hosts m) (si_hostID inst)))"

definition applyLocalityPreference ::
  "(go_value \<Rightarrow> string) \<Rightarrow> string list \<Rightarrow> routing_policy option \<Rightarrow> request option \<Rightarrow> 'r resource_manager \<Rightarrow> string list" where
  "applyLocalityPreference sprint ids pol req m =
     (case (pol, req) of
        (Some p, Some r) \<Rightarrow>
          let key = trim_space (rp_LocalityZoneFrom p)
          in if key = [] then ids
             else (case gm_get (rq_metadata r) key of
                     None \<Rightarrow> ids
                   | Some raw \<Rightarrow>
                       let targetZone = trim_space (sprint raw);
                           preferred = filter (\<lambda>i. case zone_of m i of None \<Rightarrow> False
                             | Some z \<Rightarrow> equal_fold (trim_space z) targetZone) ids
                       in if targetZone = [] \<or> preferred = [] then ids else preferred)
      | _ \<Rightarrow> ids)"

definition weightedWheelSlots :: "float64 \<Rightarrow> int" where
  "weightedWheelSlots w =
     (if w \<le> 0 then 0 else let slots = ftrunc (fadd (fmul w 1000) (1 / 2)) in if slots < 1 then 1 else slots)"

definition selectRoundRobin :: "string \<Rightarrow> string list \<Rightarrow> 'r resource_manager \<Rightarrow> (go_error + string) \<times> 'r resource_manager" where
  "selectRoundRobin serviceName ids m =
     (let idx0 = gm_get_or 0 (mr_roundRobinIdx m) serviceName; idx = (if idx0 \<ge> int (length ids) then 0 else idx0)
      in case slice_get ids idx of
           Inl err \<Rightarrow> (Inl err, m)
         | Inr i \<Rightarrow> (Inr i, m\<lparr>mr_roundRobinIdx :=
               gm_put serviceName (go_mod (idx + 1) (int (length ids))) (mr_roundRobinIdx m)\<rparr>))"

text \<open>The loop that keeps the first of the instances with the least measure.\<close>

fun least_loop :: "('a \<Rightarrow> 'b::linorder) \<Rightarrow> 'a list \<Rightarrow> 'a \<Rightarrow> 'a" where
  "least_loop f [] best = best"
| "least_loop f (x # xs) best = least_loop f xs (if f x < f best then x else best)"

definition instance_measure :: "'b \<Rightarrow> (service_instance \<Rightarrow> 'b) \<Rightarrow> 'r resource_manager \<Rightarrow> string \<Rightarrow> 'b" where
  "instance_measure d f m i = (case gm_get (mr_instances m) i of None \<Rightarrow> d | Some inst \<Rightarrow> f inst)"

fun cumulative :: "int \<Rightarrow> int list \<Rightarrow> int list" where
  "cumulative acc [] = []"
| "cumulative acc (w # ws) = (acc + w) # cumulative (acc + w) ws"

definition instance_weight :: "routing_policy option \<Rightarrow> string \<Rightarrow> float64" where
  "instance_weight pol i = (case pol of None \<Rightarrow> 1 | Some p \<Rightarrow> gm_get_or 1 (rp_Weights p) i)"

definition select_weighted ::
  "string \<Rightarrow> string list \<Rightarrow> routing_policy option \<Rightarrow> 'r resource_manager \<Rightarrow> ((go_error + string) \<times> string) \<times> 'r resource_manager" where
  "select_weighted serviceName ids pol m =
     (let slots = map (weightedWheelSlots \<circ> instance_weight pol) ids; total = sum_list slots
      in if total \<le> 0 then (let (r, m1) = selectRoundRobin serviceName ids m in ((r, ''round_robin''), m1))
         else let cursor = go_mod (gm_get_or 0 (mr_weightedRoundRobinIdx m) serviceName) total;
                  m1 = m\<lparr>mr_weightedRoundRobinIdx := gm_put serviceName (go_mod (cursor + 1) total) (mr_weightedRoundRobinIdx m)\<rparr>;
                  chosen = (case find (\<lambda>(c, i). cursor < c) (zip (cumulative 0 slots) ids) of
                    Some (c, i) \<Rightarrow> i | None \<Rightarrow> last ids)
              in ((Inr chosen, ''weighted_round_robin''), m1))"

definition select_sticky ::
  "(go_value \<Rightarrow> string) \<Rightarrow> string \<Rightarrow> string list \<Rightarrow> routing_policy option \<Rightarrow> request option \<Rightarrow> 'r resource_manager \<Rightarrow>
   ((go_error + string) \<times> string) \<times> 'r resource_manager" where
  "select_sticky sprint serviceName ids pol req m =
     (let rr = (let (r, m1) = selectRoundRobin serviceName ids m in ((r, ''round_robin''), m1))
      in case (pol, req) of
           (Some p, Some r) \<Rightarrow>
             if trim_space (rp_StickyKeyFrom p) = [] then rr
             else (case gm_get (rq_metadata r) (trim_space (rp_StickyKeyFrom p)) of
                     None \<Rightarrow> rr
                   | Some v \<Rightarrow> ((Inr (ids ! (unat (fnv64a (sprint v)) mod length ids)), ''sticky''), m))
         | _ \<Rightarrow> rr)"

definition SelectInstanceForRequest ::
  "(go_value \<Rightarrow> string) \<Rightarrow> (int \<Rightarrow> 'r \<Rightarrow> int \<times> 'r) \<Rightarrow> string \<Rightarrow> request option \<Rightarrow> gotime \<Rightarrow> 'r resource_manager \<Rightarrow>
   ((go_error + string) \<times> string) \<times> 'r resource_manager" where
  "SelectInstanceForRequest sprint intn serviceName req simTime m =
     (case gm_get_or [] (mr_sortedServiceInstMap m) serviceName of
        [] \<Rightarrow> ((Inl (Err ''no instances available for service %s''), []), m)
      | first # rest \<Rightarrow>
          let pol = routingPolicyForRequest serviceName req m;
              ids = applyLocalityPreference sprint (first # rest) pol req m;
              strategy = (case pol of None \<Rightarrow> ''round_robin'' | Some p \<Rightarrow> normalizeRoutingStrategy (rp_Strategy p))
          in if strategy = ''round_robin'' then (let (r, m1) = selectRoundRobin serviceName ids m in ((r, strategy), m1))
             else if strategy = ''random''
             then (let (idx, rng) = intn (int (length ids)) (mr_routingRand m)
                   in ((slice_get ids idx, strategy), m\<lparr>mr_routingRand := rng\<rparr>))
             else if strategy = ''least_connections''
             then ((Inr (least_loop (instance_measure 0 si_activeRequests m) (tl ids) (hd ids)), strategy), m)
             else if strategy = ''least_queue''
             then ((Inr (least_loop (instance_measure 0 si_QueueLength m) (tl ids) (hd ids)), strategy), m)
             else if strategy = ''least_cpu''
             then ((Inr (least_loop (instance_measure 0 (CPUUtilizationAt simTime) m) (tl ids) (hd ids)), strategy), m)
             else if strategy = ''weighted_round_robin'' then select_weighted serviceName ids pol m
             else if strategy = ''sticky'' then select_sticky sprint serviceName ids pol req m
             else ((Inl (Err ''unsupported routing strategy %q for service %s''), strategy), m))"

section \<open>Placement snapshots\<close>

record instance_placement =
  ip_InstanceID :: string
  ip_ServiceID :: string
  ip_HostID :: string
  ip_HostZone :: string
  ip_HostLabels :: "(string, string) gomap"
  ip_Lifecycle :: string
  ip_CPUCores :: float64
  ip_MemoryMB :: float64
  ip_CPUUtilization :: float64
  ip_MemoryUtilization :: float64
  ip_ActiveRequests :: int
  ip_QueueLength :: int

definition placement_of :: "gotime \<Rightarrow> 'r resource_manager \<Rightarrow> string \<times> service_instance \<Rightarrow> instance_placement" where
  "placement_of t m row =
     (let (i, inst) = row
      in \<lparr>ip_InstanceID = i, ip_ServiceID = si_serviceName inst, ip_HostID = si_hostID inst,
          ip_HostZone = (case gm_get (mr_hosts m) (si_hostID inst) of None \<Rightarrow> [] | Some h \<Rightarrow> sh_zone h),
          ip_HostLabels = (case gm_get (mr_hosts m) (si_hostID inst) of None \<Rightarrow> [] | Some h \<Rightarrow> sh_labels h),
          ip_Lifecycle = (if si_lifecycle inst = InstanceDraining then ''DRAINING'' else ''ACTIVE''),
          ip_CPUCores = si_cpuCores inst, ip_MemoryMB = si_memoryMB inst, ip_CPUUtilization = CPUUtilizationAt t inst,
          ip_MemoryUtilization = si_MemoryUtilization inst,
          ip_ActiveRequests = safeInt32FromInt (si_activeRequests inst),
          ip_QueueLength = safeInt32FromInt (si_QueueLength inst)\<rparr>)"

definition GetInstancePlacements :: "gotime \<Rightarrow> gotime \<Rightarrow> 'r resource_manager \<Rightarrow> instance_placement list" where
  "GetInstancePlacements now simTime m =
     (let t = (if is_zero_time simTime then now else simTime)
      in map (placement_of t m) (sort_key (\<lambda>(i, inst). si_hostID inst) (sort_key fst (mr_instances m))))"

end
