(* ===== verification/Resource_Invariant.thy ===== *)
theory Resource_Invariant
  imports Resource_Manager Go_Strconv "HOL-Library.Sublist"
begin

text \<open>
  The invariant of the resource manager and its preservation: instances, their hosts' lists and the
  identifiers agree, no host is allocated beyond its capacity (with the code's rounding allowance), and the cache of
  routable instances names existing routable instances with a round-robin index in range.
\<close>

section \<open>Floating-point sums\<close>

lemma fsum_mono: "a \<le> b \<Longrightarrow> foldl fadd a xs \<le> foldl fadd b xs"
  by (induction xs arbitrary: a b) (auto intro: fadd_mono)

lemma fsum_subseq:
  assumes "subseq ys xs" "\<forall>x \<in> set xs. 0 \<le> x" "fl a = a"
  shows "foldl fadd a ys \<le> foldl fadd a xs"
  using assms
proof (induction arbitrary: a rule: list_emb.induct)
  case (list_emb_Nil xs)
  have "fl a = a \<Longrightarrow> \<forall>x \<in> set xs. 0 \<le> x \<Longrightarrow> a \<le> foldl fadd a xs" for a
  proof (induction xs arbitrary: a)
    case (Cons x xs)
    then have "fadd a x \<le> foldl fadd (fadd a x) xs" by simp
    then show ?case using fadd_ge_left [of a x] Cons.prems by simp
  qed simp
  then show ?case using list_emb_Nil by simp
next
  case (list_emb_Cons ys xs x)
  have "foldl fadd a ys \<le> foldl fadd (fadd a x) ys" using list_emb_Cons.prems by (intro fsum_mono fadd_ge_left) auto
  also have "\<dots> \<le> foldl fadd (fadd a x) xs" using list_emb_Cons by simp
  finally show ?case by simp
next
  case (list_emb_Cons2 x y ys xs)
  then show ?case by simp
qed

lemma sum_cores_foldl: "sum_cores insts = foldl fadd 0 (map si_cpuCores insts)"
  by (simp add: sum_cores_def foldl_map)

lemma sum_memory_foldl: "sum_memory insts = foldl fadd 0 (map si_memoryMB insts)"
  by (simp add: sum_memory_def foldl_map)

lemma sum_snoc [simp]:
  "sum_cores (insts @ [i]) = fadd (sum_cores insts) (si_cpuCores i)"
  "sum_memory (insts @ [i]) = fadd (sum_memory insts) (si_memoryMB i)"
  "sum_cores [] = 0" "sum_memory [] = 0"
  by (simp_all add: sum_cores_def sum_memory_def)

lemma sum_subseq:
  assumes "subseq xs ys" "\<forall>i \<in> set ys. 0 \<le> si_cpuCores i \<and> 0 \<le> si_memoryMB i"
  shows "sum_cores xs \<le> sum_cores ys" "sum_memory xs \<le> sum_memory ys"
  unfolding sum_cores_foldl sum_memory_foldl
  using assms by (auto intro!: fsum_subseq subseq_map)

section \<open>The invariant\<close>

definition host_within :: "sim_host \<Rightarrow> service_instance list \<Rightarrow> bool" where
  "host_within h insts \<longleftrightarrow> sum_cores insts \<le> cpu_limit (sh_cpuCores h) \<and> sum_memory insts \<le> memory_limit (hostMemoryCapacityMB h)"

definition instances_ok :: "'r resource_manager \<Rightarrow> bool" where
  "instances_ok m \<longleftrightarrow> gm_ok (mr_instances m) \<and> 0 \<le> mr_nextInstanceID m \<and>
     (\<forall>i inst. gm_get (mr_instances m) i = Some inst \<longrightarrow>
        si_id inst = i \<and> i \<in> set (instances_on m (si_hostID inst)) \<and> 0 \<le> si_cpuCores inst \<and> 0 \<le> si_memoryMB inst \<and>
        (\<exists>n. 0 \<le> n \<and> n < mr_nextInstanceID m \<and> i = instance_id (si_serviceName inst) n))"

definition host_of :: "'r resource_manager \<Rightarrow> string \<Rightarrow> string option" where
  "host_of m i = map_option si_hostID (gm_get (mr_instances m) i)"

definition lists_ok :: "'r resource_manager \<Rightarrow> bool" where
  "lists_ok m \<longleftrightarrow> (\<forall>h. distinct (instances_on m h) \<and>
     (\<forall>i \<in> set (instances_on m h). host_of m i = Some h) \<and>
     (instances_on m h \<noteq> [] \<longrightarrow> gm_get (mr_hosts m) h \<noteq> None))"

definition hosts_ok :: "'r resource_manager \<Rightarrow> bool" where
  "hosts_ok m \<longleftrightarrow> gm_ok (mr_hosts m) \<and>
     (\<forall>i h. gm_get (mr_hosts m) i = Some h \<longrightarrow> 0 < sh_cpuCores h \<and> 0 < sh_memoryGB h \<and>
        sh_serviceInstances h = instances_on m i \<and> host_within h (collectInstancesForHost m i))"

definition mgr_inv :: "'r resource_manager \<Rightarrow> bool" where
  "mgr_inv m \<longleftrightarrow> instances_ok m \<and> lists_ok m \<and> hosts_ok m"

lemma host_within_cong:
  "sh_cpuCores h' = sh_cpuCores h \<Longrightarrow> sh_memoryGB h' = sh_memoryGB h \<Longrightarrow> host_within h' insts = host_within h insts"
  by (simp add: host_within_def hostMemoryCapacityMB_def)

lemma mgr_invI: "instances_ok m \<Longrightarrow> lists_ok m \<Longrightarrow> hosts_ok m \<Longrightarrow> mgr_inv m"
  by (simp add: mgr_inv_def)

lemma mgr_invD: "mgr_inv m \<Longrightarrow> instances_ok m" "mgr_inv m \<Longrightarrow> lists_ok m" "mgr_inv m \<Longrightarrow> hosts_ok m"
  by (simp_all add: mgr_inv_def)

lemma instance_facts:
  assumes "instances_ok m" "gm_get (mr_instances m) i = Some inst"
  shows "si_id inst = i" "i \<in> set (instances_on m (si_hostID inst))" "0 \<le> si_cpuCores inst" "0 \<le> si_memoryMB inst"
  using assms by (auto simp: instances_ok_def)

lemma instance_host:
  assumes "mgr_inv m" "gm_get (mr_instances m) i = Some inst"
  shows "\<exists>h. gm_get (mr_hosts m) (si_hostID inst) = Some h"
proof -
  have "instances_on m (si_hostID inst) \<noteq> []" using instance_facts(2) [OF mgr_invD(1) [OF assms(1)] assms(2)] by auto
  then show ?thesis using assms(1) by (auto simp: mgr_inv_def lists_ok_def)
qed

lemma collect_map:
  "lists_ok m \<Longrightarrow> collectInstancesForHost m h = map (\<lambda>i. the (gm_get (mr_instances m) i)) (instances_on m h)"
proof -
  assume "lists_ok m"
  then have "\<forall>i \<in> set (instances_on m h). gm_get (mr_instances m) i \<noteq> None"
    unfolding lists_ok_def host_of_def by (metis option.map_disc_iff option.distinct(1))
  then have "filter (\<lambda>i. gm_get (mr_instances m) i \<noteq> None) (instances_on m h) = instances_on m h"
    by (rule filter_True)
  then show ?thesis by (simp add: collectInstancesForHost_def List.map_filter_def comp_def)
qed

lemma collect_nonneg:
  assumes "mgr_inv m"
  shows "\<forall>inst \<in> set (collectInstancesForHost m h). 0 \<le> si_cpuCores inst \<and> 0 \<le> si_memoryMB inst"
proof
  fix inst assume "inst \<in> set (collectInstancesForHost m h)"
  then obtain i where "gm_get (mr_instances m) i = Some inst"
    by (auto simp: collectInstancesForHost_def List.map_filter_def)
  then show "0 \<le> si_cpuCores inst \<and> 0 \<le> si_memoryMB inst"
    using instance_facts [OF mgr_invD(1) [OF assms]] by blast
qed

text \<open>Fresh identifiers: the counter has not been used.\<close>

lemma instance_id_inj: "0 \<le> n \<Longrightarrow> 0 \<le> k \<Longrightarrow> instance_id a n = instance_id b k \<Longrightarrow> n = k \<and> a = b"
  using numbered_inj [of "a @ ''-instance''" "nat n" "b @ ''-instance''" "nat k"]
  by (auto simp: instance_id_def itoa_def)

lemma fresh_id:
  assumes "instances_ok m"
  shows "gm_get (mr_instances m) (instance_id svc (mr_nextInstanceID m)) = None"
proof (cases "gm_get (mr_instances m) (instance_id svc (mr_nextInstanceID m))")
  case (Some inst)
  then obtain n where "0 \<le> n" "n < mr_nextInstanceID m"
    "instance_id svc (mr_nextInstanceID m) = instance_id (si_serviceName inst) n"
    using assms unfolding instances_ok_def by blast
  then show ?thesis using instance_id_inj [of "mr_nextInstanceID m" n svc "si_serviceName inst"] assms
    by (simp add: instances_ok_def)
qed

section \<open>Updates of one instance\<close>

text \<open>The methods of an instance that the manager calls for a request change its accounting only. The locale states
  that, and the manager's invariant follows once for all of them.\<close>

locale accounting_op =
  fixes f :: "service_instance \<Rightarrow> service_instance"
  assumes keeps: "si_id (f s) = si_id s" "si_serviceName (f s) = si_serviceName s" "si_hostID (f s) = si_hostID s"
    "si_lifecycle (f s) = si_lifecycle s" "si_cpuCores (f s) = si_cpuCores s" "si_memoryMB (f s) = si_memoryMB s"

interpretation op_alloc_cpu: accounting_op "AllocateCPU ms t"
  by unfold_locales (simp_all add: AllocateCPU_def Let_def)

interpretation op_release_cpu: accounting_op "ReleaseCPU ms t"
  by unfold_locales (simp_all add: ReleaseCPU_def)

interpretation op_alloc_memory: accounting_op "si_AllocateMemory mb"
  by unfold_locales (simp_all add: si_AllocateMemory_def)

interpretation op_release_memory: accounting_op "si_ReleaseMemory mb"
  by unfold_locales (simp_all add: si_ReleaseMemory_def)

interpretation op_enqueue: accounting_op "si_EnqueueRequest i"
  by unfold_locales (simp_all add: si_EnqueueRequest_def)

interpretation op_dequeue: accounting_op "\<lambda>s. snd (si_DequeueRequest s)"
  by unfold_locales (simp_all add: si_DequeueRequest_def split: list.split)

interpretation op_reserve_cpu: accounting_op "\<lambda>s. snd (ReserveCPUWork t d s)"
  by unfold_locales (simp_all add: ReserveCPUWork_def Let_def)

interpretation op_rollback: accounting_op "RollbackCPUTailReservation t t'"
  by unfold_locales (simp_all add: RollbackCPUTailReservation_def)

interpretation op_reserve_db: accounting_op "\<lambda>s. snd (ReserveDBWork t d n s)"
  by unfold_locales (simp_all add: ReserveDBWork_def Let_def case_prod_unfold)

interpretation op_release_db: accounting_op ReleaseDBConnection
  by unfold_locales (simp_all add: ReleaseDBConnection_def)

interpretation op_evict: accounting_op "\<lambda>s. snd (EvictResourceState t s)"
  by unfold_locales (simp_all add: EvictResourceState_def)

lemma update_instance_frame [simp]:
  "mr_hosts (update_instance i f m) = mr_hosts m" "instances_on (update_instance i f m) h = instances_on m h"
  "mr_nextInstanceID (update_instance i f m) = mr_nextInstanceID m"
  "mr_sortedServiceInstMap (update_instance i f m) = mr_sortedServiceInstMap m"
  "mr_roundRobinIdx (update_instance i f m) = mr_roundRobinIdx m"
  "mr_weightedRoundRobinIdx (update_instance i f m) = mr_weightedRoundRobinIdx m"
  by (simp_all add: update_instance_def instances_on_def split: option.split)

lemma update_instance_get:
  "gm_get (mr_instances (update_instance i f m)) k =
   (if k = i then map_option f (gm_get (mr_instances m) i) else gm_get (mr_instances m) k)"
  by (simp add: update_instance_def split: option.split)

lemma update_instance_inv:
  assumes inv: "mgr_inv m"
    and keep: "\<And>s. si_id (f s) = si_id s" "\<And>s. si_serviceName (f s) = si_serviceName s"
      "\<And>s. si_hostID (f s) = si_hostID s" "\<And>s. si_cpuCores (f s) = si_cpuCores s" "\<And>s. si_memoryMB (f s) = si_memoryMB s"
  shows "mgr_inv (update_instance i f m)"
proof -
  let ?m = "update_instance i f m"
  have get: "gm_get (mr_instances ?m) k = Some inst \<longleftrightarrow>
      (\<exists>inst0. gm_get (mr_instances m) k = Some inst0 \<and> inst = (if k = i then f inst0 else inst0))" for k inst
    by (auto simp: update_instance_get)
  have ok: "gm_ok (mr_instances ?m)"
    using inv by (auto simp: mgr_inv_def instances_ok_def update_instance_def split: option.split)
  have I: "instances_ok ?m"
    unfolding instances_ok_def
  proof (intro conjI allI impI)
    fix k inst assume "gm_get (mr_instances ?m) k = Some inst"
    then obtain inst0 where i0: "gm_get (mr_instances m) k = Some inst0" "inst = (if k = i then f inst0 else inst0)"
      unfolding get by blast
    have e: "si_id inst = si_id inst0" "si_serviceName inst = si_serviceName inst0" "si_hostID inst = si_hostID inst0"
      "si_cpuCores inst = si_cpuCores inst0" "si_memoryMB inst = si_memoryMB inst0" by (simp_all add: i0(2) keep)
    have "si_id inst0 = k \<and> k \<in> set (instances_on m (si_hostID inst0)) \<and> 0 \<le> si_cpuCores inst0 \<and> 0 \<le> si_memoryMB inst0 \<and>
        (\<exists>n. 0 \<le> n \<and> n < mr_nextInstanceID m \<and> k = instance_id (si_serviceName inst0) n)"
      using mgr_invD(1) [OF inv] i0(1) unfolding instances_ok_def by blast
    then show "si_id inst = k" "k \<in> set (instances_on ?m (si_hostID inst))" "0 \<le> si_cpuCores inst" "0 \<le> si_memoryMB inst"
      "\<exists>n. 0 \<le> n \<and> n < mr_nextInstanceID ?m \<and> k = instance_id (si_serviceName inst) n"
      unfolding e by simp_all
  qed (use ok mgr_invD(1) [OF inv] in \<open>simp_all add: instances_ok_def\<close>)
  have host_of: "host_of ?m k = host_of m k" for k
    by (simp add: host_of_def update_instance_get keep option.map_comp comp_def)
  have L: "lists_ok ?m"
    using mgr_invD(2) [OF inv] by (simp add: lists_ok_def host_of)
  have "sum_cores (collectInstancesForHost ?m h) = sum_cores (collectInstancesForHost m h) \<and>
      sum_memory (collectInstancesForHost ?m h) = sum_memory (collectInstancesForHost m h)" for h
  proof -
    have "\<forall>k \<in> set (instances_on m h). \<exists>inst. gm_get (mr_instances m) k = Some inst"
      using mgr_invD(2) [OF inv] unfolding lists_ok_def host_of_def by (metis map_option_eq_Some)
    then have "map si_cpuCores (collectInstancesForHost ?m h) = map si_cpuCores (collectInstancesForHost m h)"
      "map si_memoryMB (collectInstancesForHost ?m h) = map si_memoryMB (collectInstancesForHost m h)"
      unfolding collect_map [OF L] collect_map [OF mgr_invD(2) [OF inv]] by (auto simp: update_instance_get keep)
    then show ?thesis by (simp add: sum_cores_foldl sum_memory_foldl)
  qed
  then have "hosts_ok ?m" using mgr_invD(3) [OF inv] by (simp add: hosts_ok_def host_within_def)
  with I L show ?thesis by (rule mgr_invI)
qed

section \<open>Updates of one host\<close>

lemma update_host_frame [simp]:
  "mr_instances (update_host i g m) = mr_instances m" "instances_on (update_host i g m) h = instances_on m h"
  "mr_nextInstanceID (update_host i g m) = mr_nextInstanceID m" "collectInstancesForHost (update_host i g m) h = collectInstancesForHost m h"
  "host_of (update_host i g m) k = host_of m k"
  "mr_sortedServiceInstMap (update_host i g m) = mr_sortedServiceInstMap m"
  "mr_roundRobinIdx (update_host i g m) = mr_roundRobinIdx m"
  "mr_weightedRoundRobinIdx (update_host i g m) = mr_weightedRoundRobinIdx m"
  by (simp_all add: update_host_def instances_on_def collectInstancesForHost_def host_of_def split: option.split)

lemma update_host_get:
  "gm_get (mr_hosts (update_host i g m)) k =
   (if k = i then map_option g (gm_get (mr_hosts m) i) else gm_get (mr_hosts m) k)"
  by (simp add: update_host_def split: option.split)

lemma update_host_ok: "gm_ok (mr_hosts m) \<Longrightarrow> gm_ok (mr_hosts (update_host i g m))"
  by (simp add: update_host_def split: option.split)

lemma update_host_mr_hostToInstances [simp]: "mr_hostToInstances (update_host i g m) = mr_hostToInstances m"
  by (simp add: update_host_def split: option.split)

lemma instances_ok_cong:
  "mr_instances m' = mr_instances m \<Longrightarrow> mr_nextInstanceID m' = mr_nextInstanceID m \<Longrightarrow>
   (\<And>h. instances_on m' h = instances_on m h) \<Longrightarrow> instances_ok m' = instances_ok m"
  by (simp add: instances_ok_def)

lemma update_host_inv:
  assumes inv: "mgr_inv m"
    and keep: "\<And>h. sh_cpuCores (g h) = sh_cpuCores h" "\<And>h. sh_memoryGB (g h) = sh_memoryGB h"
      "\<And>h. sh_serviceInstances (g h) = sh_serviceInstances h"
  shows "mgr_inv (update_host i g m)"
proof -
  let ?m = "update_host i g m"
  have I: "instances_ok ?m" using mgr_invD(1) [OF inv] by (subst instances_ok_cong [of _ m]) simp_all
  have dom: "gm_get (mr_hosts ?m) k = None \<longleftrightarrow> gm_get (mr_hosts m) k = None" for k by (simp add: update_host_get)
  have L: "lists_ok ?m" using mgr_invD(2) [OF inv] unfolding lists_ok_def dom by simp
  have "hosts_ok ?m" unfolding hosts_ok_def
  proof (intro conjI allI impI)
    fix k h assume "gm_get (mr_hosts ?m) k = Some h"
    then obtain h0 where h0: "gm_get (mr_hosts m) k = Some h0" "h = (if k = i then g h0 else h0)"
      by (auto simp: update_host_get split: if_splits)
    then have "0 < sh_cpuCores h0 \<and> 0 < sh_memoryGB h0 \<and> sh_serviceInstances h0 = instances_on m k \<and>
        host_within h0 (collectInstancesForHost m k)"
      using mgr_invD(3) [OF inv] unfolding hosts_ok_def by blast
    then show "0 < sh_cpuCores h" "0 < sh_memoryGB h" "sh_serviceInstances h = instances_on ?m k"
      "host_within h (collectInstancesForHost ?m k)"
      using host_within_cong [of h h0] by (simp_all add: h0(2) keep)
  qed (use mgr_invD(3) [OF inv] in \<open>simp add: hosts_ok_def update_host_ok\<close>)
  with I L show ?thesis by (rule mgr_invI)
qed

section \<open>Placing an instance\<close>

lemma place_instance_frame:
  "mr_instances (place_instance now i svc hid c mb m) = gm_put i (NewServiceInstance now i svc hid c mb) (mr_instances m)"
  "instances_on (place_instance now i svc hid c mb m) h = (if h = hid then instances_on m hid @ [i] else instances_on m h)"
  "mr_nextInstanceID (place_instance now i svc hid c mb m) = mr_nextInstanceID m"
  "gm_get (mr_hosts (place_instance now i svc hid c mb m)) h =
       (if h = hid then map_option (AddService i) (gm_get (mr_hosts m) hid) else gm_get (mr_hosts m) h)"
  "gm_ok (mr_hosts m) \<Longrightarrow> gm_ok (mr_hosts (place_instance now i svc hid c mb m))"
  "mr_sortedServiceInstMap (place_instance now i svc hid c mb m) = mr_sortedServiceInstMap m"
  "mr_roundRobinIdx (place_instance now i svc hid c mb m) = mr_roundRobinIdx m"
  "mr_weightedRoundRobinIdx (place_instance now i svc hid c mb m) = mr_weightedRoundRobinIdx m"
  by (simp_all add: place_instance_def instances_on_def update_host_def Let_def split: option.split)

lemma new_instance_fields [simp]:
  "si_id (NewServiceInstance now i svc hid c mb) = i" "si_serviceName (NewServiceInstance now i svc hid c mb) = svc"
  "si_hostID (NewServiceInstance now i svc hid c mb) = hid" "si_cpuCores (NewServiceInstance now i svc hid c mb) = c"
  "si_memoryMB (NewServiceInstance now i svc hid c mb) = mb" "IsRoutable (NewServiceInstance now i svc hid c mb)"
  "si_lifecycle (NewServiceInstance now i svc hid c mb) = InstanceActive"
  by (simp_all add: NewServiceInstance_def IsRoutable_def)

lemma place_instance_inv:
  assumes inv: "mgr_inv m" and fresh: "gm_get (mr_instances m) i = None" and host: "gm_get (mr_hosts m) hid = Some h"
    and fit: "fits h (sum_cores (collectInstancesForHost m hid), sum_memory (collectInstancesForHost m hid)) c mb"
    and nn: "0 \<le> c" "0 \<le> mb" and i: "i = instance_id svc n" "0 \<le> n" "n < mr_nextInstanceID m"
  shows "mgr_inv (place_instance now i svc hid c mb m)"
proof -
  let ?m = "place_instance now i svc hid c mb m"
  note fr = place_instance_frame
  have notin: "i \<notin> set (instances_on m k)" for k
    using mgr_invD(2) [OF inv] fresh unfolding lists_ok_def host_of_def by force
  have get: "gm_get (mr_instances ?m) k = (if k = i then Some (NewServiceInstance now i svc hid c mb) else gm_get (mr_instances m) k)" for k
    by (simp add: fr)
  have I: "instances_ok ?m" unfolding instances_ok_def
  proof (intro conjI allI impI)
    fix k inst assume k: "gm_get (mr_instances ?m) k = Some inst"
    have "si_id inst = k \<and> k \<in> set (instances_on ?m (si_hostID inst)) \<and> 0 \<le> si_cpuCores inst \<and> 0 \<le> si_memoryMB inst \<and>
      (\<exists>n. 0 \<le> n \<and> n < mr_nextInstanceID ?m \<and> k = instance_id (si_serviceName inst) n)"
    proof (cases "k = i")
      case True
      then have "inst = NewServiceInstance now i svc hid c mb" using k by (simp add: get)
      then show ?thesis using True nn i by (auto simp: fr)
    next
      case False
      then have "gm_get (mr_instances m) k = Some inst" using k by (simp add: get)
      then have "si_id inst = k \<and> k \<in> set (instances_on m (si_hostID inst)) \<and> 0 \<le> si_cpuCores inst \<and> 0 \<le> si_memoryMB inst \<and>
        (\<exists>n. 0 \<le> n \<and> n < mr_nextInstanceID m \<and> k = instance_id (si_serviceName inst) n)"
        using mgr_invD(1) [OF inv] unfolding instances_ok_def by blast
      then show ?thesis by (auto simp: fr)
    qed
    then show "si_id inst = k" "k \<in> set (instances_on ?m (si_hostID inst))" "0 \<le> si_cpuCores inst" "0 \<le> si_memoryMB inst"
      "\<exists>n. 0 \<le> n \<and> n < mr_nextInstanceID ?m \<and> k = instance_id (si_serviceName inst) n" by blast+
  qed (use mgr_invD(1) [OF inv] in \<open>simp_all add: instances_ok_def fr\<close>)
  have L: "lists_ok ?m" unfolding lists_ok_def
  proof (intro allI conjI impI ballI)
    fix k
    show "distinct (instances_on ?m k)" using mgr_invD(2) [OF inv] notin by (simp add: fr lists_ok_def)
    show "gm_get (mr_hosts ?m) k \<noteq> None" if "instances_on ?m k \<noteq> []"
      using that mgr_invD(2) [OF inv] host unfolding lists_ok_def by (auto simp: fr split: if_splits)
    fix x assume x: "x \<in> set (instances_on ?m k)"
    show "host_of ?m x = Some k"
    proof (cases "x = i")
      case True
      then show ?thesis using x notin by (auto simp: host_of_def get fr split: if_splits)
    next
      case False
      then have "x \<in> set (instances_on m k)" using x by (auto simp: fr split: if_splits)
      then have "host_of m x = Some k" using mgr_invD(2) [OF inv] unfolding lists_ok_def by blast
      then show ?thesis using False by (simp add: host_of_def get)
    qed
  qed
  have collect: "collectInstancesForHost ?m k = (if k = hid then collectInstancesForHost m hid @ [NewServiceInstance now i svc hid c mb]
      else collectInstancesForHost m k)" for k
  proof -
    have "map (\<lambda>x. the (gm_get (mr_instances ?m) x)) (instances_on m k) = map (\<lambda>x. the (gm_get (mr_instances m) x)) (instances_on m k)"
      using notin [of k] by (auto simp: get)
    then show ?thesis unfolding collect_map [OF L] collect_map [OF mgr_invD(2) [OF inv]] by (auto simp: fr)
  qed
  have "hosts_ok ?m" unfolding hosts_ok_def
  proof (intro conjI allI impI)
    fix k hk assume k: "gm_get (mr_hosts ?m) k = Some hk"
    have old: "0 < sh_cpuCores h0 \<and> 0 < sh_memoryGB h0 \<and> sh_serviceInstances h0 = instances_on m k \<and>
        host_within h0 (collectInstancesForHost m k)" if "gm_get (mr_hosts m) k = Some h0" for h0
      using that mgr_invD(3) [OF inv] unfolding hosts_ok_def by blast
    have "0 < sh_cpuCores hk \<and> 0 < sh_memoryGB hk \<and> sh_serviceInstances hk = instances_on ?m k \<and>
        host_within hk (collectInstancesForHost ?m k)"
    proof (cases "k = hid")
      case True
      then have "hk = AddService i h" using k host by (simp add: fr)
      then show ?thesis using True old [of h] host fit
        host_within_cong [of "AddService i h" h]
        by (simp add: AddService_def fr collect) (simp add: host_within_def fits_def)
    next
      case False
      then show ?thesis using k old [of hk] by (simp add: fr collect)
    qed
    then show "0 < sh_cpuCores hk" "0 < sh_memoryGB hk" "sh_serviceInstances hk = instances_on ?m k"
      "host_within hk (collectInstancesForHost ?m k)" by blast+
  qed (use mgr_invD(3) [OF inv] in \<open>simp add: hosts_ok_def fr\<close>)
  with I L show ?thesis by (rule mgr_invI)
qed

section \<open>Removing an instance\<close>

lemma delete_instance_frame:
  "mr_instances (delete_instance i hid m) = gm_del i (mr_instances m)"
  "instances_on (delete_instance i hid m) h =
     (if h = hid then filter (\<lambda>x. x \<noteq> i) (instances_on m hid) else instances_on m h)"
  "mr_nextInstanceID (delete_instance i hid m) = mr_nextInstanceID m"
  "gm_get (mr_hosts (delete_instance i hid m)) h =
     (if h = hid then map_option (RemoveService i) (gm_get (mr_hosts m) hid) else gm_get (mr_hosts m) h)"
  "gm_ok (mr_hosts m) \<Longrightarrow> gm_ok (mr_hosts (delete_instance i hid m))"
  "mr_roundRobinIdx (delete_instance i hid m) = mr_roundRobinIdx m"
  "mr_weightedRoundRobinIdx (delete_instance i hid m) = mr_weightedRoundRobinIdx m"
  by (simp_all add: delete_instance_def instances_on_def gm_get_or_def update_host_def Let_def split: option.split)

lemma delete_instance_inv:
  assumes inv: "mgr_inv m" and i: "gm_get (mr_instances m) i = Some inst" "si_hostID inst = hid"
  shows "mgr_inv (delete_instance i hid m)"
proof -
  let ?m = "delete_instance i hid m"
  note fr = delete_instance_frame
  have get: "gm_get (mr_instances ?m) k = (if k = i then None else gm_get (mr_instances m) k)" for k by (simp add: fr)
  have notin: "i \<notin> set (instances_on m k)" if "k \<noteq> hid" for k
    using mgr_invD(2) [OF inv] i that unfolding lists_ok_def host_of_def by force
  have on: "instances_on ?m k = filter (\<lambda>x. x \<noteq> i) (instances_on m k)" for k
  proof (cases "k = hid")
    case False
    then have "filter (\<lambda>x. x \<noteq> i) (instances_on m k) = instances_on m k" using notin by (intro filter_True) auto
    then show ?thesis using False by (simp add: fr)
  qed (simp add: fr)
  have I: "instances_ok ?m" unfolding instances_ok_def
  proof (intro conjI allI impI)
    fix k inst' assume k: "gm_get (mr_instances ?m) k = Some inst'"
    then have "k \<noteq> i" "gm_get (mr_instances m) k = Some inst'" by (auto simp: get split: if_splits)
    moreover from this have "si_id inst' = k \<and> k \<in> set (instances_on m (si_hostID inst')) \<and> 0 \<le> si_cpuCores inst' \<and>
      0 \<le> si_memoryMB inst' \<and> (\<exists>n. 0 \<le> n \<and> n < mr_nextInstanceID m \<and> k = instance_id (si_serviceName inst') n)"
      using mgr_invD(1) [OF inv] unfolding instances_ok_def by blast
    ultimately show "si_id inst' = k" "k \<in> set (instances_on ?m (si_hostID inst'))" "0 \<le> si_cpuCores inst'"
      "0 \<le> si_memoryMB inst'" "\<exists>n. 0 \<le> n \<and> n < mr_nextInstanceID ?m \<and> k = instance_id (si_serviceName inst') n"
      by (simp_all add: on fr(3))
  qed (use mgr_invD(1) [OF inv] in \<open>simp_all add: instances_ok_def fr\<close>)
  have L: "lists_ok ?m" unfolding lists_ok_def
  proof (intro allI conjI impI ballI)
    fix k
    show "distinct (instances_on ?m k)" using mgr_invD(2) [OF inv] by (simp add: on lists_ok_def)
    show "gm_get (mr_hosts ?m) k \<noteq> None" if "instances_on ?m k \<noteq> []"
    proof -
      have "instances_on m k \<noteq> []" using that by (auto simp: on)
      then show ?thesis using mgr_invD(2) [OF inv] unfolding lists_ok_def by (auto simp: fr)
    qed
    fix x assume "x \<in> set (instances_on ?m k)"
    then have "x \<noteq> i" "x \<in> set (instances_on m k)" by (auto simp: on)
    then show "host_of ?m x = Some k" using mgr_invD(2) [OF inv] unfolding lists_ok_def by (simp add: host_of_def get)
  qed
  have sub: "subseq (collectInstancesForHost ?m k) (collectInstancesForHost m k)" for k
  proof -
    have "map (\<lambda>x. the (gm_get (mr_instances ?m) x)) (instances_on ?m k) =
        map (\<lambda>x. the (gm_get (mr_instances m) x)) (instances_on ?m k)" by (auto simp: on get)
    then show ?thesis unfolding collect_map [OF L] collect_map [OF mgr_invD(2) [OF inv]]
      by (metis on subseq_filter_left subseq_map)
  qed
  have "hosts_ok ?m" unfolding hosts_ok_def
  proof (intro conjI allI impI)
    fix k hk assume k: "gm_get (mr_hosts ?m) k = Some hk"
    then obtain h0 where h0: "gm_get (mr_hosts m) k = Some h0" "hk = (if k = hid then RemoveService i h0 else h0)"
      by (auto simp: fr split: if_splits)
    have old: "0 < sh_cpuCores h0 \<and> 0 < sh_memoryGB h0 \<and> sh_serviceInstances h0 = instances_on m k \<and>
        host_within h0 (collectInstancesForHost m k)"
      using h0(1) mgr_invD(3) [OF inv] unfolding hosts_ok_def by blast
    have "distinct (instances_on m k)" using mgr_invD(2) [OF inv] by (simp add: lists_ok_def)
    then have "remove1 i (instances_on m k) = instances_on ?m k"
      by (simp add: on distinct_remove1_removeAll removeAll_filter_not_eq eq_commute)
    then have "sh_serviceInstances hk = instances_on ?m k"
      using old h0(2) notin [of k] by (cases "k = hid") (simp_all add: RemoveService_def remove1_idem)
    moreover have "host_within h0 (collectInstancesForHost ?m k)"
      using old sum_subseq [OF sub [of k] collect_nonneg [OF inv]] by (auto simp: host_within_def)
    ultimately show "0 < sh_cpuCores hk" "0 < sh_memoryGB hk" "sh_serviceInstances hk = instances_on ?m k"
      "host_within hk (collectInstancesForHost ?m k)"
      using old h0(2) host_within_cong [of hk h0] by (simp_all add: RemoveService_def)
  qed (use mgr_invD(3) [OF inv] in \<open>simp add: hosts_ok_def fr\<close>)
  with I L show ?thesis by (rule mgr_invI)
qed

section \<open>The cache of routable instances\<close>

definition routable :: "'r resource_manager \<Rightarrow> string \<Rightarrow> string \<Rightarrow> bool" where
  "routable m sn i \<longleftrightarrow>
     (\<exists>inst. gm_get (mr_instances m) i = Some inst \<and> si_serviceName inst = sn \<and> IsRoutable inst)"

definition cache_inv :: "'r resource_manager \<Rightarrow> bool" where
  "cache_inv m \<longleftrightarrow>
     (\<forall>sn ids. gm_get (mr_sortedServiceInstMap m) sn = Some ids \<longrightarrow>
        ids \<noteq> [] \<and> distinct ids \<and> sorted ids \<and> (\<forall>i \<in> set ids. routable m sn i) \<and>
        gm_get_or 0 (mr_roundRobinIdx m) sn < int (length ids)) \<and>
     (\<forall>sn. 0 \<le> gm_get_or 0 (mr_roundRobinIdx m) sn \<and> 0 \<le> gm_get_or 0 (mr_weightedRoundRobinIdx m) sn)"

definition indices_ok :: "'r resource_manager \<Rightarrow> bool" where
  "indices_ok m \<longleftrightarrow> (\<forall>sn. 0 \<le> gm_get_or 0 (mr_roundRobinIdx m) sn \<and> 0 \<le> gm_get_or 0 (mr_weightedRoundRobinIdx m) sn)"

lemma cache_indices: "cache_inv m \<Longrightarrow> indices_ok m"
  by (simp add: cache_inv_def indices_ok_def)

lemma cache_inv_mono:
  assumes "cache_inv m" "mr_sortedServiceInstMap m' = mr_sortedServiceInstMap m" "mr_roundRobinIdx m' = mr_roundRobinIdx m"
    "mr_weightedRoundRobinIdx m' = mr_weightedRoundRobinIdx m" "\<And>sn i. routable m sn i \<Longrightarrow> routable m' sn i"
  shows "cache_inv m'"
  using assms unfolding cache_inv_def by (metis (no_types, lifting))

lemma gm_get_tabulate: "gm_get (map (\<lambda>k. (k, f k)) ks) k = (if k \<in> set ks then Some (f k) else None)"
  by (induction ks) auto

definition clamp_index :: "string \<times> string list \<Rightarrow> (string, int) gomap \<Rightarrow> (string, int) gomap" where
  "clamp_index p rr = (case p of (sn, ids) \<Rightarrow>
     if ids \<noteq> [] \<and> gm_get_or 0 rr sn \<ge> int (length ids) then gm_put sn 0 rr else rr)"

lemma clamp_index_get:
  "gm_get_or 0 (clamp_index (a, ids) rr) sn =
   (if sn = a \<and> ids \<noteq> [] \<and> gm_get_or 0 rr sn \<ge> int (length ids) then 0 else gm_get_or 0 rr sn)"
  by (auto simp: clamp_index_def)

lemma clamp_fold:
  "distinct (map fst next) \<Longrightarrow> gm_get_or 0 (fold clamp_index next rr) sn =
   (case gm_get next sn of None \<Rightarrow> gm_get_or 0 rr sn
    | Some ids \<Rightarrow> if ids \<noteq> [] \<and> gm_get_or 0 rr sn \<ge> int (length ids) then 0 else gm_get_or 0 rr sn)"
proof (induction "next" arbitrary: rr)
  case (Cons p "next")
  obtain a ids where p: "p = (a, ids)" by (cases p)
  have "sn = a \<Longrightarrow> gm_get next sn = None" using Cons.prems p by (auto simp: gm_get_None_iff)
  then show ?case using Cons by (auto simp: p clamp_index_get split: option.split)
qed simp

definition routable_names :: "'r resource_manager \<Rightarrow> string list" where
  "routable_names m = remdups (map (si_serviceName \<circ> snd) (filter (\<lambda>(i, inst). IsRoutable inst) (mr_instances m)))"

lemma rebuild_eq:
  "rebuildSortedInstanceCache m =
   m\<lparr>mr_sortedServiceInstMap := map (\<lambda>sn. (sn, routable_ids (mr_instances m) sn)) (routable_names m),
     mr_roundRobinIdx := fold clamp_index (map (\<lambda>sn. (sn, routable_ids (mr_instances m) sn)) (routable_names m)) (mr_roundRobinIdx m)\<rparr>"
proof -
  have "clamp_index = (\<lambda>(sn, ids) rr. if ids \<noteq> [] \<and> gm_get_or 0 rr sn \<ge> int (length ids) then gm_put sn 0 rr else rr)"
    by (simp add: clamp_index_def fun_eq_iff split: prod.split)
  then show ?thesis by (simp add: rebuildSortedInstanceCache_def routable_names_def Let_def)
qed

lemma rebuild_frame [simp]:
  "mr_instances (rebuildSortedInstanceCache m) = mr_instances m" "mr_hosts (rebuildSortedInstanceCache m) = mr_hosts m"
  "instances_on (rebuildSortedInstanceCache m) h = instances_on m h"
  "mr_nextInstanceID (rebuildSortedInstanceCache m) = mr_nextInstanceID m"
  "collectInstancesForHost (rebuildSortedInstanceCache m) h = collectInstancesForHost m h"
  "host_of (rebuildSortedInstanceCache m) i = host_of m i" "routable (rebuildSortedInstanceCache m) sn i = routable m sn i"
  "service_ids (rebuildSortedInstanceCache m) sn = service_ids m sn" "active_ids (rebuildSortedInstanceCache m) ids = active_ids m ids"
  by (simp_all add: rebuild_eq instances_on_def collectInstancesForHost_def host_of_def routable_def service_ids_def active_ids_def)

lemma mgr_inv_cong:
  assumes "mr_instances m' = mr_instances m" "mr_hosts m' = mr_hosts m" "\<And>h. instances_on m' h = instances_on m h"
    "mr_nextInstanceID m' = mr_nextInstanceID m"
  shows "mgr_inv m' = mgr_inv m"
proof -
  have "collectInstancesForHost m' h = collectInstancesForHost m h" "host_of m' i = host_of m i" for h i
    using assms by (simp_all add: collectInstancesForHost_def host_of_def)
  then show ?thesis using assms by (simp add: mgr_inv_def instances_ok_def lists_ok_def hosts_ok_def)
qed

lemma rebuild_inv [simp]: "mgr_inv (rebuildSortedInstanceCache m) = mgr_inv m"
  by (rule mgr_inv_cong) simp_all

lemma instances_member:
  assumes "instances_ok m"
  shows "(i, inst) \<in> set (mr_instances m) \<longleftrightarrow> gm_get (mr_instances m) i = Some inst"
  using assms by (simp add: instances_ok_def)

lemma routable_ids_facts:
  assumes ok: "instances_ok m"
  shows "i \<in> set (routable_ids (mr_instances m) sn) \<longleftrightarrow> routable m sn i"
    "distinct (routable_ids (mr_instances m) sn)" "sorted (routable_ids (mr_instances m) sn)"
proof -
  let ?xs = "filter (\<lambda>(i, inst). IsRoutable inst \<and> si_serviceName inst = sn) (mr_instances m)"
  have "\<forall>p \<in> set ?xs. (si_id \<circ> snd) p = fst p" using instance_facts(1) [OF ok] instances_member [OF ok] by auto
  then have "map (si_id \<circ> snd) ?xs = map fst ?xs" by (simp add: map_eq_conv)
  then have r: "routable_ids (mr_instances m) sn = sort (map fst ?xs)" unfolding routable_ids_def by (rule arg_cong)
  show "i \<in> set (routable_ids (mr_instances m) sn) \<longleftrightarrow> routable m sn i"
    unfolding r routable_def instances_member [OF ok, symmetric] by force
  show "distinct (routable_ids (mr_instances m) sn)" unfolding r using ok
    by (simp add: instances_ok_def distinct_map_filter)
  show "sorted (routable_ids (mr_instances m) sn)" unfolding r by simp
qed

lemma rebuild_cache:
  assumes ok: "instances_ok m" and idx: "indices_ok m"
  shows "cache_inv (rebuildSortedInstanceCache m)"
    "gm_get (mr_sortedServiceInstMap (rebuildSortedInstanceCache m)) sn =
       (if \<exists>i. routable m sn i then Some (routable_ids (mr_instances m) sn) else None)"
proof -
  let ?m = "rebuildSortedInstanceCache m" and ?r = "routable_ids (mr_instances m)"
  let ?next = "map (\<lambda>sn. (sn, ?r sn)) (routable_names m)"
  have names: "sn \<in> set (routable_names m) \<longleftrightarrow> (\<exists>i. routable m sn i)" for sn
    unfolding routable_def routable_names_def instances_member [OF ok, symmetric] by force
  have c: "mr_sortedServiceInstMap ?m = ?next" by (simp add: rebuild_eq)
  have d: "distinct (map fst ?next)" by (simp add: comp_def routable_names_def)
  show get: "gm_get (mr_sortedServiceInstMap ?m) sn = (if \<exists>i. routable m sn i then Some (?r sn) else None)" for sn
    by (simp add: c gm_get_tabulate names)
  have rr: "gm_get_or 0 (mr_roundRobinIdx ?m) sn =
      (case gm_get ?next sn of None \<Rightarrow> gm_get_or 0 (mr_roundRobinIdx m) sn
       | Some ids \<Rightarrow> if ids \<noteq> [] \<and> gm_get_or 0 (mr_roundRobinIdx m) sn \<ge> int (length ids) then 0
           else gm_get_or 0 (mr_roundRobinIdx m) sn)" for sn
    unfolding rebuild_eq using clamp_fold [OF d] by simp
  show "cache_inv ?m" unfolding cache_inv_def
  proof (intro conjI allI impI)
    fix sn ids assume "gm_get (mr_sortedServiceInstMap ?m) sn = Some ids"
    then have ids: "ids = ?r sn" "\<exists>i. routable m sn i" unfolding get by (auto split: if_splits)
    then show "ids \<noteq> []" using routable_ids_facts(1) [OF ok] by force
    show "distinct ids" "sorted ids" unfolding ids(1) by (rule routable_ids_facts [OF ok])+
    show "\<forall>i \<in> set ids. routable ?m sn i" unfolding ids(1) using routable_ids_facts(1) [OF ok] by simp
    have "gm_get ?next sn = Some ids" using ids get [of sn] c by simp
    then show "gm_get_or 0 (mr_roundRobinIdx ?m) sn < int (length ids)" using \<open>ids \<noteq> []\<close> by (simp add: rr)
  next
    fix sn
    show "0 \<le> gm_get_or 0 (mr_roundRobinIdx ?m) sn" using idx by (auto simp: rr indices_ok_def split: option.split)
    show "0 \<le> gm_get_or 0 (mr_weightedRoundRobinIdx ?m) sn" using idx by (simp add: rebuild_eq indices_ok_def)
  qed
qed

end
