(* ===== verification/Resource_Properties.thy ===== *)
theory Resource_Properties
  imports Resource_Invariant
begin

text \<open>
  What the resource manager guarantees: every operation keeps the invariant, so no sequence of placements, scalings,
  drains and requests oversubscribes a host or routes a request to a missing or draining instance; and the
  results of scaling, draining and round-robin selection.
\<close>

definition full_inv :: "'r resource_manager \<Rightarrow> bool" where
  "full_inv m \<longleftrightarrow> mgr_inv m \<and> cache_inv m"

lemma full_invD: "full_inv m \<Longrightarrow> mgr_inv m" "full_inv m \<Longrightarrow> cache_inv m" "full_inv m \<Longrightarrow> instances_ok m"
  "full_inv m \<Longrightarrow> indices_ok m"
  by (auto simp: full_inv_def mgr_inv_def intro: cache_indices)

section \<open>Scaling up\<close>

lemma find_SomeD: "find P xs = Some x \<Longrightarrow> P x \<and> x \<in> set xs"
  by (metis find_Some_iff nth_mem)

lemma pick_host_fits:
  assumes "pickHostForNewInstance m svc c mb = Inr hid"
  shows "\<exists>h. gm_get (mr_hosts m) hid = Some h \<and>
    fits h (sum_cores (collectInstancesForHost m hid), sum_memory (collectInstancesForHost m hid)) c mb"
proof -
  have "\<exists>xs. find (\<lambda>hid. case gm_get (mr_hosts m) hid of None \<Rightarrow> False | Some h \<Rightarrow>
      let insts = collectInstancesForHost m hid in fits h (sum_cores insts, sum_memory insts) c mb) xs = Some hid"
    using assms unfolding pickHostForNewInstance_def Let_def by (auto split: if_splits option.splits)
  then show ?thesis by (auto dest!: find_SomeD simp: Let_def split: option.splits)
qed

lemma next_id_inv:
  assumes "mgr_inv m" "mr_nextInstanceID m \<le> n"
  shows "mgr_inv (m\<lparr>mr_nextInstanceID := n\<rparr>)"
proof -
  let ?m = "m\<lparr>mr_nextInstanceID := n\<rparr>"
  have [simp]: "instances_on ?m h = instances_on m h" "collectInstancesForHost ?m h = collectInstancesForHost m h"
    "host_of ?m i = host_of m i" for h i
    by (simp_all add: instances_on_def collectInstancesForHost_def host_of_def)
  have "instances_ok ?m" using mgr_invD(1) [OF assms(1)] assms(2) unfolding instances_ok_def by fastforce
  moreover have "lists_ok ?m" "hosts_ok ?m" using mgr_invD(2,3) [OF assms(1)] by (simp_all add: lists_ok_def hosts_ok_def)
  ultimately show ?thesis by (rule mgr_invI)
qed

definition active_replica :: "string \<Rightarrow> string \<times> service_instance \<Rightarrow> bool" where
  "active_replica svc p \<longleftrightarrow> si_serviceName (snd p) = svc \<and> si_lifecycle (snd p) = InstanceActive"

definition new_replica :: "gotime \<Rightarrow> string \<Rightarrow> string \<Rightarrow> float64 \<Rightarrow> float64 \<Rightarrow> 'r resource_manager \<Rightarrow> 'r resource_manager" where
  "new_replica now svc hid c mb m =
     place_instance now (instance_id svc (mr_nextInstanceID m)) svc hid c mb (m\<lparr>mr_nextInstanceID := mr_nextInstanceID m + 1\<rparr>)"

lemma new_replica_full:
  assumes inv: "full_inv m" and h: "gm_get (mr_hosts m) hid = Some h"
    "fits h (sum_cores (collectInstancesForHost m hid), sum_memory (collectInstancesForHost m hid)) c mb"
    and nn: "0 \<le> c" "0 \<le> mb"
  shows "full_inv (new_replica now svc hid c mb m) \<and>
    mr_instances (new_replica now svc hid c mb m) = mr_instances m @
      [(instance_id svc (mr_nextInstanceID m), NewServiceInstance now (instance_id svc (mr_nextInstanceID m)) svc hid c mb)]"
proof -
  let ?m = "m\<lparr>mr_nextInstanceID := mr_nextInstanceID m + 1\<rparr>" and ?i = "instance_id svc (mr_nextInstanceID m)"
  let ?m' = "new_replica now svc hid c mb m"
  have fresh: "gm_get (mr_instances m) ?i = None" by (rule fresh_id [OF full_invD(3) [OF inv]])
  have c: "collectInstancesForHost ?m hid = collectInstancesForHost m hid"
    by (simp add: collectInstancesForHost_def instances_on_def)
  have n0: "0 \<le> mr_nextInstanceID m" using full_invD(3) [OF inv] by (simp add: instances_ok_def)
  have "mgr_inv ?m'" unfolding new_replica_def
    using next_id_inv [OF full_invD(1) [OF inv], of "mr_nextInstanceID m + 1"] fresh h nn c n0
    by (intro place_instance_inv [where h = h and n = "mr_nextInstanceID m"]) simp_all
  moreover have "cache_inv ?m'"
  proof (rule cache_inv_mono [OF full_invD(2) [OF inv]])
    fix sn i assume "routable m sn i"
    then show "routable ?m' sn i" using fresh by (auto simp: routable_def new_replica_def place_instance_frame)
  qed (simp_all add: new_replica_def place_instance_frame)
  ultimately show ?thesis using fresh by (simp add: full_inv_def new_replica_def place_instance_frame gm_put_fresh)
qed

lemma new_replica_inv:
  assumes inv: "full_inv m" and pick: "pickHostForNewInstance m svc c mb = Inr hid" and nn: "0 \<le> c" "0 \<le> mb"
  shows "full_inv (new_replica now svc hid c mb m) \<and>
    mr_instances (new_replica now svc hid c mb m) = mr_instances m @
      [(instance_id svc (mr_nextInstanceID m), NewServiceInstance now (instance_id svc (mr_nextInstanceID m)) svc hid c mb)]"
  using pick_host_fits [OF pick] new_replica_full [OF inv _ _ nn] by blast

lemma add_replicas_inv:
  assumes "full_inv m" "0 \<le> c" "0 \<le> mb"
  shows "full_inv (snd (add_replicas now svc c mb n m)) \<and>
    (\<exists>new. mr_instances (snd (add_replicas now svc c mb n m)) = mr_instances m @ new \<and>
       (\<forall>p \<in> set new. active_replica svc p \<and> si_cpuCores (snd p) = c \<and> si_memoryMB (snd p) = mb) \<and>
       length new \<le> n \<and> (fst (add_replicas now svc c mb n m) = None \<longrightarrow> length new = n))"
  using assms
proof (induction n arbitrary: m)
  case (Suc n)
  show ?case
  proof (cases "pickHostForNewInstance m svc c mb")
    case (Inl err)
    then show ?thesis using Suc.prems by (auto intro!: exI [of _ "[]"])
  next
    case (Inr hid)
    let ?m = "new_replica now svc hid c mb m"
    note nr = new_replica_inv [OF Suc.prems(1) Inr Suc.prems(2,3), of now]
    have r: "add_replicas now svc c mb (Suc n) m = add_replicas now svc c mb n ?m"
      by (simp add: Inr new_replica_def Let_def)
    from Suc.IH [OF conjunct1 [OF nr] Suc.prems(2,3)] obtain new where new: "full_inv (snd (add_replicas now svc c mb n ?m))"
      "mr_instances (snd (add_replicas now svc c mb n ?m)) = mr_instances ?m @ new"
      "\<forall>p \<in> set new. active_replica svc p \<and> si_cpuCores (snd p) = c \<and> si_memoryMB (snd p) = mb"
      "length new \<le> n" "fst (add_replicas now svc c mb n ?m) = None \<longrightarrow> length new = n"
      by (elim conjE exE) (rule that)
    let ?p = "(instance_id svc (mr_nextInstanceID m), NewServiceInstance now (instance_id svc (mr_nextInstanceID m)) svc hid c mb)"
    show ?thesis unfolding r using new nr by (intro conjI exI [of _ "?p # new"]) (auto simp: active_replica_def)
  qed
qed (auto intro!: exI [of _ "[]"])

section \<open>Scaling a service\<close>

lemma service_ids_member:
  assumes "instances_ok m"
  shows "i \<in> set (service_ids m svc) \<longleftrightarrow> (\<exists>inst. gm_get (mr_instances m) i = Some inst \<and> si_serviceName inst = svc)"
  unfolding instances_member [OF assms, symmetric] by (force simp: service_ids_def)

lemma active_list:
  assumes ok: "instances_ok m"
  shows "set (active_ids m (sort (service_ids m svc))) = {i. routable m svc i}"
    "distinct (active_ids m (sort (service_ids m svc)))" "sorted (active_ids m (sort (service_ids m svc)))"
proof -
  show "set (active_ids m (sort (service_ids m svc))) = {i. routable m svc i}"
    by (auto simp: active_ids_def service_ids_member [OF ok] routable_def IsRoutable_def split: option.splits)
  have "distinct (service_ids m svc)" using ok by (simp add: service_ids_def instances_ok_def distinct_map_filter)
  then show "distinct (active_ids m (sort (service_ids m svc)))" by (simp add: active_ids_def)
  show "sorted (active_ids m (sort (service_ids m svc)))" 
    by (simp add: active_ids_def filter_sort)
qed

lemma card_active:
  "instances_ok m \<Longrightarrow> length (active_ids m (sort (service_ids m svc))) = card {i. routable m svc i}"
  using active_list(1,2) [of m svc] by (metis distinct_card)

lemma finite_routable [simp]: "finite {i. routable m svc i}"
proof (rule finite_subset)
  show "{i. routable m svc i} \<subseteq> fst ` set (mr_instances m)"
    by (auto simp: routable_def dest!: map_of_SomeD intro: rev_image_eqI)
qed simp

definition drain_all :: "gotime \<Rightarrow> string list \<Rightarrow> 'r resource_manager \<Rightarrow> 'r resource_manager" where
  "drain_all deadline ids m = fold (\<lambda>i. update_instance i (SetDraining deadline)) ids m"

lemma set_draining_fields [simp]:
  "si_id (SetDraining t s) = si_id s" "si_serviceName (SetDraining t s) = si_serviceName s" "si_hostID (SetDraining t s) = si_hostID s"
  "si_cpuCores (SetDraining t s) = si_cpuCores s" "si_memoryMB (SetDraining t s) = si_memoryMB s"
  "\<not> IsRoutable (SetDraining t s)" "si_drainDeadline (SetDraining t s) = t" "si_lifecycle (SetDraining t s) = InstanceDraining"
  by (simp_all add: SetDraining_def IsRoutable_def)

lemma drain_all_get:
  "gm_get (mr_instances (drain_all t ids m)) k =
   (if k \<in> set ids then map_option (SetDraining t) (gm_get (mr_instances m) k) else gm_get (mr_instances m) k)"
proof (induction ids arbitrary: m)
  case (Cons i ids)
  have idem: "SetDraining t \<circ> SetDraining t = SetDraining t" by (simp add: fun_eq_iff SetDraining_def)
  show ?case using Cons [of "update_instance i (SetDraining t) m"]
    by (auto simp: drain_all_def update_instance_get option.map_comp idem)
qed (simp add: drain_all_def)

lemma drain_all_inv: "mgr_inv m \<Longrightarrow> mgr_inv (drain_all t ids m)"
  by (induction ids arbitrary: m) (simp_all add: drain_all_def update_instance_inv)

lemma drain_all_indices: "indices_ok m \<Longrightarrow> indices_ok (drain_all t ids m)"
  by (induction ids arbitrary: m) (auto simp: drain_all_def indices_ok_def)

lemma drain_all_routable: "routable (drain_all t ids m) sn i \<longleftrightarrow> routable m sn i \<and> i \<notin> set ids"
  by (auto simp: routable_def drain_all_get)

lemma rebuild_full: "mgr_inv m \<Longrightarrow> indices_ok m \<Longrightarrow> full_inv (rebuildSortedInstanceCache m)"
  by (simp add: full_inv_def mgr_inv_def rebuild_cache(1) flip: rebuild_inv) (metis mgr_inv_def rebuild_inv)

lemma ScaleService_inv:
  assumes inv: "full_inv m"
  shows "full_inv (snd (ScaleServiceWithOptions now svc n t d m))"
proof -
  let ?act = "active_ids m (sort (service_ids m svc))"
  have up: "full_inv (snd (case add_replicas now svc (si_cpuCores inst) (si_memoryMB inst) k m of
      (Some err, m1) \<Rightarrow> (Some err, m1) | (None, m1) \<Rightarrow> (None, rebuildSortedInstanceCache m1)))"
    if "gm_get (mr_instances m) i = Some inst" for i inst k
  proof -
    obtain e m1 where r: "add_replicas now svc (si_cpuCores inst) (si_memoryMB inst) k m = (e, m1)"
      by (cases "add_replicas now svc (si_cpuCores inst) (si_memoryMB inst) k m")
    have "full_inv m1"
      using add_replicas_inv [OF inv instance_facts(3,4) [OF full_invD(3) [OF inv] that], of now svc k] r by simp
    then show ?thesis by (cases e) (simp_all add: r rebuild_full full_invD)
  qed
  have down: "full_inv (rebuildSortedInstanceCache (drain_all dl ids m))" for dl ids
    using drain_all_inv [OF full_invD(1) [OF inv]] drain_all_indices [OF full_invD(4) [OF inv]] by (rule rebuild_full)
  show ?thesis
    unfolding ScaleServiceWithOptions_def Let_def drain_all_def [symmetric]
    using inv up down by (auto split: list.split option.split)
qed

section \<open>Draining\<close>

lemma evict_stage_inv:
  assumes "mgr_inv m" "gm_get (mr_instances m) i = Some inst"
  shows "mgr_inv (update_host h (UpdateMemoryUtilization insts \<circ> UpdateCPUUtilizationFromInstancesAt now t insts)
    (m\<lparr>mr_instances := gm_put i (snd (EvictResourceState t' inst)) (mr_instances m)\<rparr>))"
proof -
  have "m\<lparr>mr_instances := gm_put i (snd (EvictResourceState t' inst)) (mr_instances m)\<rparr> =
      update_instance i (\<lambda>s. snd (EvictResourceState t' s)) m"
    using assms(2) by (simp add: update_instance_def)
  then show ?thesis using assms(1) by (simp add: update_host_inv update_instance_inv op_evict.keeps)
qed

definition evicted_queue :: "bool \<Rightarrow> 'r resource_manager \<Rightarrow> string \<Rightarrow> string list" where
  "evicted_queue evict m i = (case gm_get (mr_instances m) i of None \<Rightarrow> []
     | Some inst \<Rightarrow> if evict then filter (\<lambda>x. x \<noteq> []) (si_requestQueue inst) else [])"

text \<open>Removing an instance: the rest of the manager's instances is untouched, and an evicted instance reports its queue.\<close>

lemma removeInstance_facts:
  assumes inv: "mgr_inv m" and idx: "indices_ok m"
  shows "mgr_inv (snd (removeInstance now i t evict m)) \<and> indices_ok (snd (removeInstance now i t evict m)) \<and>
    (\<forall>k. gm_get (mr_instances (snd (removeInstance now i t evict m))) k = (if k = i then None else gm_get (mr_instances m) k)) \<and>
    fst (removeInstance now i t evict m) = evicted_queue evict m i"
proof (cases "gm_get (mr_instances m) i")
  case None
  then show ?thesis using assms by (auto simp: removeInstance_def evicted_queue_def)
next
  case (Some inst)
  show ?thesis
  proof (cases evict)
    case False
    then have "removeInstance now i t evict m = ([], delete_instance i (si_hostID inst) m)"
      by (simp add: removeInstance_def Some)
    then show ?thesis using delete_instance_inv [OF inv Some refl] idx Some False
      by (simp add: indices_ok_def delete_instance_frame evicted_queue_def)
  next
    case True
    let ?t = "if is_zero_time t then now else t"
    let ?e = "m\<lparr>mr_instances := gm_put i (snd (EvictResourceState ?t inst)) (mr_instances m)\<rparr>"
    let ?c = "collectInstancesForHost ?e (si_hostID inst)"
    define m1 where "m1 = update_host (si_hostID inst) (UpdateMemoryUtilization ?c \<circ> UpdateCPUUtilizationFromInstancesAt now ?t ?c) ?e"
    have r: "removeInstance now i t evict m =
        (filter (\<lambda>x. x \<noteq> []) (si_requestQueue inst), delete_instance i (si_hostID inst) m1)"
      using True by (simp add: removeInstance_def Some m1_def case_prod_unfold Let_def EvictResourceState_def)
    have "mgr_inv m1" unfolding m1_def by (rule evict_stage_inv [OF inv Some])
    moreover have i1: "gm_get (mr_instances m1) i = Some (snd (EvictResourceState ?t inst))" by (simp add: m1_def)
    moreover have "si_hostID (snd (EvictResourceState ?t inst)) = si_hostID inst" by (rule op_evict.keeps)
    ultimately have "mgr_inv (delete_instance i (si_hostID inst) m1)" by (rule delete_instance_inv)
    moreover have "indices_ok (delete_instance i (si_hostID inst) m1)"
      using idx by (simp add: indices_ok_def delete_instance_frame m1_def)
    ultimately show ?thesis unfolding r using True Some by (simp add: delete_instance_frame m1_def evicted_queue_def)
  qed
qed

lemma remove_all_facts:
  assumes "mgr_inv m" "indices_ok m" "distinct ids"
  shows "mgr_inv (snd (remove_all now t evict ids m)) \<and> indices_ok (snd (remove_all now t evict ids m)) \<and>
    (\<forall>k. gm_get (mr_instances (snd (remove_all now t evict ids m))) k = (if k \<in> set ids then None else gm_get (mr_instances m) k)) \<and>
    fst (remove_all now t evict ids m) = concat (map (evicted_queue evict m) ids)"
  using assms
proof (induction ids arbitrary: m)
  case (Cons i ids)
  let ?m = "snd (removeInstance now i t evict m)"
  note f = removeInstance_facts [OF Cons.prems(1,2), of now i t evict]
  have d: "i \<notin> set ids" "distinct ids" using Cons.prems(3) by auto
  note ih = Cons.IH [OF conjunct1 [OF f] conjunct1 [OF conjunct2 [OF f]] d(2)]
  have same: "gm_get (mr_instances ?m) k = gm_get (mr_instances m) k" if "k \<in> set ids" for k using f d(1) that by auto
  have eq: "map (evicted_queue evict ?m) ids = map (evicted_queue evict m) ids"
    using same by (simp add: evicted_queue_def)
  have step: "remove_all now t evict (i # ids) m =
      (evicted_queue evict m i @ fst (remove_all now t evict ids ?m), snd (remove_all now t evict ids ?m))"
    using f by (simp add: case_prod_unfold Let_def)
  show ?case unfolding step using ih f unfolding eq by simp
qed simp

lemma drain_ids_member:
  assumes "instances_ok m"
  shows "i \<in> set (drain_ids P m) \<longleftrightarrow>
    (\<exists>inst. gm_get (mr_instances m) i = Some inst \<and> si_lifecycle inst = InstanceDraining \<and> P inst)"
  unfolding instances_member [OF assms, symmetric] by (force simp: drain_ids_def)

lemma drain_ids_distinct: "instances_ok m \<Longrightarrow> distinct (drain_ids P m)"
  by (simp add: drain_ids_def instances_ok_def distinct_map_filter)

lemma NoteSimTime_inv: "full_inv m \<Longrightarrow> full_inv (NoteSimTime t m)"
proof -
  assume inv: "full_inv m"
  have "mgr_inv (NoteSimTime t m)"
    using full_invD(1) [OF inv] by (subst mgr_inv_cong [of _ m]) (simp_all add: NoteSimTime_def instances_on_def)
  moreover have "cache_inv (NoteSimTime t m)"
    by (rule cache_inv_mono [OF full_invD(2) [OF inv]]) (auto simp: NoteSimTime_def routable_def)
  ultimately show ?thesis by (simp add: full_inv_def)
qed

definition drained :: "gotime \<Rightarrow> service_instance \<Rightarrow> bool" where
  "drained t inst \<longleftrightarrow> si_lifecycle inst = InstanceDraining \<and> (is_idle inst \<or> timed_out t inst)"

lemma ProcessDraining_facts:
  assumes inv: "full_inv m"
  shows "full_inv (snd (ProcessDrainingInstances now t m)) \<and>
    (\<forall>k. gm_get (mr_instances (snd (ProcessDrainingInstances now t m))) k =
       (case gm_get (mr_instances m) k of None \<Rightarrow> None | Some inst \<Rightarrow> if drained t inst then None else Some inst)) \<and>
    fst (ProcessDrainingInstances now t m) = concat (map (\<lambda>(i, inst). filter (\<lambda>x. x \<noteq> []) (si_requestQueue inst))
      (filter (\<lambda>(i, inst). drained t inst \<and> \<not> is_idle inst) (mr_instances m)))"
proof -
  define m0 where "m0 = NoteSimTime t m"
  have inst0: "mr_instances m0 = mr_instances m" by (simp add: m0_def NoteSimTime_def)
  have inv0: "full_inv m0" unfolding m0_def by (rule NoteSimTime_inv [OF inv])
  let ?P = "\<lambda>inst. \<not> is_idle inst \<and> timed_out t inst"
  let ?ev = "drain_ids ?P m0" and ?rm = "drain_ids is_idle m0"
  note ok0 = full_invD(3) [OF inv0]
  note e = remove_all_facts [OF full_invD(1) [OF inv0] full_invD(4) [OF inv0] drain_ids_distinct [OF ok0], of now t True ?P]
  define m1 where "m1 = snd (remove_all now t True ?ev m0)"
  define m2 where "m2 = snd (remove_all now t False ?rm m1)"
  have r: "mgr_inv m2" "indices_ok m2"
    "gm_get (mr_instances m2) k = (if k \<in> set ?rm then None else gm_get (mr_instances m1) k)" for k
    using remove_all_facts [of m1 ?rm now t False] e drain_ids_distinct [OF ok0] by (auto simp: m2_def m1_def)
  have get: "gm_get (mr_instances m2) k =
      (case gm_get (mr_instances m) k of None \<Rightarrow> None | Some inst \<Rightarrow> if drained t inst then None else Some inst)" for k
    using e by (auto simp: r(3) m1_def inst0 drain_ids_member [OF ok0] drained_def split: option.split)
  have res: "ProcessDrainingInstances now t m =
      (fst (remove_all now t True ?ev m0), if length ?rm + length ?ev > 0 then rebuildSortedInstanceCache m2 else m2)"
    by (simp add: ProcessDrainingInstances_def m0_def m1_def m2_def case_prod_unfold Let_def)
  have "full_inv (if length ?rm + length ?ev > 0 then rebuildSortedInstanceCache m2 else m2)"
    using rebuild_full [OF r(1,2)] inv0 by (auto simp: m2_def m1_def)
  moreover have "fst (remove_all now t True ?ev m0) = concat (map (\<lambda>(i, inst). filter (\<lambda>x. x \<noteq> []) (si_requestQueue inst))
      (filter (\<lambda>(i, inst). drained t inst \<and> \<not> is_idle inst) (mr_instances m)))"
  proof -
    have "filter (\<lambda>(i, inst). si_lifecycle inst = InstanceDraining \<and> ?P inst) (mr_instances m) =
        filter (\<lambda>(i, inst). drained t inst \<and> \<not> is_idle inst) (mr_instances m)"
      by (rule filter_cong) (auto simp: drained_def)
    moreover have "\<forall>p \<in> set (mr_instances m). gm_get (mr_instances m) (fst p) = Some (snd p)"
      using instances_member [OF full_invD(3) [OF inv]] by auto
    ultimately show ?thesis using e
      by (auto simp: drain_ids_def inst0 comp_def evicted_queue_def intro!: arg_cong [where f = concat])
  qed
  ultimately show ?thesis unfolding res using get by simp
qed

end
