(* ===== verification/Resource_Capacity.thy ===== *)
theory Resource_Capacity
  imports Resource_Properties
begin

text \<open>
  Changes of the capacity: adding and removing hosts, growing and shrinking them, and resizing the instances of a
  service. Each keeps the invariant of the manager, so it is refused where the instances would not fit any more; adding
  hosts ends with the number that was asked for.
\<close>

section \<open>Changes of the hosts\<close>

definition host_sound :: "'r resource_manager \<Rightarrow> string \<Rightarrow> sim_host \<Rightarrow> bool" where
  "host_sound m i h \<longleftrightarrow> 0 < sh_cpuCores h \<and> 0 < sh_memoryGB h \<and> sh_serviceInstances h = instances_on m i \<and>
     host_within h (collectInstancesForHost m i)"

lemma host_soundD: "mgr_inv m \<Longrightarrow> gm_get (mr_hosts m) i = Some h \<Longrightarrow> host_sound m i h"
  by (simp add: mgr_inv_def hosts_ok_def host_sound_def)

lemma hosts_change:
  assumes inv: "full_inv m" and same: "mr_instances m' = mr_instances m" "\<And>h. instances_on m' h = instances_on m h"
      "mr_nextInstanceID m' = mr_nextInstanceID m" "mr_sortedServiceInstMap m' = mr_sortedServiceInstMap m"
      "mr_roundRobinIdx m' = mr_roundRobinIdx m" "mr_weightedRoundRobinIdx m' = mr_weightedRoundRobinIdx m"
    and ok: "gm_ok (mr_hosts m')" "\<And>i h. gm_get (mr_hosts m') i = Some h \<Longrightarrow> host_sound m i h"
    and used: "\<And>i. instances_on m i \<noteq> [] \<Longrightarrow> gm_get (mr_hosts m') i \<noteq> None"
  shows "full_inv m'"
proof -
  note inv0 = full_invD(1) [OF inv]
  have e: "collectInstancesForHost m' h = collectInstancesForHost m h" "host_of m' i = host_of m i" for h i
    by (simp_all add: collectInstancesForHost_def host_of_def same)
  have "instances_ok m'" using mgr_invD(1) [OF inv0] by (subst instances_ok_cong [of _ m]) (simp_all add: same)
  moreover have "lists_ok m'" using mgr_invD(2) [OF inv0] used by (simp add: lists_ok_def same e)
  moreover have "hosts_ok m'" using ok by (simp add: hosts_ok_def host_sound_def same e)
  ultimately have "mgr_inv m'" by (rule mgr_invI)
  moreover have "cache_inv m'"
    by (rule cache_inv_mono [OF full_invD(2) [OF inv]]) (simp_all add: same routable_def)
  ultimately show ?thesis by (simp add: full_inv_def)
qed

lemma host_within_mono:
  "host_within h insts \<Longrightarrow> sh_cpuCores h \<le> sh_cpuCores h' \<Longrightarrow> sh_memoryGB h \<le> sh_memoryGB h' \<Longrightarrow> host_within h' insts"
proof -
  assume w: "host_within h insts" and c: "sh_cpuCores h \<le> sh_cpuCores h'" and g: "sh_memoryGB h \<le> sh_memoryGB h'"
  have "cpu_limit (sh_cpuCores h) \<le> cpu_limit (sh_cpuCores h')"
    unfolding cpu_limit_def by (rule fadd_mono [OF of_int64_mono [OF c]]) simp
  moreover have "memory_limit (hostMemoryCapacityMB h) \<le> memory_limit (hostMemoryCapacityMB h')"
    unfolding memory_limit_def hostMemoryCapacityMB_def
    by (intro fadd_mono fmul_mono of_int64_mono of_int64_nonneg) (use g in auto)
  ultimately show ?thesis using w unfolding host_within_def by (meson order_trans)
qed

lemma gm_get_map: "gm_get (map (\<lambda>(k, v). (k, f v)) m) k = map_option f (gm_get m k)"
  by (simp add: map_of_map)

lemma map_hosts_full:
  assumes inv: "full_inv m" and f: "\<And>i h. gm_get (mr_hosts m) i = Some h \<Longrightarrow> host_sound m i (f h)"
  shows "full_inv (m\<lparr>mr_hosts := map (\<lambda>(i, h). (i, f h)) (mr_hosts m)\<rparr>)"
proof (rule hosts_change [OF inv])
  show "gm_ok (mr_hosts (m\<lparr>mr_hosts := map (\<lambda>(i, h). (i, f h)) (mr_hosts m)\<rparr>))"
    using full_invD(1) [OF inv] by (simp add: mgr_inv_def hosts_ok_def comp_def case_prod_unfold)
  fix i assume "instances_on m i \<noteq> []"
  then show "gm_get (mr_hosts (m\<lparr>mr_hosts := map (\<lambda>(i, h). (i, f h)) (mr_hosts m)\<rparr>)) i \<noteq> None"
    using full_invD(1) [OF inv] by (simp add: gm_get_map mgr_inv_def lists_ok_def)
qed (auto simp: instances_on_def gm_get_map intro: f)

definition grow :: "int \<Rightarrow> int \<Rightarrow> sim_host \<Rightarrow> sim_host" where
  "grow cpuDelta memoryGBDelta h =
     (let h1 = (if cpuDelta > 0 then sh_SetCPUCores (sh_cpuCores h + cpuDelta) h else h)
      in if memoryGBDelta > 0 then sh_SetMemoryGB (sh_memoryGB h1 + memoryGBDelta) h1 else h1)"

lemma IncreaseHostCapacity_inv:
  assumes inv: "full_inv m"
  shows "full_inv (IncreaseHostCapacity c g m)"
proof -
  have e: "(\<lambda>(i, h). let h1 = (if c > 0 then sh_SetCPUCores (sh_cpuCores h + c) h else h)
      in (i, if g > 0 then sh_SetMemoryGB (sh_memoryGB h1 + g) h1 else h1)) = (\<lambda>(i, h). (i, grow c g h))"
    by (auto simp: grow_def fun_eq_iff Let_def)
  have "host_sound m i (grow c g h)" if "gm_get (mr_hosts m) i = Some h" for i h
  proof -
    have h: "host_sound m i h" by (rule host_soundD [OF full_invD(1) [OF inv] that])
    then have "sh_cpuCores h \<le> sh_cpuCores (grow c g h)" "sh_memoryGB h \<le> sh_memoryGB (grow c g h)"
      "sh_serviceInstances (grow c g h) = sh_serviceInstances h"
      by (auto simp: host_sound_def grow_def sh_SetCPUCores_def sh_SetMemoryGB_def)
    then show ?thesis using h host_within_mono unfolding host_sound_def by (metis less_le_trans)
  qed
  then show ?thesis using inv map_hosts_full [OF inv, of "grow c g"] by (simp add: IncreaseHostCapacity_def e)
qed

definition shrink :: "int \<Rightarrow> int \<Rightarrow> sim_host \<Rightarrow> sim_host" where
  "shrink cpuDelta memoryGBDelta h =
     (let h1 = (if cpuDelta < 0 then sh_SetCPUCores (max 1 (sh_cpuCores h + cpuDelta)) h else h)
      in if memoryGBDelta < 0 then sh_SetMemoryGB (max 1 (sh_memoryGB h1 + memoryGBDelta)) h1 else h1)"

lemma shrink_ok:
  assumes h: "host_sound m i h" and ok: "capacity_checks c g m h i = Inr ()" 
  shows "host_sound m i (shrink c g h)"
proof -
  let ?w = "collectInstancesForHost m i"
  have "sum_cores ?w \<le> cpu_limit (max 1 (sh_cpuCores h + c))"
    "sum_memory ?w \<le> memory_limit (fmul (of_int64 (max 1 (sh_memoryGB h + g))) 1024)"
    using ok unfolding capacity_checks_def Let_def err_checks_ok by auto
  moreover have "sum_cores ?w \<le> cpu_limit (sh_cpuCores h)" "sum_memory ?w \<le> memory_limit (hostMemoryCapacityMB h)"
    using h by (auto simp: host_sound_def host_within_def)
  moreover have "sh_cpuCores (shrink c g h) = (if c < 0 then max 1 (sh_cpuCores h + c) else sh_cpuCores h)"
    "sh_memoryGB (shrink c g h) = (if g < 0 then max 1 (sh_memoryGB h + g) else sh_memoryGB h)"
    "sh_serviceInstances (shrink c g h) = sh_serviceInstances h"
    by (simp_all add: shrink_def sh_SetCPUCores_def sh_SetMemoryGB_def Let_def)
  ultimately show ?thesis using h by (auto simp: host_sound_def host_within_def hostMemoryCapacityMB_def less_max_iff_disj)
qed

lemma DecreaseHostCapacity_inv:
  assumes inv: "full_inv m"
  shows "full_inv (snd (DecreaseHostCapacity c g m))"
proof -
  have e: "(\<lambda>(i, h). let h1 = (if c < 0 then sh_SetCPUCores (max 1 (sh_cpuCores h + c)) h else h)
      in (i, if g < 0 then sh_SetMemoryGB (max 1 (sh_memoryGB h1 + g)) h1 else h1)) = (\<lambda>(i, h). (i, shrink c g h))"
    by (auto simp: shrink_def fun_eq_iff Let_def)
  show ?thesis
  proof (cases "err_iter (\<lambda>(i, h). capacity_checks c g m h i) (mr_hosts m)")
    case (Inr u)
    have "host_sound m i (shrink c g h)" if "gm_get (mr_hosts m) i = Some h" for i h
    proof (rule shrink_ok [OF host_soundD [OF full_invD(1) [OF inv] that]])
      show "capacity_checks c g m h i = Inr ()" using map_of_SomeD [OF that] Inr by (auto simp: err_iter_ok)
    qed
    then show ?thesis using inv map_hosts_full [OF inv, of "shrink c g"] Inr by (simp add: DecreaseHostCapacity_def e)
  qed (simp add: DecreaseHostCapacity_def inv)
qed

section \<open>Adding hosts\<close>

lemma auto_host_id_inj: "auto_host_id a = auto_host_id b \<longleftrightarrow> a = b"
  by (simp add: auto_host_id_def itoa_inj)

definition taken :: "int \<Rightarrow> 'r resource_manager \<Rightarrow> int set" where
  "taken nextIndex m = {n. nextIndex \<le> n \<and> gm_get (mr_hosts m) (auto_host_id n) \<noteq> None}"

lemma taken_finite: "finite (taken n m)"
proof (rule finite_imageD)
  show "finite (auto_host_id ` taken n m)"
    by (rule finite_subset [of _ "fst ` set (mr_hosts m)"]) (auto simp: taken_def dest: map_of_SomeD intro: rev_image_eqI)
qed (simp add: inj_on_def auto_host_id_inj)

lemma taken_card: "card (taken n m) \<le> length (mr_hosts m)"
proof -
  have "card (taken n m) = card (auto_host_id ` taken n m)"
    by (rule card_image [symmetric]) (simp add: inj_on_def auto_host_id_inj)
  also have "\<dots> \<le> card (fst ` set (mr_hosts m))"
    by (rule card_mono) (auto simp: taken_def dest: map_of_SomeD intro: rev_image_eqI)
  also have "\<dots> \<le> length (mr_hosts m)" using card_image_le [of "set (mr_hosts m)" fst] card_length [of "mr_hosts m"] by simp
  finally show ?thesis .
qed

text \<open>A host that is added: an empty one with the capacity of the template under an unused identifier.\<close>

lemma add_host_full:
  assumes inv: "full_inv m" and new: "gm_get (mr_hosts m) i = None" and cap: "0 < c" "0 < g"
  shows "full_inv (m\<lparr>mr_hosts := gm_put i (NewHost i c g) (mr_hosts m)\<rparr>)"
proof (rule hosts_change [OF inv])
  let ?m = "m\<lparr>mr_hosts := gm_put i (NewHost i c g) (mr_hosts m)\<rparr>"
  have none: "instances_on m i = []" using full_invD(1) [OF inv] new by (auto simp: mgr_inv_def lists_ok_def)
  have "0 \<le> cpu_limit c" "0 \<le> memory_limit (hostMemoryCapacityMB (NewHost i c g))"
    using cap by (simp_all add: cpu_limit_def memory_limit_def hostMemoryCapacityMB_def NewHost_def fadd_nonneg fmul_nonneg
        of_int64_nonneg fl_nonneg)
  then have "host_sound m i (NewHost i c g)"
    using cap none by (simp add: host_sound_def host_within_def NewHost_def collectInstancesForHost_def
        List.map_filter_def sum_cores_def sum_memory_def hostMemoryCapacityMB_def)
  then show "\<And>k h. gm_get (mr_hosts ?m) k = Some h \<Longrightarrow> host_sound m k h"
    using host_soundD [OF full_invD(1) [OF inv]] by (auto split: if_splits)
  show "gm_ok (mr_hosts ?m)" using full_invD(1) [OF inv] by (simp add: mgr_inv_def hosts_ok_def)
  show "\<And>k. instances_on m k \<noteq> [] \<Longrightarrow> gm_get (mr_hosts ?m) k \<noteq> None"
    using full_invD(1) [OF inv] by (auto simp: mgr_inv_def lists_ok_def)
qed (simp_all add: instances_on_def)

lemma taken_step:
  "gm_get (mr_hosts m) (auto_host_id n) \<noteq> None \<Longrightarrow> card (taken (n + 1) m) < card (taken n m)"
  "gm_get (mr_hosts m) (auto_host_id n) = None \<Longrightarrow>
   card (taken (n + 1) (m\<lparr>mr_hosts := gm_put (auto_host_id n) h (mr_hosts m)\<rparr>)) = card (taken n m)"
proof -
  assume used: "gm_get (mr_hosts m) (auto_host_id n) \<noteq> None"
  have "taken (n + 1) m \<subset> taken n m"
  proof
    show "taken (n + 1) m \<subseteq> taken n m" by (auto simp: taken_def)
    have "n \<in> taken n m" "n \<notin> taken (n + 1) m" using used by (simp_all add: taken_def)
    then show "taken (n + 1) m \<noteq> taken n m" by blast
  qed
  then show "card (taken (n + 1) m) < card (taken n m)" by (rule psubset_card_mono [OF taken_finite])
next
  assume free: "gm_get (mr_hosts m) (auto_host_id n) = None"
  have "k \<in> taken (n + 1) (m\<lparr>mr_hosts := gm_put (auto_host_id n) h (mr_hosts m)\<rparr>) \<longleftrightarrow> k \<in> taken n m" for k
    using free by (cases "k = n") (auto simp: taken_def auto_host_id_inj)
  then show "card (taken (n + 1) (m\<lparr>mr_hosts := gm_put (auto_host_id n) h (mr_hosts m)\<rparr>)) = card (taken n m)"
    by (metis subsetI subset_antisym)
qed

text \<open>Every turn of the loop adds a host or passes over a number in use, so the loop ends.\<close>

lemma add_hosts_ends:
  assumes "full_inv m" "nat (target - int (length (mr_hosts m))) + card (taken next m) \<le> fuel"
    "0 < sh_cpuCores template" "0 < sh_memoryGB template"
  shows "\<exists>m' new. add_hosts fuel target next template m = Some m' \<and> full_inv m' \<and> mr_hosts m' = mr_hosts m @ new \<and>
    mr_instances m' = mr_instances m \<and> length new = nat (target - int (length (mr_hosts m))) \<and>
    (\<forall>(i, h) \<in> set new. h = NewHost i (sh_cpuCores template) (sh_memoryGB template))"
  using assms
proof (induction fuel arbitrary: "next" m)
  case 0
  then show ?case by (intro exI [of _ m] exI [of _ "[]"]) (auto simp: add_hosts.simps [of 0])
next
  case (Suc k)
  let ?i = "auto_host_id next" and ?h = "NewHost (auto_host_id next) (sh_cpuCores template) (sh_memoryGB template)"
  show ?case
  proof (cases "int (length (mr_hosts m)) < target")
    case False
    then show ?thesis using Suc.prems(1)
      by (intro exI [of _ m] exI [of _ "[]"]) (auto simp: add_hosts.simps [of "Suc k"])
  next
    case True
    show ?thesis
    proof (cases "gm_get (mr_hosts m) ?i")
      case (Some h)
      then have r: "add_hosts (Suc k) target next template m = add_hosts k target (next + 1) template m"
        using True by (simp add: add_hosts.simps [of "Suc k"])
      show ?thesis unfolding r using Suc.prems taken_step(1) [of m "next"] Some
        by (intro Suc.IH) simp_all
    next
      case None
      let ?m = "m\<lparr>mr_hosts := gm_put ?i ?h (mr_hosts m)\<rparr>"
      have hosts: "mr_hosts ?m = mr_hosts m @ [(?i, ?h)]" using None by (simp add: gm_put_fresh)
      have r: "add_hosts (Suc k) target next template m = add_hosts k target (next + 1) template ?m"
        using True None by (simp add: add_hosts.simps [of "Suc k"] Let_def)
      have "nat (target - int (length (mr_hosts ?m))) + card (taken (next + 1) ?m) \<le> k"
        using Suc.prems(2) True taken_step(2) [OF None, of ?h] unfolding hosts by simp
      from Suc.IH [OF add_host_full [OF Suc.prems(1) None Suc.prems(3,4)] this Suc.prems(3,4)]
      obtain m' new where "add_hosts k target (next + 1) template ?m = Some m'" "full_inv m'"
        "mr_hosts m' = mr_hosts ?m @ new" "mr_instances m' = mr_instances ?m"
        "length new = nat (target - int (length (mr_hosts ?m)))"
        "\<forall>(i, h) \<in> set new. h = NewHost i (sh_cpuCores template) (sh_memoryGB template)"
        by (elim conjE exE) (rule that)
      then show ?thesis unfolding r hosts using True by (intro exI [of _ m'] exI [of _ "(?i, ?h) # new"]) auto
    qed
  qed
qed

lemma ScaleOutHosts_facts:
  assumes inv: "full_inv m" and some: "mr_hosts m \<noteq> []" and fuel: "nat target \<le> fuel"
  shows "\<exists>m' new. ScaleOutHosts fuel target m = Some (None, m') \<and> full_inv m' \<and> mr_hosts m' = mr_hosts m @ new \<and>
    mr_instances m' = mr_instances m \<and> length new = nat (target - int (length (mr_hosts m))) \<and>
    (\<forall>(i, h) \<in> set new. h = NewHost i (sh_cpuCores (snd (hd (mr_hosts m)))) (sh_memoryGB (snd (hd (mr_hosts m)))))"
proof (cases "target \<le> int (length (mr_hosts m))")
  case True
  then show ?thesis using inv by (intro exI [of _ m] exI [of _ "[]"]) (simp add: ScaleOutHosts_def)
next
  case False
  obtain i t rest where hs: "mr_hosts m = (i, t) # rest" using some by (metis list.exhaust surj_pair)
  have "host_sound m i t" by (rule host_soundD [OF full_invD(1) [OF inv]]) (simp add: hs)
  then have "0 < sh_cpuCores t" "0 < sh_memoryGB t" by (simp_all add: host_sound_def)
  moreover have "nat (target - int (length (mr_hosts m))) + card (taken (int (length (mr_hosts m)) + 1) m) \<le> fuel"
    using taken_card [of "int (length (mr_hosts m)) + 1" m] fuel False by linarith
  ultimately have "\<exists>m' new. add_hosts fuel target (int (length (mr_hosts m)) + 1) t m = Some m' \<and> full_inv m' \<and>
      mr_hosts m' = mr_hosts m @ new \<and> mr_instances m' = mr_instances m \<and>
      length new = nat (target - int (length (mr_hosts m))) \<and>
      (\<forall>(i, h) \<in> set new. h = NewHost i (sh_cpuCores t) (sh_memoryGB t))"
    using add_hosts_ends [OF inv, of target "int (length (mr_hosts m)) + 1" fuel t] by blast
  moreover have "ScaleOutHosts fuel target m =
      map_option (\<lambda>m1. (None, m1)) (add_hosts fuel target (int (length (mr_hosts m)) + 1) t m)"
    using False by (simp add: ScaleOutHosts_def hs)
  moreover have "snd (hd (mr_hosts m)) = t" by (simp add: hs)
  ultimately show ?thesis by auto
qed

section \<open>Removing hosts\<close>

definition drop_host :: "string \<Rightarrow> 'r resource_manager \<Rightarrow> 'r resource_manager" where
  "drop_host i m = m\<lparr>mr_hosts := gm_del i (mr_hosts m), mr_hostToInstances := gm_del i (mr_hostToInstances m)\<rparr>"

lemma drop_host_full:
  assumes inv: "full_inv m" and empty: "instances_on m i = []"
  shows "full_inv (drop_host i m)" "instances_on (drop_host i m) h = instances_on m h"
proof -
  show on: "instances_on (drop_host i m) h = instances_on m h" for h
    using empty by (auto simp: instances_on_def drop_host_def gm_get_or_def)
  have "gm_ok (mr_hosts m)" using full_invD(1) [OF inv] by (simp add: mgr_inv_def hosts_ok_def)
  moreover have "gm_get (mr_hosts m) k \<noteq> None" if "instances_on m k \<noteq> []" for k
    using full_invD(1) [OF inv] that by (simp add: mgr_inv_def lists_ok_def)
  ultimately show "full_inv (drop_host i m)"
    using host_soundD [OF full_invD(1) [OF inv]] empty
    by (intro hosts_change [OF inv]) (auto simp: on, auto simp: drop_host_def split: if_splits)
qed

lemma drop_hosts_full:
  assumes "full_inv m" "\<forall>i \<in> set ids. instances_on m i = []" "distinct ids" "set ids \<subseteq> fst ` set (mr_hosts m)"
  shows "full_inv (fold drop_host ids m) \<and> mr_instances (fold drop_host ids m) = mr_instances m \<and>
    length (mr_hosts (fold drop_host ids m)) + length ids = length (mr_hosts m) \<and>
    (\<forall>i. gm_get (mr_hosts (fold drop_host ids m)) i = (if i \<in> set ids then None else gm_get (mr_hosts m) i))"
  using assms
proof (induction ids arbitrary: m)
  case (Cons i ids)
  let ?m = "drop_host i m"
  have f: "full_inv ?m" "\<And>h. instances_on ?m h = instances_on m h"
    using drop_host_full [OF Cons.prems(1), of i] Cons.prems(2) by simp_all
  have k: "mr_hosts ?m = gm_del i (mr_hosts m)" "mr_instances ?m = mr_instances m" by (simp_all add: drop_host_def)
  have "Suc (length (mr_hosts ?m)) = length (mr_hosts m)"
    using length_gm_del [of "mr_hosts m" i] Cons.prems full_invD(1) [OF Cons.prems(1)]
    by (simp add: k mgr_inv_def hosts_ok_def)
  moreover have "set ids \<subseteq> fst ` set (mr_hosts ?m)" using Cons.prems(3,4) by (auto simp: k)
  ultimately show ?case using Cons.IH [OF f(1)] f(2) Cons.prems(2,3) by (auto simp: k)
qed simp

definition candidates :: "'r resource_manager \<Rightarrow> string list" where
  "candidates m =
     (let empty = filter (\<lambda>i. instances_on m i = []) (gm_keys (mr_hosts m))
      in sort_key (\<lambda>i. - auto_number i) (filter (\<lambda>i. has_prefix i ''host-auto-'') empty) @
         filter (\<lambda>i. \<not> has_prefix i ''host-auto-'') empty)"

lemma candidates_facts:
  "set (candidates m) = {i \<in> fst ` set (mr_hosts m). instances_on m i = []}"
  "gm_ok (mr_hosts m) \<Longrightarrow> distinct (candidates m)"
  by (auto simp: candidates_def)

lemma ScaleInHosts_eq:
  "ScaleInHosts target m =
     (let cur = int (length (mr_hosts m)); n = cur - max 1 target
      in if target \<ge> cur \<or> cur \<le> 1 then (None, m)
         else if int (length (candidates m)) < n
         then (Some (Err ''cannot scale in to %d hosts: only %d empty host(s) available''), m)
         else (None, fold drop_host (take (nat n) (candidates m)) m))"
proof -
  have e: "(\<lambda>i m. m\<lparr>mr_hosts := gm_del i (mr_hosts m), mr_hostToInstances := gm_del i (mr_hostToInstances m)\<rparr>) = drop_host"
    "(if target < 1 then 1 else target) = max 1 target"
    by (simp_all add: drop_host_def fun_eq_iff)
  show ?thesis unfolding ScaleInHosts_def candidates_def [unfolded Let_def, symmetric] Let_def e by auto
qed

lemma ScaleInHosts_facts:
  assumes inv: "full_inv m"
  shows "full_inv (snd (ScaleInHosts target m)) \<and> mr_instances (snd (ScaleInHosts target m)) = mr_instances m \<and>
    (fst (ScaleInHosts target m) = None \<longrightarrow>
      int (length (mr_hosts (snd (ScaleInHosts target m)))) = min (int (length (mr_hosts m))) (max 1 target) \<or> mr_hosts m = [])"
proof -
  let ?cur = "int (length (mr_hosts m))" and ?t = "max 1 target"
  let ?del = "take (nat (?cur - ?t)) (candidates m)"
  have "gm_ok (mr_hosts m)" using full_invD(1) [OF inv] by (simp add: mgr_inv_def hosts_ok_def)
  then have "distinct ?del" using candidates_facts(2) distinct_take by blast
  moreover have "set ?del \<subseteq> {i \<in> fst ` set (mr_hosts m). instances_on m i = []}"
    using set_take_subset [of _ "candidates m"] candidates_facts(1) by metis
  ultimately have d: "full_inv (fold drop_host ?del m) \<and> mr_instances (fold drop_host ?del m) = mr_instances m \<and>
      length (mr_hosts (fold drop_host ?del m)) + length ?del = length (mr_hosts m)"
    using drop_hosts_full [OF inv, of ?del] by blast
  then show ?thesis using inv by (cases "mr_hosts m = []") (auto simp: ScaleInHosts_eq Let_def)
qed

section \<open>Resizing the instances of a service\<close>

lemma resize_fields [simp]:
  "si_id (resize c mb s) = si_id s" "si_serviceName (resize c mb s) = si_serviceName s" "si_hostID (resize c mb s) = si_hostID s"
  "si_lifecycle (resize c mb s) = si_lifecycle s"
  "si_cpuCores (resize c mb s) = (if c > 0 then c else si_cpuCores s)"
  "si_memoryMB (resize c mb s) = (if mb > 0 then mb else si_memoryMB s)"
  by (simp_all add: resize_def si_SetCPUCores_def si_SetMemoryMB_def Let_def)

lemma sums_cong:
  assumes "map si_cpuCores xs = map si_cpuCores ys" "map si_memoryMB xs = map si_memoryMB ys"
  shows "sum_cores xs = sum_cores ys" "sum_memory xs = sum_memory ys" "host_within h xs = host_within h ys"
  using assms by (simp_all add: sum_cores_foldl sum_memory_foldl host_within_def)

lemma map_instances_full:
  assumes inv: "full_inv m"
    and keep: "\<And>s. si_id (f s) = si_id s" "\<And>s. si_serviceName (f s) = si_serviceName s" "\<And>s. si_hostID (f s) = si_hostID s"
      "\<And>s. si_lifecycle (f s) = si_lifecycle s"
    and nn: "\<And>s. 0 \<le> si_cpuCores s \<Longrightarrow> 0 \<le> si_cpuCores (f s)" "\<And>s. 0 \<le> si_memoryMB s \<Longrightarrow> 0 \<le> si_memoryMB (f s)"
    and ok: "\<And>i h. gm_get (mr_hosts m) i = Some h \<Longrightarrow> host_within h (map f (collectInstancesForHost m i))"
  shows "full_inv (m\<lparr>mr_instances := map (\<lambda>(i, s). (i, f s)) (mr_instances m)\<rparr>)"
proof -
  let ?m = "m\<lparr>mr_instances := map (\<lambda>(i, s). (i, f s)) (mr_instances m)\<rparr>"
  note I = full_invD(3) [OF inv]
  have on: "instances_on ?m h = instances_on m h" for h by (simp add: instances_on_def)
  have get: "gm_get (mr_instances ?m) i = map_option f (gm_get (mr_instances m) i)" for i by (simp add: gm_get_map)
  have col: "collectInstancesForHost ?m h = map f (collectInstancesForHost m h)" for h
    unfolding collectInstancesForHost_def on by (induction "instances_on m h") (auto simp: List.map_filter_def gm_get_map)
  have "instances_ok ?m" unfolding instances_ok_def
  proof (intro conjI allI impI)
    fix i inst assume "gm_get (mr_instances ?m) i = Some inst"
    then obtain s where s: "gm_get (mr_instances m) i = Some s" "inst = f s" unfolding get by blast
    then have "si_id s = i \<and> i \<in> set (instances_on m (si_hostID s)) \<and> 0 \<le> si_cpuCores s \<and> 0 \<le> si_memoryMB s \<and>
        (\<exists>n. 0 \<le> n \<and> n < mr_nextInstanceID m \<and> i = instance_id (si_serviceName s) n)"
      using I unfolding instances_ok_def by blast
    then show "si_id inst = i" "i \<in> set (instances_on ?m (si_hostID inst))" "0 \<le> si_cpuCores inst" "0 \<le> si_memoryMB inst"
      "\<exists>n. 0 \<le> n \<and> n < mr_nextInstanceID ?m \<and> i = instance_id (si_serviceName inst) n"
      by (simp_all add: s(2) keep nn on)
  qed (use I in \<open>simp_all add: instances_ok_def comp_def case_prod_unfold\<close>)
  moreover have "host_of ?m i = host_of m i" for i unfolding host_of_def get by (simp add: option.map_comp comp_def keep)
  then have "lists_ok ?m" using mgr_invD(2) [OF full_invD(1) [OF inv]] by (simp add: lists_ok_def on)
  moreover have "hosts_ok ?m" using mgr_invD(3) [OF full_invD(1) [OF inv]] ok by (simp add: hosts_ok_def on col)
  ultimately have "mgr_inv ?m" by (rule mgr_invI)
  moreover have "routable m sn i \<Longrightarrow> routable ?m sn i" for sn i
    unfolding routable_def get by (auto simp: keep IsRoutable_def)
  then have "cache_inv ?m" by (intro cache_inv_mono [OF full_invD(2) [OF inv]]) simp_all
  ultimately show ?thesis by (simp add: full_inv_def)
qed

lemma UpdateServiceResources_inv:
  assumes inv: "full_inv m"
  shows "full_inv (snd (UpdateServiceResourcesWithHeadroom svc c mb hr m))"
proof -
  let ?f = "\<lambda>inst. if si_serviceName inst = svc then resize c mb inst else inst"
  have e: "(\<lambda>(i, inst). (i, if si_serviceName inst = svc then resize c mb inst else inst)) = (\<lambda>(i, inst). (i, ?f inst))" by simp
  have resized: "full_inv (m\<lparr>mr_instances := map (\<lambda>(i, inst). (i, ?f inst)) (mr_instances m)\<rparr>)"
    if checked: "err_iter (\<lambda>(i, h). resource_checks svc c mb m h i) (mr_hosts m) = Inr u" for u
  proof (rule map_instances_full [OF inv])
    fix i h assume h: "gm_get (mr_hosts m) i = Some h"
    let ?w = "collectInstancesForHost m i"
    have ok: "host_sound m i h" by (rule host_soundD [OF full_invD(1) [OF inv] h])
    have same: "map si_cpuCores (map ?f ?w) = map si_cpuCores (map (proposed svc c mb) ?w)"
      "map si_memoryMB (map ?f ?w) = map si_memoryMB (map (proposed svc c mb) ?w)"
      by (simp_all add: proposed_def)
    have "resource_checks svc c mb m h i = Inr ()" using map_of_SomeD [OF h] checked by (auto simp: err_iter_ok)
    then have "host_within h (map (proposed svc c mb) ?w)"
      using ok unfolding resource_checks_def Let_def host_sound_def
      by (cases "?w = []") (auto simp: host_within_def hostMemoryCapacityMB_def err_checks_ok simp del: err_checks.simps)
    then show "host_within h (map ?f ?w)" unfolding sums_cong(3) [OF same] .
  qed auto
  let ?r = "err_bind (err_iter (downsize_checks c mb (if hr \<le> 0 then DefaultMemoryDownsizeHeadroomMB else hr))
      (getInstancesForService m svc)) (\<lambda>_. err_iter (\<lambda>(i, h). resource_checks svc c mb m h i) (mr_hosts m))"
  have "full_inv (snd (case ?r of Inl err \<Rightarrow> (Some err, m)
      | Inr _ \<Rightarrow> (None, m\<lparr>mr_instances := map (\<lambda>(i, inst). (i, ?f inst)) (mr_instances m)\<rparr>)))"
  proof (cases ?r)
    case (Inr u)
    then have "err_iter (\<lambda>(i, h). resource_checks svc c mb m h i) (mr_hosts m) = Inr u" by (auto simp: err_bind_Inr_iff)
    from resized [OF this] show ?thesis by (simp add: Inr)
  qed (simp add: inv)
  then show ?thesis unfolding UpdateServiceResourcesWithHeadroom_def Let_def using inv by simp
qed

end
