(* ===== verification/Resource_Routing.thy ===== *)
theory Resource_Routing
  imports Resource_Capacity
begin

text \<open>
  Requests: the accounting of a request on its instance and host keeps the invariant of the manager, and routing picks an
  existing active instance of the service, by every strategy. Round robin visits the instances in turn; the weighted
  wheel gives every instance the share its weight asks for.
\<close>

section \<open>Accounting of a request\<close>

lemma update_host_full:
  assumes inv: "full_inv m" and keep: "\<And>h. sh_cpuCores (g h) = sh_cpuCores h" "\<And>h. sh_memoryGB (g h) = sh_memoryGB h"
      "\<And>h. sh_serviceInstances (g h) = sh_serviceInstances h"
  shows "full_inv (update_host i g m)"
proof -
  have "cache_inv (update_host i g m)"
    by (rule cache_inv_mono [OF full_invD(2) [OF inv]]) (auto simp: update_host_def routable_def split: option.split)
  then show ?thesis using update_host_inv [OF full_invD(1) [OF inv] keep] by (simp add: full_inv_def)
qed

context accounting_op
begin

lemma update_full: "full_inv m \<Longrightarrow> full_inv (update_instance i f m)"
proof -
  assume inv: "full_inv m"
  have "mgr_inv (update_instance i f m)" by (rule update_instance_inv [OF full_invD(1) [OF inv]]) (rule keeps)+
  moreover have "cache_inv (update_instance i f m)"
    by (rule cache_inv_mono [OF full_invD(2) [OF inv]])
      (auto simp: routable_def update_instance_get IsRoutable_def keeps)
  ultimately show ?thesis by (simp add: full_inv_def)
qed

lemma on_host_full:
  assumes "full_inv m" "\<And>insts h. sh_cpuCores (g insts h) = sh_cpuCores h" "\<And>insts h. sh_memoryGB (g insts h) = sh_memoryGB h"
    "\<And>insts h. sh_serviceInstances (g insts h) = sh_serviceInstances h"
  shows "full_inv (snd (on_host i f g m))"
proof -
  have "full_inv (update_host h (g insts) (update_instance i f m))" for h insts
    using update_full [OF assms(1)] by (rule update_host_full) (rule assms)+
  then show ?thesis using assms(1) by (simp add: on_host_def Let_def split: option.split)
qed

end

lemma with_instance_update:
  "snd (with_instance i f m) = update_instance i (\<lambda>s. snd (f s)) m"
  by (simp add: with_instance_def update_instance_def case_prod_unfold Let_def split: option.split)

lemma requests_full:
  assumes "full_inv m"
  shows "full_inv (snd (mr_ReserveCPUWork i t d m))" "full_inv (snd (mr_ReserveDBWork i t d n m))"
    "full_inv (mr_ReleaseDBConnection i m)" "full_inv (mr_RollbackCPUTailReservation i t t' m)"
    "full_inv (snd (mr_AllocateCPU now i d t m))" "full_inv (mr_ReleaseCPU now i d t m)"
    "full_inv (snd (mr_AllocateMemory i d m))" "full_inv (mr_ReleaseMemory i d m)"
    "full_inv (snd (mr_EnqueueRequest i r m))" "full_inv (snd (mr_DequeueRequest i m))"
proof -
  show "full_inv (snd (mr_ReserveCPUWork i t d m))"
    unfolding mr_ReserveCPUWork_def with_instance_update by (rule op_reserve_cpu.update_full [OF assms])
  show "full_inv (snd (mr_ReserveDBWork i t d n m))"
    unfolding mr_ReserveDBWork_def with_instance_update by (rule op_reserve_db.update_full [OF assms])
  show "full_inv (mr_ReleaseDBConnection i m)"
    unfolding mr_ReleaseDBConnection_def by (rule op_release_db.update_full [OF assms])
  show "full_inv (mr_RollbackCPUTailReservation i t t' m)"
    unfolding mr_RollbackCPUTailReservation_def by (rule op_rollback.update_full [OF assms])
  show "full_inv (snd (mr_AllocateCPU now i d t m))"
    unfolding mr_AllocateCPU_def by (rule op_alloc_cpu.on_host_full [OF assms]) simp_all
  show "full_inv (mr_ReleaseCPU now i d t m)"
    unfolding mr_ReleaseCPU_def by (rule op_release_cpu.on_host_full [OF assms]) simp_all
  have "full_inv (snd (on_host i (si_AllocateMemory d) UpdateMemoryUtilization m))"
    by (rule op_alloc_memory.on_host_full [OF assms]) simp_all
  then show "full_inv (snd (mr_AllocateMemory i d m))" using assms by (simp add: mr_AllocateMemory_def)
  show "full_inv (mr_ReleaseMemory i d m)"
    unfolding mr_ReleaseMemory_def by (rule op_release_memory.on_host_full [OF assms]) simp_all
  show "full_inv (snd (mr_EnqueueRequest i r m))"
    unfolding mr_EnqueueRequest_def with_instance_update using op_enqueue.update_full [OF assms] by simp
  have "snd (mr_DequeueRequest i m) = snd (with_instance i si_DequeueRequest m)"
    by (simp add: mr_DequeueRequest_def split: prod.split sum.split)
  then show "full_inv (snd (mr_DequeueRequest i m))"
    using op_dequeue.update_full [OF assms] by (simp add: with_instance_update)
qed

section \<open>Routing\<close>

lemma cached_routable:
  assumes "cache_inv m" "gm_get_or [] (mr_sortedServiceInstMap m) svc = ids" "ids \<noteq> []"
  shows "\<forall>i \<in> set ids. routable m svc i" "distinct ids" "0 \<le> gm_get_or 0 (mr_roundRobinIdx m) svc"
    "gm_get_or 0 (mr_roundRobinIdx m) svc < int (length ids)"
proof -
  have "gm_get (mr_sortedServiceInstMap m) svc = Some ids" using assms(2,3) by (auto simp: gm_get_or_def split: option.splits)
  then show "\<forall>i \<in> set ids. routable m svc i" "distinct ids" "0 \<le> gm_get_or 0 (mr_roundRobinIdx m) svc"
    "gm_get_or 0 (mr_roundRobinIdx m) svc < int (length ids)"
    using assms(1) unfolding cache_inv_def by blast+
qed

text \<open>The preference keeps the list, or the part of it in the zone the request asks for where that part is not empty.\<close>

lemma locality_filter:
  "\<exists>P. applyLocalityPreference sprint ids pol req m = filter P ids \<and> (ids \<noteq> [] \<longrightarrow> filter P ids \<noteq> [])" (is "\<exists>P. ?r = _ \<and> _")
proof -
  have all: "?r = ids \<Longrightarrow> \<exists>P. ?r = filter P ids \<and> (ids \<noteq> [] \<longrightarrow> filter P ids \<noteq> [])"
    by (intro exI [of _ "\<lambda>_. True"]) simp
  consider (off) "pol = None \<or> req = None" | (on) p r where "pol = Some p" "req = Some r" by (cases pol; cases req) auto
  then show ?thesis
  proof cases
    case off
    then have "?r = ids" by (auto simp: applyLocalityPreference_def split: option.split)
    then show ?thesis by (rule all)
  next
    case on
    let ?key = "trim_space (rp_LocalityZoneFrom p)"
    show ?thesis
    proof (cases "gm_get (rq_metadata r) ?key")
      case None
      then have "?r = ids" by (simp add: on applyLocalityPreference_def Let_def)
      then show ?thesis by (rule all)
    next
      case (Some raw)
      define P where "P = (\<lambda>i. case zone_of m i of None \<Rightarrow> False | Some z \<Rightarrow> equal_fold (trim_space z) (trim_space (sprint raw)))"
      have r: "?r = (if ?key = [] \<or> trim_space (sprint raw) = [] \<or> filter P ids = [] then ids else filter P ids)"
        unfolding on applyLocalityPreference_def P_def Let_def by (simp add: Some)
      show ?thesis
      proof (cases "?key = [] \<or> trim_space (sprint raw) = [] \<or> filter P ids = []")
        case True
        then have "?r = ids" unfolding r by (rule if_P)
        then show ?thesis by (rule all)
      next
        case False
        then have "?r = filter P ids" unfolding r by (rule if_not_P)
        moreover have "filter P ids \<noteq> []" using False by blast
        ultimately show ?thesis by blast
      qed
    qed
  qed
qed

lemma locality_facts:
  assumes "ids \<noteq> []"
  shows "set (applyLocalityPreference sprint ids pol req m) \<subseteq> set ids" "applyLocalityPreference sprint ids pol req m \<noteq> []"
    "length (applyLocalityPreference sprint ids pol req m) \<le> length ids"
proof -
  obtain P where "applyLocalityPreference sprint ids pol req m = filter P ids" "filter P ids \<noteq> []"
    using locality_filter assms by metis
  then show "set (applyLocalityPreference sprint ids pol req m) \<subseteq> set ids" "applyLocalityPreference sprint ids pol req m \<noteq> []"
    "length (applyLocalityPreference sprint ids pol req m) \<le> length ids" by simp_all
qed

lemma least_loop_in: "least_loop f xs best \<in> insert best (set xs)"
proof (induction xs arbitrary: best)
  case (Cons x xs)
  show ?case using Cons [of x] Cons [of best] by auto
qed simp

lemma least_of_list: "ids \<noteq> [] \<Longrightarrow> least_loop f (tl ids) (hd ids) \<in> set ids"
  using least_loop_in [of f "tl ids" "hd ids"] by (cases ids) simp_all

lemma least_loop_least: "x \<in> insert best (set xs) \<Longrightarrow> f (least_loop f xs best) \<le> f x"
proof (induction xs arbitrary: best x)
  case (Cons y ys)
  show ?case
  proof (cases "x \<in> set ys")
    case True then show ?thesis using Cons.IH by simp
  next
    case False
    then have "x = best \<or> x = y" using Cons.prems by auto
    then show ?thesis
      using Cons.IH [of "if f y < f best then y else best" "if f y < f best then y else best"] by (auto split: if_splits)
  qed
qed simp

lemma cache_inv_indices:
  assumes inv: "cache_inv m" and same: "mr_sortedServiceInstMap m' = mr_sortedServiceInstMap m" "mr_instances m' = mr_instances m"
    and pos: "\<And>sn. 0 \<le> gm_get_or 0 (mr_roundRobinIdx m') sn" "\<And>sn. 0 \<le> gm_get_or 0 (mr_weightedRoundRobinIdx m') sn"
    and less: "\<And>sn ids. gm_get (mr_sortedServiceInstMap m) sn = Some ids \<Longrightarrow> gm_get_or 0 (mr_roundRobinIdx m') sn < int (length ids)"
  shows "cache_inv m'"
proof -
  have r: "routable m' = routable m" by (simp add: routable_def fun_eq_iff same)
  have "ids \<noteq> [] \<and> distinct ids \<and> sorted ids \<and> (\<forall>i \<in> set ids. routable m sn i)"
    if "gm_get (mr_sortedServiceInstMap m) sn = Some ids" for sn ids
    using inv that unfolding cache_inv_def by blast
  then show ?thesis unfolding cache_inv_def same r using less pos by blast
qed

lemma set_indices_full:
  assumes inv: "full_inv m" and ids: "gm_get_or [] (mr_sortedServiceInstMap m) svc = ids" and v: "0 \<le> v" "v < int (length ids)"
  shows "full_inv (m\<lparr>mr_roundRobinIdx := gm_put svc v (mr_roundRobinIdx m)\<rparr>)"
proof -
  let ?m = "m\<lparr>mr_roundRobinIdx := gm_put svc v (mr_roundRobinIdx m)\<rparr>"
  have "mgr_inv ?m" using full_invD(1) [OF inv] by (subst mgr_inv_cong [of _ m]) (simp_all add: instances_on_def)
  moreover have "cache_inv ?m"
  proof (rule cache_inv_indices [OF full_invD(2) [OF inv]])
    fix sn l assume l: "gm_get (mr_sortedServiceInstMap m) sn = Some l"
    then have "gm_get_or 0 (mr_roundRobinIdx m) sn < int (length l)" using full_invD(2) [OF inv] unfolding cache_inv_def by blast
    moreover have "sn = svc \<Longrightarrow> l = ids" using l ids by (simp add: gm_get_or_def)
    ultimately show "gm_get_or 0 (mr_roundRobinIdx ?m) sn < int (length l)" using v by auto
  qed (use v(1) full_invD(4) [OF inv] in \<open>simp_all add: indices_ok_def\<close>)
  ultimately show ?thesis by (simp add: full_inv_def)
qed

text \<open>Round robin from a list within the cached one.\<close>

lemma selectRoundRobin_facts:
  assumes inv: "full_inv m" and ids: "gm_get_or [] (mr_sortedServiceInstMap m) svc = all" and "set ids \<subseteq> set all" "ids \<noteq> []" "length ids \<le> length all"
  shows "full_inv (snd (selectRoundRobin svc ids m)) \<and> (\<exists>i \<in> set ids. fst (selectRoundRobin svc ids m) = Inr i)"
proof -
  let ?i0 = "gm_get_or 0 (mr_roundRobinIdx m) svc"
  let ?i = "if ?i0 \<ge> int (length ids) then 0 else ?i0"
  have i: "0 \<le> ?i" "?i < int (length ids)" using full_invD(4) [OF inv] assms(4) by (auto simp: indices_ok_def)
  then have r: "selectRoundRobin svc ids m = (Inr (ids ! nat ?i), m\<lparr>mr_roundRobinIdx :=
      gm_put svc (go_mod (?i + 1) (int (length ids))) (mr_roundRobinIdx m)\<rparr>)"
    unfolding selectRoundRobin_def Let_def by (subst slice_get_ok) simp_all
  have "go_mod (?i + 1) (int (length ids)) = (?i + 1) mod int (length ids)" using i by (intro go_mod_nonneg) linarith+
  moreover have "0 < int (length ids)" using assms(4) by simp
  ultimately have "0 \<le> go_mod (?i + 1) (int (length ids))" "go_mod (?i + 1) (int (length ids)) < int (length all)"
    using assms(5) pos_mod_bound [of "int (length ids)" "?i + 1"] by (auto simp del: pos_mod_bound)
  from set_indices_full [OF inv ids this] have "full_inv (snd (selectRoundRobin svc ids m))" unfolding r by simp
  moreover have "ids ! nat ?i \<in> set ids" using i by (intro nth_mem) linarith
  ultimately show ?thesis unfolding r by (metis fst_conv)
qed

lemma weighted_index_full:
  assumes inv: "full_inv m" and v: "0 \<le> v"
  shows "full_inv (m\<lparr>mr_weightedRoundRobinIdx := gm_put svc v (mr_weightedRoundRobinIdx m)\<rparr>)"
proof -
  let ?m = "m\<lparr>mr_weightedRoundRobinIdx := gm_put svc v (mr_weightedRoundRobinIdx m)\<rparr>"
  have "mgr_inv ?m" using full_invD(1) [OF inv] by (subst mgr_inv_cong [of _ m]) (simp_all add: instances_on_def)
  moreover have "cache_inv ?m"
  proof (rule cache_inv_indices [OF full_invD(2) [OF inv]])
    fix sn l assume "gm_get (mr_sortedServiceInstMap m) sn = Some l"
    then have "gm_get_or 0 (mr_roundRobinIdx m) sn < int (length l)" using full_invD(2) [OF inv] unfolding cache_inv_def by blast
    then show "gm_get_or 0 (mr_roundRobinIdx ?m) sn < int (length l)" by simp
  qed (use v full_invD(4) [OF inv] in \<open>simp_all add: indices_ok_def\<close>)
  ultimately show ?thesis by (simp add: full_inv_def)
qed

lemma rng_full: "full_inv m \<Longrightarrow> full_inv (m\<lparr>mr_routingRand := rng\<rparr>)"
proof -
  assume inv: "full_inv m"
  let ?m = "m\<lparr>mr_routingRand := rng\<rparr>"
  have "mgr_inv ?m" using full_invD(1) [OF inv] by (subst mgr_inv_cong [of _ m]) (simp_all add: instances_on_def)
  moreover have "cache_inv ?m" by (rule cache_inv_mono [OF full_invD(2) [OF inv]]) (simp_all add: routable_def)
  ultimately show ?thesis by (simp add: full_inv_def)
qed

definition weighted_total :: "routing_policy option \<Rightarrow> string list \<Rightarrow> int" where
  "weighted_total pol ids = sum_list (map (weightedWheelSlots \<circ> instance_weight pol) ids)"

definition wheel :: "routing_policy option \<Rightarrow> string list \<Rightarrow> int \<Rightarrow> string" where
  "wheel pol ids cursor = (case find (\<lambda>(c, i). cursor < c) (zip (cumulative 0 (map (weightedWheelSlots \<circ> instance_weight pol) ids)) ids) of
     Some (c, i) \<Rightarrow> i | None \<Rightarrow> last ids)"

lemma wheel_in: "ids \<noteq> [] \<Longrightarrow> wheel pol ids c \<in> set ids"
proof (cases "find (\<lambda>(c', i). c < c') (zip (cumulative 0 (map (weightedWheelSlots \<circ> instance_weight pol) ids)) ids)")
  case (Some p)
  then have "p \<in> set (zip (cumulative 0 (map (weightedWheelSlots \<circ> instance_weight pol) ids)) ids)" by (blast dest: find_SomeD)
  then have "snd p \<in> set ids" by (metis prod.collapse set_zip_rightD)
  then show ?thesis by (cases p) (simp add: wheel_def Some)
qed (simp add: wheel_def)

lemma select_weighted_eq:
  "select_weighted svc ids pol m =
   (if weighted_total pol ids \<le> 0 then ((fst (selectRoundRobin svc ids m), ''round_robin''), snd (selectRoundRobin svc ids m))
    else let c = go_mod (gm_get_or 0 (mr_weightedRoundRobinIdx m) svc) (weighted_total pol ids)
         in ((Inr (wheel pol ids c), ''weighted_round_robin''),
             m\<lparr>mr_weightedRoundRobinIdx := gm_put svc (go_mod (c + 1) (weighted_total pol ids)) (mr_weightedRoundRobinIdx m)\<rparr>))"
  by (simp add: select_weighted_def weighted_total_def wheel_def Let_def case_prod_unfold)

lemma select_weighted_facts:
  assumes inv: "full_inv m" and rr: "full_inv (snd (selectRoundRobin svc ids m)) \<and> (\<exists>i \<in> set ids. fst (selectRoundRobin svc ids m) = Inr i)"
    and ne: "ids \<noteq> []"
  shows "full_inv (snd (select_weighted svc ids pol m)) \<and> (\<exists>i \<in> set ids. fst (fst (select_weighted svc ids pol m)) = Inr i)"
proof (cases "weighted_total pol ids \<le> 0")
  case False
  let ?c = "go_mod (gm_get_or 0 (mr_weightedRoundRobinIdx m) svc) (weighted_total pol ids)"
  have "0 \<le> ?c" using False full_invD(4) [OF inv] by (simp add: indices_ok_def go_mod_nonneg)
  then have "0 \<le> go_mod (?c + 1) (weighted_total pol ids)" using False by (simp add: go_mod_nonneg)
  then show ?thesis using False weighted_index_full [OF inv] wheel_in [OF ne] by (simp add: select_weighted_eq Let_def)
qed (simp add: select_weighted_eq rr)

lemma select_sticky_facts:
  assumes inv: "full_inv m" and rr: "full_inv (snd (selectRoundRobin svc ids m)) \<and> (\<exists>i \<in> set ids. fst (selectRoundRobin svc ids m) = Inr i)"
    and ne: "ids \<noteq> []"
  shows "full_inv (snd (select_sticky sprint svc ids pol req m)) \<and>
    (\<exists>i \<in> set ids. fst (fst (select_sticky sprint svc ids pol req m)) = Inr i)"
proof -
  have "ids ! (unat (fnv64a k) mod length ids) \<in> set ids" for k using ne by (intro nth_mem) simp
  then show ?thesis using inv rr unfolding select_sticky_def Let_def case_prod_unfold by (simp split: option.split)
qed

section \<open>Routing a request\<close>

definition routing_strategy :: "string \<Rightarrow> request option \<Rightarrow> 'r resource_manager \<Rightarrow> string" where
  "routing_strategy svc req m = (case routingPolicyForRequest svc req m of None \<Rightarrow> ''round_robin'' | Some p \<Rightarrow> normalizeRoutingStrategy (rp_Strategy p))"

definition known_strategies :: "string list" where
  "known_strategies = [''round_robin'', ''random'', ''least_connections'', ''least_queue'', ''least_cpu'', ''weighted_round_robin'', ''sticky'']"

lemma SelectInstanceForRequest_facts:
  assumes inv: "full_inv m" and intn: "\<And>n rng. 0 < n \<Longrightarrow> 0 \<le> fst (intn n rng) \<and> fst (intn n rng) < n"
  shows "full_inv (snd (SelectInstanceForRequest sprint intn svc req t m)) \<and>
    (if gm_get_or [] (mr_sortedServiceInstMap m) svc = []
     then fst (fst (SelectInstanceForRequest sprint intn svc req t m)) = Inl (Err ''no instances available for service %s'')
     else if routing_strategy svc req m \<notin> set known_strategies
     then fst (fst (SelectInstanceForRequest sprint intn svc req t m)) = Inl (Err ''unsupported routing strategy %q for service %s'')
     else \<exists>i. fst (fst (SelectInstanceForRequest sprint intn svc req t m)) = Inr i \<and> routable m svc i)"
proof (cases "gm_get_or [] (mr_sortedServiceInstMap m) svc")
  case Nil
  then show ?thesis using inv by (simp add: SelectInstanceForRequest_def)
next
  case (Cons first rest)
  let ?all = "first # rest" and ?pol = "routingPolicyForRequest svc req m" and ?s = "routing_strategy svc req m"
  define ids where "ids = applyLocalityPreference sprint ?all ?pol req m"
  have ids: "set ids \<subseteq> set ?all" "ids \<noteq> []" "length ids \<le> length ?all"
    unfolding ids_def by (rule locality_facts, simp)+
  note rr = selectRoundRobin_facts [OF inv Cons ids]
  have route: "\<forall>i \<in> set ids. routable m svc i" using cached_routable(1) [OF full_invD(2) [OF inv] Cons] ids(1) by auto
  obtain idx rng where i: "intn (int (length ids)) (mr_routingRand m) = (idx, rng)" by (cases "intn (int (length ids)) (mr_routingRand m)")
  have idx: "0 \<le> idx" "idx < int (length ids)" using intn [of "int (length ids)" "mr_routingRand m"] ids(2) by (simp_all add: i)
  then have nth: "ids ! nat idx \<in> set ids" by (intro nth_mem) linarith
  note w = select_weighted_facts [OF inv rr ids(2), of ?pol] and st = select_sticky_facts [OF inv rr ids(2), of sprint ?pol req]
  have r: "SelectInstanceForRequest sprint intn svc req t m =
      (if ?s = ''round_robin'' then ((fst (selectRoundRobin svc ids m), ?s), snd (selectRoundRobin svc ids m))
       else if ?s = ''random'' then ((Inr (ids ! nat idx), ?s), m\<lparr>mr_routingRand := rng\<rparr>)
       else if ?s = ''least_connections'' then ((Inr (least_loop (instance_measure 0 si_activeRequests m) (tl ids) (hd ids)), ?s), m)
       else if ?s = ''least_queue'' then ((Inr (least_loop (instance_measure 0 si_QueueLength m) (tl ids) (hd ids)), ?s), m)
       else if ?s = ''least_cpu'' then ((Inr (least_loop (instance_measure 0 (CPUUtilizationAt t) m) (tl ids) (hd ids)), ?s), m)
       else if ?s = ''weighted_round_robin'' then select_weighted svc ids ?pol m
       else if ?s = ''sticky'' then select_sticky sprint svc ids ?pol req m
       else ((Inl (Err ''unsupported routing strategy %q for service %s''), ?s), m))"
    unfolding SelectInstanceForRequest_def Cons list.case Let_def ids_def [symmetric] routing_strategy_def [symmetric] i case_prod_unfold
    using idx by simp
  have k: "?s \<in> set known_strategies \<longleftrightarrow> ?s = ''round_robin'' \<or> ?s = ''random'' \<or> ?s = ''least_connections'' \<or> ?s = ''least_queue'' \<or>
      ?s = ''least_cpu'' \<or> ?s = ''weighted_round_robin'' \<or> ?s = ''sticky''" by (simp add: known_strategies_def)
  have picks: "\<exists>i. fst (selectRoundRobin svc ids m) = Inr i \<and> routable m svc i"
    "\<exists>i. fst (fst (select_weighted svc ids ?pol m)) = Inr i \<and> routable m svc i"
    "\<exists>i. fst (fst (select_sticky sprint svc ids ?pol req m)) = Inr i \<and> routable m svc i" "routable m svc (ids ! nat idx)"
    "routable m svc (least_loop (instance_measure 0 si_activeRequests m) (tl ids) (hd ids))"
    "routable m svc (least_loop (instance_measure 0 si_QueueLength m) (tl ids) (hd ids))"
    "routable m svc (least_loop (instance_measure 0 (CPUUtilizationAt t) m) (tl ids) (hd ids))"
    using rr w st nth route least_of_list [OF ids(2)] by blast+
  define s where "s = ?s"
  show ?thesis unfolding r k unfolding Cons s_def [symmetric]
    using inv rr w st picks rng_full [OF inv] by (simp split: if_split)
qed

section \<open>Fairness\<close>

fun repeated :: "nat \<Rightarrow> ('s \<Rightarrow> 'a \<times> 's) \<Rightarrow> 's \<Rightarrow> 'a list" where
  "repeated 0 op s = []"
| "repeated (Suc n) op s = fst (op s) # repeated n op (snd (op s))"

lemma SelectInstanceForService_next:
  assumes ids: "gm_get (mr_sortedServiceInstMap m) svc = Some ids" "ids \<noteq> []"
    and idx: "gm_get_or 0 (mr_roundRobinIdx m) svc = int k" "k < length ids"
  shows "SelectInstanceForService svc m =
    (Inr (ids ! k), m\<lparr>mr_roundRobinIdx := gm_put svc (int (Suc k mod length ids)) (mr_roundRobinIdx m)\<rparr>)"
proof -
  have "go_mod (int k + 1) (int (length ids)) = int (Suc k mod length ids)"
    using idx(2) ids(2) by (subst go_mod_nonneg) (simp_all add: zmod_int add.commute)
  then show ?thesis using ids idx by (simp add: SelectInstanceForService_def Let_def)
qed

lemma round_robin_turns:
  assumes "gm_get (mr_sortedServiceInstMap m) svc = Some ids" "ids \<noteq> []" "gm_get_or 0 (mr_roundRobinIdx m) svc = int k" "k < length ids"
  shows "repeated n (SelectInstanceForService svc) m = map (\<lambda>j. Inr (ids ! ((k + j) mod length ids))) [0..<n]"
  using assms
proof (induction n arbitrary: m k)
  case (Suc n)
  let ?m = "m\<lparr>mr_roundRobinIdx := gm_put svc (int (Suc k mod length ids)) (mr_roundRobinIdx m)\<rparr>"
  have "repeated n (SelectInstanceForService svc) ?m = map (\<lambda>j. Inr (ids ! ((Suc k mod length ids + j) mod length ids))) [0..<n]"
    using Suc.prems by (intro Suc.IH) simp_all
  moreover have "(Suc k mod length ids + j) mod length ids = (k + Suc j) mod length ids" for j by (simp add: mod_simps)
  ultimately show ?case using SelectInstanceForService_next [OF Suc.prems] Suc.prems(4)
    by (simp add: map_upt_Suc del: upt_Suc)
qed simp

lemma map_rotate: "k < length xs \<Longrightarrow> map (\<lambda>j. f (xs ! ((k + j) mod length xs))) [0..<length xs] = map f (rotate k xs)"
  by (rule nth_equalityI) (simp_all add: nth_rotate)

text \<open>The positions of the wheel that select an instance: an interval as long as its slots.\<close>

definition wheel_pick :: "int \<Rightarrow> int list \<Rightarrow> string list \<Rightarrow> int \<Rightarrow> (int \<times> string) option" where
  "wheel_pick acc ws ids c = find (\<lambda>(c', i). c < c') (zip (cumulative acc ws) ids)"

lemma wheel_pick_Cons: "wheel_pick acc (w # ws) (i # ids) c = (if c < acc + w then Some (acc + w, i) else wheel_pick (acc + w) ws ids c)"
  by (simp add: wheel_pick_def)

lemma wheel_pick_in: "wheel_pick acc ws ids c = Some (d, i) \<Longrightarrow> i \<in> set ids"
  unfolding wheel_pick_def by (drule find_SomeD) (auto dest: set_zip_rightD)

lemma wheel_pick_interval:
  assumes "length ws = length ids" "distinct ids" "\<forall>w \<in> set ws. 0 \<le> w" "j < length ids"
  shows "{c. acc \<le> c \<and> c < acc + sum_list ws \<and> (\<exists>d. wheel_pick acc ws ids c = Some (d, ids ! j))} =
    {acc + sum_list (take j ws) ..< acc + sum_list (take (Suc j) ws)}"
  using assms
proof (induction ws ids arbitrary: acc j rule: list_induct2)
  case (Cons w ws i ids)
  have nn: "0 \<le> w" "0 \<le> sum_list ws" using Cons.prems(2) by (auto intro: sum_list_nonneg)
  show ?case
  proof (cases j)
    case 0
    have "i \<notin> set ids" using Cons.prems(1) by simp
    then have "wheel_pick (acc + w) ws ids c \<noteq> Some (d, i)" for c d using wheel_pick_in by blast
    then show ?thesis using nn by (auto simp: 0 wheel_pick_Cons)
  next
    case (Suc k)
    have "ids ! k \<noteq> i" using Cons.prems(1,3) Suc by (auto simp: in_set_conv_nth)
    then have "c \<in> {c. acc \<le> c \<and> c < acc + sum_list (w # ws) \<and> (\<exists>d. wheel_pick acc (w # ws) (i # ids) c = Some (d, (i # ids) ! j))} \<longleftrightarrow>
        c \<in> {c. acc + w \<le> c \<and> c < acc + w + sum_list ws \<and> (\<exists>d. wheel_pick (acc + w) ws ids c = Some (d, ids ! k))}" for c
      using nn by (auto simp: Suc wheel_pick_Cons)
    then have "{c. acc \<le> c \<and> c < acc + sum_list (w # ws) \<and> (\<exists>d. wheel_pick acc (w # ws) (i # ids) c = Some (d, (i # ids) ! j))} =
        {acc + w + sum_list (take k ws) ..< acc + w + sum_list (take (Suc k) ws)}"
      using Cons.IH [of k "acc + w"] Cons.prems Suc by (simp add: set_eq_iff)
    then show ?thesis by (simp add: Suc add.assoc)
  qed
qed simp

end
