(* ===== verification/Resource_Safety.thy ===== *)
theory Resource_Safety
  imports Resource_Routing Scenario_Validation
begin

text \<open>
  The resource manager as a state machine: initialization from a scenario establishes the invariant and every operation
  keeps it, so it holds in every state a run reaches.
\<close>

section \<open>Initialization\<close>

lemma full_inv_cong:
  assumes "mr_hosts m' = mr_hosts m" "mr_instances m' = mr_instances m" "mr_hostToInstances m' = mr_hostToInstances m"
    "mr_roundRobinIdx m' = mr_roundRobinIdx m" "mr_weightedRoundRobinIdx m' = mr_weightedRoundRobinIdx m"
    "mr_sortedServiceInstMap m' = mr_sortedServiceInstMap m" "mr_nextInstanceID m' = mr_nextInstanceID m"
  shows "full_inv m' = full_inv m"
proof -
  have "mgr_inv m' = mgr_inv m" by (rule mgr_inv_cong) (simp_all add: assms instances_on_def)
  moreover have "routable m' = routable m" by (simp add: routable_def fun_eq_iff assms)
  then have "cache_inv m' = cache_inv m" by (simp add: cache_inv_def assms)
  ultimately show ?thesis by (simp add: full_inv_def)
qed

definition placing_view :: "'r placing \<Rightarrow> 'r resource_manager" where
  "placing_view st = (pl_manager st)\<lparr>mr_nextInstanceID := pl_instanceID st\<rparr>"

lemma placing_view_frame [simp]:
  "mr_hosts (placing_view st) = mr_hosts (pl_manager st)" "mr_instances (placing_view st) = mr_instances (pl_manager st)"
  "instances_on (placing_view st) h = instances_on (pl_manager st) h" "mr_nextInstanceID (placing_view st) = pl_instanceID st"
  "collectInstancesForHost (placing_view st) h = collectInstancesForHost (pl_manager st) h"
  by (simp_all add: placing_view_def instances_on_def collectInstancesForHost_def)

definition placing_inv :: "'r placing \<Rightarrow> bool" where
  "placing_inv st \<longleftrightarrow> full_inv (placing_view st) \<and>
     (\<forall>hid h. gm_get (mr_hosts (pl_manager st)) hid = Some h \<longrightarrow>
        gm_get_or (0, 0) (pl_load st) hid =
          (sum_cores (collectInstancesForHost (pl_manager st) hid), sum_memory (collectInstancesForHost (pl_manager st) hid)))"

lemma place_next: "place_instance now i svc hid c mb (m\<lparr>mr_nextInstanceID := n\<rparr>) = (place_instance now i svc hid c mb m)\<lparr>mr_nextInstanceID := n\<rparr>"
  by (simp add: place_instance_def update_host_def instances_on_def Let_def split: option.split)

lemma collect_place:
  assumes "\<And>k. i \<notin> set (instances_on m k)"
  shows "collectInstancesForHost (place_instance now i svc hid c mb m) k =
    (if k = hid then collectInstancesForHost m hid @ [NewServiceInstance now i svc hid c mb] else collectInstancesForHost m k)"
proof -
  let ?new = "NewServiceInstance now i svc hid c mb"
  have "filter (\<lambda>x. gm_get (gm_put i ?new (mr_instances m)) x \<noteq> None) (instances_on m k) =
      filter (\<lambda>x. gm_get (mr_instances m) x \<noteq> None) (instances_on m k)" for k
    using assms [of k] by (intro filter_cong) auto
  moreover have "map (\<lambda>x. the (gm_get (gm_put i ?new (mr_instances m)) x)) (filter P (instances_on m k)) =
      map (\<lambda>x. the (gm_get (mr_instances m) x)) (filter P (instances_on m k))" for k P
    using assms [of k] by (intro map_cong) auto
  ultimately have old: "List.map_filter (gm_get (gm_put i ?new (mr_instances m))) (instances_on m k) =
      List.map_filter (gm_get (mr_instances m)) (instances_on m k)" for k
    by (simp add: List.map_filter_def comp_def)
  have "List.map_filter (gm_get (gm_put i ?new (mr_instances m))) (instances_on m hid @ [i]) =
      List.map_filter (gm_get (mr_instances m)) (instances_on m hid) @ [?new]"
    using old [of hid] by (simp add: List.map_filter_def)
  then show ?thesis using old by (simp add: collectInstancesForHost_def place_instance_frame)
qed

lemma fresh_not_listed:
  "mgr_inv m \<Longrightarrow> gm_get (mr_instances m) i = None \<Longrightarrow> i \<notin> set (instances_on m k)"
  unfolding mgr_inv_def lists_ok_def host_of_def by force

lemma place_replica_inv:
  assumes inv: "placing_inv st" and nn: "0 \<le> c" "0 \<le> mb"
  shows "placing_inv (snd (place_replica now hids svc c mb r st))"
proof -
  let ?m = "pl_manager st"
  let ?P = "\<lambda>hid. case gm_get (mr_hosts ?m) hid of None \<Rightarrow> False | Some h \<Rightarrow>
    zone_allowed svc h \<and> \<not> anti_affinity_conflict svc (collectInstancesForHost ?m hid) \<and>
    fits h (gm_get_or (0, 0) (pl_load st) hid) c mb"
  show ?thesis
  proof (cases "find ?P (rotation (r mod length hids) hids)")
    case None
    then show ?thesis using inv by (simp add: place_replica_def)
  next
    case (Some hid)
    let ?l = "gm_get_or (0, 0) (pl_load st) hid" and ?i = "instance_id (sv_ID svc) (pl_instanceID st)"
    let ?st = "\<lparr>pl_manager = place_instance now ?i (sv_ID svc) hid c mb ?m,
      pl_load = gm_put hid (fadd (fst ?l) c, fadd (snd ?l) mb) (pl_load st), pl_instanceID = pl_instanceID st + 1\<rparr>"
    have r: "snd (place_replica now hids svc c mb r st) = ?st" by (simp add: place_replica_def Some Let_def)
    obtain h where h: "gm_get (mr_hosts ?m) hid = Some h" "fits h ?l c mb"
      using find_SomeD [OF Some] by (auto split: option.splits)
    have full: "full_inv (placing_view st)" and load: "\<And>hid h. gm_get (mr_hosts ?m) hid = Some h \<Longrightarrow>
        gm_get_or (0, 0) (pl_load st) hid = (sum_cores (collectInstancesForHost ?m hid), sum_memory (collectInstancesForHost ?m hid))"
      using inv unfolding placing_inv_def by blast+
    have v: "placing_view ?st = new_replica now (sv_ID svc) hid c mb (placing_view st)"
      by (simp add: placing_view_def new_replica_def place_next)
    have "full_inv (placing_view ?st)"
      unfolding v using new_replica_full [OF full _ _ nn, of hid h] h load [OF h(1)] by simp
    moreover have "gm_get (mr_instances (placing_view st)) ?i = None"
      using fresh_id [OF full_invD(3) [OF full]] by simp
    from fresh_not_listed [OF full_invD(1) [OF full] this] have "?i \<notin> set (instances_on ?m k)" for k by simp
    from collect_place [OF this] have col: "collectInstancesForHost (place_instance now ?i (sv_ID svc) hid c mb ?m) k =
        (if k = hid then collectInstancesForHost ?m hid @ [NewServiceInstance now ?i (sv_ID svc) hid c mb] else collectInstancesForHost ?m k)" for k .
    have "gm_get_or (0, 0) (pl_load ?st) k = (sum_cores (collectInstancesForHost (pl_manager ?st) k), sum_memory (collectInstancesForHost (pl_manager ?st) k))"
      if k: "gm_get (mr_hosts (pl_manager ?st)) k = Some h'" for k h'
    proof -
      obtain h0 where "gm_get (mr_hosts ?m) k = Some h0" using k h(1) by (auto simp: place_instance_frame split: if_splits)
      from load [OF this] load [OF h(1)] show ?thesis by (simp add: col)
    qed
    ultimately show ?thesis unfolding r placing_inv_def by blast
  qed
qed

lemma place_replicas_inv:
  "placing_inv st \<Longrightarrow> 0 \<le> c \<Longrightarrow> 0 \<le> mb \<Longrightarrow> placing_inv (snd (place_replicas now hids svc c mb rs st))"
proof (induction rs arbitrary: st)
  case (Cons r rs)
  obtain e st1 where r: "place_replica now hids svc c mb r st = (e, st1)" by (cases "place_replica now hids svc c mb r st")
  have "placing_inv st1" using place_replica_inv [OF Cons.prems, of now hids svc r] r by simp
  then show ?case using Cons by (cases e) (simp_all add: r)
qed simp

lemma endpoint_routing_frame:
  fixes m :: "'r resource_manager" and k :: string
  defines "f \<equiv> (\<lambda>ep (m :: 'r resource_manager). case ep_Routing ep of None \<Rightarrow> m
    | Some r \<Rightarrow> m\<lparr>mr_endpointRouting := gm_put (k @ '':'' @ ep_Path ep) r (mr_endpointRouting m)\<rparr>)"
  shows "\<exists>er. fold f eps m = m\<lparr>mr_endpointRouting := er\<rparr>"
proof (induction eps arbitrary: m)
  case Nil
  show ?case by (intro exI [of _ "mr_endpointRouting m"]) simp
next
  case (Cons ep eps)
  obtain er where "f ep m = m\<lparr>mr_endpointRouting := er\<rparr>"
    by (cases "ep_Routing ep") (auto simp: f_def intro: that [of "mr_endpointRouting m"])
  moreover obtain er' where "fold f eps (m\<lparr>mr_endpointRouting := er\<rparr>) = m\<lparr>mr_endpointRouting := er\<rparr>\<lparr>mr_endpointRouting := er'\<rparr>"
    using Cons by blast
  ultimately show ?case by auto
qed

lemma note_routing_frame: "\<exists>sr er. note_routing svc m = m\<lparr>mr_serviceRouting := sr, mr_endpointRouting := er\<rparr>"
proof -
  obtain sr where sr: "(case sv_Routing svc of None \<Rightarrow> m | Some r \<Rightarrow> m\<lparr>mr_serviceRouting := gm_put (sv_ID svc) r (mr_serviceRouting m)\<rparr>) =
      m\<lparr>mr_serviceRouting := sr\<rparr>"
    by (cases "sv_Routing svc") (auto intro: that [of "mr_serviceRouting m"])
  show ?thesis unfolding note_routing_def Let_def sr
    using endpoint_routing_frame [of "sv_ID svc" "sv_Endpoints svc" "m\<lparr>mr_serviceRouting := sr\<rparr>"] by blast
qed

lemma note_routing_inv:
  assumes "placing_inv st"
  shows "placing_inv (st\<lparr>pl_manager := note_routing svc (pl_manager st)\<rparr>)"
proof -
  obtain sr er where n: "note_routing svc (pl_manager st) = (pl_manager st)\<lparr>mr_serviceRouting := sr, mr_endpointRouting := er\<rparr>"
    using note_routing_frame by blast
  let ?st = "st\<lparr>pl_manager := note_routing svc (pl_manager st)\<rparr>"
  have "full_inv (placing_view ?st) = full_inv (placing_view st)"
    by (rule full_inv_cong) (simp_all add: placing_view_def n)
  moreover have "collectInstancesForHost (pl_manager ?st) h = collectInstancesForHost (pl_manager st) h" for h
    by (simp add: n collectInstancesForHost_def instances_on_def)
  ultimately show ?thesis using assms by (simp add: placing_inv_def) (simp add: n)
qed

lemma place_services_inv:
  "placing_inv st \<Longrightarrow> \<forall>svc \<in> set svcs. 0 \<le> sv_CPUCores svc \<and> 0 \<le> sv_MemoryMB svc \<Longrightarrow>
   placing_inv (snd (place_services now hids svcs st))"
proof (induction svcs arbitrary: st)
  case (Cons svc svcs)
  let ?st = "st\<lparr>pl_manager := note_routing svc (pl_manager st)\<rparr>"
  let ?c = "if sv_CPUCores svc = 0 then DefaultInstanceCPUCores else sv_CPUCores svc"
  let ?mb = "if sv_MemoryMB svc = 0 then DefaultInstanceMemoryMB else sv_MemoryMB svc"
  obtain e st1 where r: "place_replicas now hids svc ?c ?mb [0..<nat (sv_Replicas svc)] ?st = (e, st1)"
    by (cases "place_replicas now hids svc ?c ?mb [0..<nat (sv_Replicas svc)] ?st")
  have "0 \<le> ?c" "0 \<le> ?mb" using Cons.prems(2) by (simp_all add: DefaultInstanceCPUCores_def DefaultInstanceMemoryMB_def)
  then have "placing_inv st1"
    using place_replicas_inv [OF note_routing_inv [OF Cons.prems(1), of svc], of ?c ?mb now hids svc "[0..<nat (sv_Replicas svc)]"] r by simp
  then show ?case using Cons unfolding place_services.simps Let_def r by (cases e) simp_all
qed simp

text \<open>The manager before any instance is placed: the hosts of the scenario, all empty.\<close>

lemma add_hosts_of_scenario:
  assumes "mr_instances m = []" "mr_hostToInstances m = []" "mr_sortedServiceInstMap m = []" "mr_roundRobinIdx m = []"
    "mr_weightedRoundRobinIdx m = []" "gm_ok (mr_hosts m)" "\<And>i h. gm_get (mr_hosts m) i = Some h \<Longrightarrow>
      0 < sh_cpuCores h \<and> 0 < sh_memoryGB h \<and> sh_serviceInstances h = []" "\<forall>hc \<in> set hcs. 0 < ho_Cores hc"
  shows "mgr_inv ((fold add_host hcs m)\<lparr>mr_nextInstanceID := 0\<rparr>) \<and> mr_sortedServiceInstMap (fold add_host hcs m) = [] \<and>
    mr_roundRobinIdx (fold add_host hcs m) = [] \<and> mr_weightedRoundRobinIdx (fold add_host hcs m) = [] \<and>
    mr_instances (fold add_host hcs m) = []"
  using assms
proof (induction hcs arbitrary: m)
  case Nil
  let ?m = "m\<lparr>mr_nextInstanceID := 0\<rparr>"
  have on: "instances_on ?m h = []" for h using Nil.prems(2) by (simp add: instances_on_def gm_get_or_def)
  have "0 \<le> cpu_limit n" "0 \<le> memory_limit (fmul (of_int64 n) 1024)" if "0 < n" for n
    using that by (simp_all add: cpu_limit_def memory_limit_def fadd_nonneg fmul_nonneg of_int64_nonneg fl_nonneg)
  then have "host_within h []" if "0 < sh_cpuCores h" "0 < sh_memoryGB h" for h
    using that by (simp add: host_within_def sum_cores_def sum_memory_def hostMemoryCapacityMB_def)
  then have "hosts_ok ?m" using Nil.prems(6,7) by (simp add: hosts_ok_def on collectInstancesForHost_def List.map_filter_def)
  moreover have "instances_ok ?m" "lists_ok ?m" using Nil.prems(1) by (simp_all add: instances_ok_def lists_ok_def on)
  ultimately show ?case using Nil.prems(1,3,4,5) by (simp add: mgr_invI)
next
  case (Cons hc hcs)
  have "mgr_inv ((fold add_host hcs (add_host hc m))\<lparr>mr_nextInstanceID := 0\<rparr>) \<and> mr_sortedServiceInstMap (fold add_host hcs (add_host hc m)) = [] \<and>
      mr_roundRobinIdx (fold add_host hcs (add_host hc m)) = [] \<and> mr_weightedRoundRobinIdx (fold add_host hcs (add_host hc m)) = [] \<and>
      mr_instances (fold add_host hcs (add_host hc m)) = []"
  proof (rule Cons.IH)
    show "0 < sh_cpuCores h \<and> 0 < sh_memoryGB h \<and> sh_serviceInstances h = []" if "gm_get (mr_hosts (add_host hc m)) i = Some h" for i h
      using that Cons.prems(7) [of i h] Cons.prems(8)
      by (auto simp: add_host_def Let_def SetLabels_def SetZone_def NewHost_def split: if_splits)
  qed (use Cons.prems in \<open>simp_all add: add_host_def Let_def\<close>)
  then show ?case by simp
qed

lemma InitializeFromScenario_full:
  assumes init: "InitializeFromScenario now s (mr_NewManager rng) = (None, m)" and cores: "\<forall>hc \<in> set (sc_Hosts s). 0 < ho_Cores hc"
    and sizes: "\<forall>svc \<in> set (sc_Services s). 0 \<le> sv_CPUCores svc \<and> 0 \<le> sv_MemoryMB svc"
  shows "full_inv m"
proof -
  let ?m = "fold add_host (sc_Hosts s) (mr_NewManager rng)"
  let ?st = "\<lparr>pl_manager = ?m, pl_load = map (\<lambda>i. (i, (0, 0))) (HostIDs ?m), pl_instanceID = 0\<rparr>"
  have m0: "mgr_inv (?m\<lparr>mr_nextInstanceID := 0\<rparr>)" "mr_sortedServiceInstMap ?m = []" "mr_roundRobinIdx ?m = []"
    "mr_weightedRoundRobinIdx ?m = []" "mr_instances ?m = []"
    using add_hosts_of_scenario [of "mr_NewManager rng" "sc_Hosts s"] cores by (simp_all add: mr_NewManager_def)
  obtain e st where st: "place_services now (HostIDs ?m) (sc_Services s) ?st = (e, st)"
    by (cases "place_services now (HostIDs ?m) (sc_Services s) ?st")
  have c0: "collectInstancesForHost ?m h = []" for h using m0(5) by (simp add: collectInstancesForHost_def List.map_filter_def)
  have "full_inv (placing_view ?st)" using m0 by (simp add: full_inv_def cache_inv_def placing_view_def gm_get_or_def)
  moreover have "gm_get_or (0, 0) (pl_load ?st) h = (0, 0)" for h by (simp add: gm_get_or_def gm_get_tabulate)
  ultimately have "placing_inv ?st" unfolding placing_inv_def by (simp add: c0 sum_cores_def sum_memory_def)
  from place_services_inv [OF this sizes, of now "HostIDs ?m"] have "placing_inv st" by (simp add: st)
  then have "full_inv (placing_view st)" by (simp add: placing_inv_def)
  moreover have "m = rebuildSortedInstanceCache (placing_view st)"
    using init st unfolding InitializeFromScenario_def placing_view_def Let_def by (auto split: if_splits option.splits)
  ultimately show ?thesis using rebuild_full full_invD by blast
qed

section \<open>The state machine\<close>

text \<open>The operations the simulator calls on the manager during a run. The routing generator is the parameter \<open>intn\<close>
  (\<open>rand.Intn\<close>), the printing of a metadata value \<open>sprint\<close>.\<close>

inductive mr_step :: "(go_value \<Rightarrow> string) \<Rightarrow> (int \<Rightarrow> 'r \<Rightarrow> int \<times> 'r) \<Rightarrow> 'r resource_manager \<Rightarrow> 'r resource_manager \<Rightarrow> bool"
  for sprint intn where
  scale: "mr_step sprint intn m (snd (ScaleServiceWithOptions now svc n t d m))"
| drain: "mr_step sprint intn m (snd (ProcessDrainingInstances now t m))"
| note_time: "mr_step sprint intn m (NoteSimTime t m)"
| drain_timeout: "mr_step sprint intn m (SetScaleDownDrainTimeout d m)"
| scale_out: "ScaleOutHosts fuel n m = Some (e, m') \<Longrightarrow> mr_step sprint intn m m'"
| scale_in: "mr_step sprint intn m (snd (ScaleInHosts n m))"
| grow: "mr_step sprint intn m (IncreaseHostCapacity c g m)"
| shrink: "mr_step sprint intn m (snd (DecreaseHostCapacity c g m))"
| resize: "mr_step sprint intn m (snd (UpdateServiceResourcesWithHeadroom svc cores mb hr m))"
| route: "mr_step sprint intn m (snd (SelectInstanceForRequest sprint intn svc req t m))"
| reserve_cpu: "mr_step sprint intn m (snd (mr_ReserveCPUWork i t d m))"
| rollback_cpu: "mr_step sprint intn m (mr_RollbackCPUTailReservation i t t' m)"
| reserve_db: "mr_step sprint intn m (snd (mr_ReserveDBWork i t d n m))"
| release_db: "mr_step sprint intn m (mr_ReleaseDBConnection i m)"
| alloc_cpu: "mr_step sprint intn m (snd (mr_AllocateCPU now i d t m))"
| release_cpu: "mr_step sprint intn m (mr_ReleaseCPU now i d t m)"
| alloc_memory: "mr_step sprint intn m (snd (mr_AllocateMemory i mb m))"
| release_memory: "mr_step sprint intn m (mr_ReleaseMemory i mb m)"
| enqueue: "mr_step sprint intn m (snd (mr_EnqueueRequest i r m))"
| dequeue: "mr_step sprint intn m (snd (mr_DequeueRequest i m))"
| route_service: "mr_step sprint intn m (snd (SelectInstanceForService svc m))"
| seed: "mr_step sprint intn m (SetRoutingSeed newSource k m)"
| broker_queue: "mr_step sprint intn m (snd (mr_GetBrokerQueue broker topic eff m))"
| broker_topic: "mr_step sprint intn m (snd (mr_GetBrokerTopicSubscriberPartitionShard broker topic part grp teff sub m))"

inductive mr_reachable ::
  "(go_value \<Rightarrow> string) \<Rightarrow> (int \<Rightarrow> 'r \<Rightarrow> int \<times> 'r) \<Rightarrow> gotime \<Rightarrow> scenario \<Rightarrow> 'r \<Rightarrow> 'r resource_manager \<Rightarrow> bool"
  for sprint intn now s rng where
  start: "InitializeFromScenario now s (mr_NewManager rng) = (None, m) \<Longrightarrow> mr_reachable sprint intn now s rng m"
| step: "mr_reachable sprint intn now s rng m \<Longrightarrow> mr_step sprint intn m m' \<Longrightarrow> mr_reachable sprint intn now s rng m'"

lemma add_hosts_full:
  assumes "full_inv m" "0 < sh_cpuCores t" "0 < sh_memoryGB t" "add_hosts fuel target k t m = Some m'"
  shows "full_inv m'"
  using assms
proof (induction fuel arbitrary: k m)
  case (Suc n)
  show ?case
  proof (cases "int (length (mr_hosts m)) < target")
    case True
    then show ?thesis using Suc.prems(4) Suc.IH [OF Suc.prems(1-3), of "k + 1"]
        Suc.IH [OF add_host_full [OF Suc.prems(1) _ Suc.prems(2,3), of "auto_host_id k"] Suc.prems(2,3), of "k + 1"]
      by (simp add: add_hosts.simps [of "Suc n"] Let_def split: if_splits)
  qed (use Suc.prems in \<open>simp add: add_hosts.simps [of "Suc n"]\<close>)
qed (simp add: add_hosts.simps [of 0] split: if_splits)

lemma ScaleOutHosts_full:
  assumes inv: "full_inv m" and r: "ScaleOutHosts fuel n m = Some (e, m')"
  shows "full_inv m'"
proof (cases "mr_hosts m")
  case Nil
  then show ?thesis using assms by (simp add: ScaleOutHosts_def split: if_splits)
next
  case (Cons p rest)
  obtain i t where p: "p = (i, t)" by (cases p)
  have "host_sound m i t" by (rule host_soundD [OF full_invD(1) [OF inv]]) (simp add: Cons p)
  then show ?thesis using assms add_hosts_full [OF inv] by (auto simp: ScaleOutHosts_def Cons p host_sound_def split: if_splits)
qed

lemma SetScaleDownDrainTimeout_full: "full_inv (SetScaleDownDrainTimeout d m) = full_inv m"
  by (rule full_inv_cong) (simp_all add: SetScaleDownDrainTimeout_def)

lemma broker_full:
  "full_inv (SetRoutingSeed newSource k m) = full_inv m" "full_inv (snd (mr_GetBrokerQueue broker topic eff m)) = full_inv m"
  "full_inv (snd (mr_GetBrokerTopicSubscriberPartitionShard broker topic part grp teff sub m)) = full_inv m"
  by (rule full_inv_cong; simp add: SetRoutingSeed_def mr_GetBrokerQueue_def
      mr_GetBrokerTopicSubscriberPartitionShard_def case_prod_unfold Let_def)+

lemma SelectInstanceForService_full:
  assumes inv: "full_inv m"
  shows "full_inv (snd (SelectInstanceForService svc m))"
proof (cases "gm_get (mr_sortedServiceInstMap m) svc")
  case (Some ids)
  have f: "ids \<noteq> [] \<and> gm_get_or 0 (mr_roundRobinIdx m) svc < int (length ids) \<and> 0 \<le> gm_get_or 0 (mr_roundRobinIdx m) svc"
    using full_invD(2) [OF inv] Some unfolding cache_inv_def by blast
  let ?k = "nat (gm_get_or 0 (mr_roundRobinIdx m) svc)"
  have r: "SelectInstanceForService svc m =
      (Inr (ids ! ?k), m\<lparr>mr_roundRobinIdx := gm_put svc (int (Suc ?k mod length ids)) (mr_roundRobinIdx m)\<rparr>)"
    by (rule SelectInstanceForService_next [OF Some]) (use f in \<open>simp_all, linarith\<close>)
  have "gm_get_or [] (mr_sortedServiceInstMap m) svc = ids" using Some by (simp add: gm_get_or_def)
  from set_indices_full [OF inv this, of "int (Suc ?k mod length ids)"] f show ?thesis unfolding r by simp
qed (simp add: SelectInstanceForService_def inv)

lemma mr_step_full:
  assumes "mr_step sprint intn m m'" "full_inv m" "\<And>n rng. 0 < n \<Longrightarrow> 0 \<le> fst (intn n rng) \<and> fst (intn n rng) < n"
  shows "full_inv m'"
  using assms
proof (induction rule: mr_step.induct)
  case (route m svc req t)
  then show ?case using SelectInstanceForRequest_facts [of m intn sprint svc req t] by blast
qed (simp_all add: ScaleService_inv ProcessDraining_facts NoteSimTime_inv SetScaleDownDrainTimeout_full ScaleOutHosts_full
    ScaleInHosts_facts IncreaseHostCapacity_inv DecreaseHostCapacity_inv UpdateServiceResources_inv requests_full broker_full SelectInstanceForService_full)

lemma mr_reachable_full:
  assumes "mr_reachable sprint intn now s rng m" "ValidateScenario s = Inr s'"
    "\<forall>svc \<in> set (sc_Services s). 0 \<le> sv_CPUCores svc \<and> 0 \<le> sv_MemoryMB svc"
    "\<And>n rng. 0 < n \<Longrightarrow> 0 \<le> fst (intn n rng) \<and> fst (intn n rng) < n"
  shows "full_inv m"
  using assms(1)
proof induction
  case (start m)
  have "scenario_ok s" using assms(2) ValidateScenario_ok by blast
  then have "\<forall>hc \<in> set (sc_Hosts s). 0 < ho_Cores hc" by (simp add: scenario_ok_def host_ok_def)
  then show ?case using InitializeFromScenario_full [OF start] assms(3) by blast
next
  case (step m m')
  then show ?case using mr_step_full assms(4) by blast
qed

end
