(* ===== verification/Resource_Contracts.thy ===== *)
theory Resource_Contracts
  imports Resource_Safety
begin

text \<open>
  What the resource manager promises in every state a run reaches: capacity, routing, scaling, draining and fairness.
\<close>

definition rng_law :: "(int \<Rightarrow> 'r \<Rightarrow> int \<times> 'r) \<Rightarrow> bool" where
  "rng_law intn \<longleftrightarrow> (\<forall>n rng. 0 < n \<longrightarrow> 0 \<le> fst (intn n rng) \<and> fst (intn n rng) < n)"

definition reached :: "'r resource_manager \<Rightarrow> bool" where
  "reached m \<longleftrightarrow> (\<exists>sprint intn now s s' rng. ValidateScenario s = Inr s' \<and> rng_law intn \<and>
     (\<forall>svc \<in> set (sc_Services s). 0 \<le> sv_CPUCores svc \<and> 0 \<le> sv_MemoryMB svc) \<and> mr_reachable sprint intn now s rng m)"

lemma reached_full: "reached m \<Longrightarrow> full_inv m"
  unfolding reached_def rng_law_def by (elim exE conjE) (rule mr_reachable_full, auto)

definition demo_one :: scenario where
  "demo_one = demo_scenario [demo_service ''a'' [demo_endpoint ''/'' []]] ''a:/''"

definition demo_of :: "string list \<Rightarrow> unit resource_manager" where
  "demo_of ids = (mr_NewManager ())\<lparr>mr_hosts := [(''h1'', (NewHost ''h1'' 4 16)\<lparr>sh_serviceInstances := ids\<rparr>)],
     mr_instances := map (\<lambda>i. (i, NewServiceInstance 0 i ''a'' ''h1'' 1 512)) ids, mr_hostToInstances := [(''h1'', ids)],
     mr_sortedServiceInstMap := [(''a'', ids)], mr_nextInstanceID := int (length ids)\<rparr>"

abbreviation demo_manager :: "unit resource_manager" where
  "demo_manager \<equiv> demo_of [''a-instance-0'']"

abbreviation demo_scaled :: "unit resource_manager" where
  "demo_scaled \<equiv> demo_of [''a-instance-0'', ''a-instance-1'']"

lemma demo_init: "InitializeFromScenario 0 demo_one (mr_NewManager ()) = (None, demo_manager)"
  by code_simp

lemma demo_one_valid: "accepted (ValidateScenario demo_one)"
  by code_simp

definition first_pick :: "int \<Rightarrow> unit \<Rightarrow> int \<times> unit" where
  "first_pick n rng = (0, rng)"

lemma demo_reached: "reached demo_manager" "rng_law first_pick"
proof -
  show law: "rng_law first_pick" by (simp add: rng_law_def first_pick_def)
  obtain s' where "ValidateScenario demo_one = Inr s'" using demo_one_valid by (auto simp: accepted_def split: sum.splits)
  moreover have "\<forall>svc \<in> set (sc_Services demo_one). 0 \<le> sv_CPUCores svc \<and> 0 \<le> sv_MemoryMB svc"
    by (simp add: demo_one_def demo_scenario_def demo_service_def)
  ultimately show "reached demo_manager"
    unfolding reached_def using law mr_reachable.start [OF demo_init] by blast
qed

section \<open>Capacity and routing\<close>


lemma demo_of_fields [simp]:
  "gm_get (mr_hosts (demo_of ids)) ''h1'' = Some ((NewHost ''h1'' 4 16)\<lparr>sh_serviceInstances := ids\<rparr>)"
  "mr_hosts (demo_of ids) \<noteq> []" "gm_get (mr_sortedServiceInstMap (demo_of ids)) ''a'' = Some ids"
  by (simp_all add: demo_of_def)




section \<open>Scaling a service\<close>

lemma routable_append:
  assumes ok: "instances_ok m" "instances_ok m'" and app: "mr_instances m' = mr_instances m @ new"
    and new: "\<forall>p \<in> set new. active_replica svc p"
  shows "{i. routable m' sn i} = {i. routable m sn i} \<union> (if sn = svc then set (map fst new) else {})"
    "{i. routable m sn i} \<inter> set (map fst new) = {}"
proof -
  have r: "routable m sn i \<longleftrightarrow> (\<exists>inst. (i, inst) \<in> set (mr_instances m) \<and> si_serviceName inst = sn \<and> IsRoutable inst)" for i
    unfolding routable_def instances_member [OF ok(1)] ..
  have "routable m' sn i \<longleftrightarrow> (\<exists>inst. (i, inst) \<in> set (mr_instances m') \<and> si_serviceName inst = sn \<and> IsRoutable inst)" for i
    unfolding routable_def instances_member [OF ok(2)] ..
  then have r': "routable m' sn i \<longleftrightarrow> (\<exists>inst. (i, inst) \<in> set (mr_instances m @ new) \<and> si_serviceName inst = sn \<and> IsRoutable inst)" for i
    unfolding app .
  show "{i. routable m' sn i} = {i. routable m sn i} \<union> (if sn = svc then set (map fst new) else {})"
  proof (intro set_eqI)
    fix i
    have "(i, inst) \<in> set new \<Longrightarrow> si_serviceName inst = svc \<and> IsRoutable inst" for inst
      using new by (auto simp: active_replica_def IsRoutable_def)
    moreover have "i \<in> set (map fst new) \<longleftrightarrow> (\<exists>inst. (i, inst) \<in> set new)" by force
    ultimately show "i \<in> {i. routable m' sn i} \<longleftrightarrow> i \<in> {i. routable m sn i} \<union> (if sn = svc then set (map fst new) else {})"
      unfolding mem_Collect_eq Un_iff r r' set_append by (cases "sn = svc") (simp_all, blast+)
  qed
  have "distinct (map fst (mr_instances m @ new))" using ok(2) by (simp add: instances_ok_def flip: app)
  then show "{i. routable m sn i} \<inter> set (map fst new) = {}" by (force simp: r)
qed

lemma scale_up_exact:
  assumes inv: "full_inv m" and inst: "gm_get (mr_instances m) i0 = Some inst"
    and r: "add_replicas now svc (si_cpuCores inst) (si_memoryMB inst) k m = (None, m')"
  shows "card {i. routable m' svc i} = card {i. routable m svc i} + k \<and>
    (\<forall>sn. sn \<noteq> svc \<longrightarrow> {i. routable m' sn i} = {i. routable m sn i}) \<and> {i. routable m svc i} \<subseteq> {i. routable m' svc i} \<and>
    (\<exists>new. mr_instances m' = mr_instances m @ new)"
proof -
  note nn = instance_facts(3,4) [OF full_invD(3) [OF inv] inst]
  from add_replicas_inv [OF inv nn, of now svc k] r obtain new where new: "full_inv m'" "mr_instances m' = mr_instances m @ new"
    "\<forall>p \<in> set new. active_replica svc p" "length new = k" by auto
  note a = routable_append [OF full_invD(3) [OF inv] full_invD(3) [OF new(1)] new(2,3)]
  have "distinct (map fst (mr_instances m @ new))" using full_invD(3) [OF new(1)] by (simp add: instances_ok_def flip: new(2))
  then have "card (set (map fst new)) = k" using distinct_card [of "map fst new"] new(4) by simp
  then have "card {i. routable m' svc i} = card {i. routable m svc i} + k"
    using a(1) [of svc] card_Un_disjoint [OF finite_routable _ a(2) [of svc]] by simp
  then show ?thesis using a(1) new(2) by auto
qed

lemma scale_down_exact:
  fixes dl :: gotime
  assumes inv: "full_inv m" and n: "n \<le> card {i. routable m svc i}"
  defines "act \<equiv> active_ids m (sort (service_ids m svc))"
  shows "{i. routable (drain_all dl (drop n act) m) svc i} = set (take n act)" "card (set (take n act)) = n"
    "sn \<noteq> svc \<Longrightarrow> {i. routable (drain_all dl (drop n act) m) sn i} = {i. routable m sn i}"
proof -
  have act: "set act = {i. routable m svc i}" "distinct act" unfolding act_def by (rule active_list [OF full_invD(3) [OF inv]])+
  have parts: "set act = set (take n act) \<union> set (drop n act)" "set (take n act) \<inter> set (drop n act) = {}"
    using set_append [of "take n act" "drop n act"] act(2) set_take_disj_set_drop_if_distinct [of act n n] by simp_all
  show "{i. routable (drain_all dl (drop n act) m) svc i} = set (take n act)"
    using parts act(1) by (auto simp: drain_all_routable)
  have "length act = card {i. routable m svc i}" unfolding act_def by (rule card_active [OF full_invD(3) [OF inv]])
  then show "card (set (take n act)) = n" using distinct_card [OF distinct_take [OF act(2), of n]] n by simp
  assume "sn \<noteq> svc"
  then have "routable m sn i \<Longrightarrow> i \<notin> set act" for i using act(1) by (auto simp: routable_def)
  then show "{i. routable (drain_all dl (drop n act) m) sn i} = {i. routable m sn i}"
    using parts(1) by (auto simp: drain_all_routable)
qed

lemma drain_all_keys: "gm_keys (mr_instances (drain_all dl ids m)) = gm_keys (mr_instances m)"
proof (induction ids arbitrary: m)
  case (Cons i ids)
  have "gm_keys (mr_instances (update_instance i f m)) = gm_keys (mr_instances m)" for f
    by (cases "gm_get (mr_instances m) i") (use gm_get_None_iff [of "mr_instances m" i] in \<open>simp_all add: update_instance_def update_keys\<close>)
  then show ?case using Cons by (simp add: drain_all_def)
qed (simp add: drain_all_def)

text \<open>C15: a call of ScaleServiceWithOptions that succeeds leaves exactly the requested number of active replicas; the active
  replicas of other services are the same, no instance is removed, and scaling down keeps the first ones in the order
  of the identifiers and marks the others as draining with the deadline.\<close>

theorem scale_service_exact:
  assumes "reached m" and r: "ScaleServiceWithOptions now svc n t d m = (None, m')"
  shows "int (card {i. routable m' svc i}) = n \<and>
    (\<forall>sn. sn \<noteq> svc \<longrightarrow> {i. routable m' sn i} = {i. routable m sn i}) \<and>
    (\<exists>new. gm_keys (mr_instances m') = gm_keys (mr_instances m) @ new) \<and>
    (n \<le> int (card {i. routable m svc i}) \<longrightarrow>
       {i. routable m' svc i} = set (take (nat n) (sorted_list_of_set {i. routable m svc i})) \<and>
       (\<forall>i inst. routable m svc i \<and> \<not> routable m' svc i \<and> gm_get (mr_instances m) i = Some inst \<longrightarrow>
          gm_get (mr_instances m') i = Some (SetDraining ((if is_zero_time t then now else t) + effectiveDrainTimeout d m) inst)))"
proof -
  have inv: "full_inv m" by (rule reached_full [OF assms(1)])
  note ok = full_invD(3) [OF inv]
  let ?all = "sort (service_ids m svc)" and ?act = "active_ids m (sort (service_ids m svc))"
  let ?dl = "(if is_zero_time t then now else t) + effectiveDrainTimeout d m"
  have act: "set ?act = {i. routable m svc i}" "distinct ?act" "sorted ?act" by (rule active_list [OF ok])+
  have srt: "sorted_list_of_set {i. routable m svc i} = ?act" using act by (metis sorted_list_of_set.idem_if_sorted_distinct)
  have len: "length ?act = card {i. routable m svc i}" by (rule card_active [OF ok])
  have n1: "1 \<le> n" using r by (auto simp: ScaleServiceWithOptions_def split: if_splits)
  consider (up) "n > int (length ?act)" | (down) "n < int (length ?act)" | (same) "n = int (length ?act)" by linarith
  then show ?thesis
  proof cases
    case up
    then obtain i0 inst m1 where "gm_get (mr_instances m) i0 = Some inst" and
      a: "add_replicas now svc (si_cpuCores inst) (si_memoryMB inst) (nat (n - int (length ?act))) m = (None, m1)" and
      m': "m' = rebuildSortedInstanceCache m1"
      using r n1 unfolding ScaleServiceWithOptions_def Let_def
      by (auto split: if_splits list.splits option.splits prod.splits)
    from scale_up_exact [OF inv this(1) a] obtain new where
      "card {i. routable m1 svc i} = card {i. routable m svc i} + nat (n - int (length ?act))"
      "\<forall>sn. sn \<noteq> svc \<longrightarrow> {i. routable m1 sn i} = {i. routable m sn i}" "mr_instances m1 = mr_instances m @ new" by blast
    then show ?thesis using up len by (auto simp: m')
  next
    case down
    let ?m = "drain_all ?dl (drop (nat n) ?act) m"
    have "?all \<noteq> []" using down n1 by (auto simp: active_ids_def)
    then have m': "m' = rebuildSortedInstanceCache ?m"
      using r n1 down unfolding ScaleServiceWithOptions_def Let_def drain_all_def [symmetric] by (auto split: if_splits)
    have "nat n \<le> card {i. routable m svc i}" using down len by linarith
    note e = scale_down_exact [OF inv this]
    have "gm_get (mr_instances ?m) i = Some (SetDraining ?dl inst)"
      if "routable m svc i" "\<not> routable ?m svc i" "gm_get (mr_instances m) i = Some inst" for i inst
      using that by (simp add: drain_all_routable drain_all_get)
    then show ?thesis using e(1) [where dl = ?dl] e(2) e(3) [where dl = ?dl] n1 by (simp add: m' srt drain_all_keys)
  next
    case same
    then have "m' = m" using r n1 by (auto simp: ScaleServiceWithOptions_def Let_def split: if_splits)
    then show ?thesis using same len act(1) by (auto simp: srt)
  qed
qed

lemma demo_scale: "ScaleServiceWithOptions 0 ''a'' 2 0 0 demo_manager = (None, demo_scaled)"
  by code_simp

theorem scale_service_exact_witness:
  "ScaleServiceWithOptions 0 ''a'' 2 0 0 demo_manager = (None, demo_scaled) \<and> card {i. routable demo_scaled ''a'' i} = 2"
  using scale_service_exact [OF demo_reached(1) demo_scale] demo_scale by simp

section \<open>Draining and hosts\<close>

lemma timed_out_iff: "timed_out t inst \<longleftrightarrow> si_drainDeadline inst \<noteq> 0 \<and> si_drainDeadline inst \<le> t"
  by (auto simp: timed_out_def is_zero_time_def)

text \<open>C30: ProcessDrainingInstances removes exactly the draining instances that are idle or past their deadline, leaves every
  other instance as it is, and returns the queued requests of the evicted ones, in order, each once.\<close>

theorem draining_exact:
  assumes "reached m"
  shows "(\<forall>i. gm_get (mr_instances (snd (ProcessDrainingInstances now t m))) i =
       (case gm_get (mr_instances m) i of None \<Rightarrow> None
        | Some inst \<Rightarrow> if si_lifecycle inst = InstanceDraining \<and> (is_idle inst \<or> (si_drainDeadline inst \<noteq> 0 \<and> si_drainDeadline inst \<le> t)) then None else Some inst)) \<and>
     fst (ProcessDrainingInstances now t m) = concat (map (\<lambda>(i, inst). filter (\<lambda>x. x \<noteq> []) (si_requestQueue inst))
       (filter (\<lambda>(i, inst). si_lifecycle inst = InstanceDraining \<and> \<not> is_idle inst \<and>
          si_drainDeadline inst \<noteq> 0 \<and> si_drainDeadline inst \<le> t) (mr_instances m)))"
proof -
  have "filter (\<lambda>(i, inst). drained t inst \<and> \<not> is_idle inst) (mr_instances m) =
      filter (\<lambda>(i, inst). si_lifecycle inst = InstanceDraining \<and> \<not> is_idle inst \<and> timed_out t inst) (mr_instances m)"
    by (rule filter_cong) (auto simp: drained_def)
  then have "(\<forall>i. gm_get (mr_instances (snd (ProcessDrainingInstances now t m))) i =
       (case gm_get (mr_instances m) i of None \<Rightarrow> None
        | Some inst \<Rightarrow> if si_lifecycle inst = InstanceDraining \<and> (is_idle inst \<or> timed_out t inst) then None else Some inst)) \<and>
     fst (ProcessDrainingInstances now t m) = concat (map (\<lambda>(i, inst). filter (\<lambda>x. x \<noteq> []) (si_requestQueue inst))
       (filter (\<lambda>(i, inst). si_lifecycle inst = InstanceDraining \<and> \<not> is_idle inst \<and> timed_out t inst) (mr_instances m)))"
    using ProcessDraining_facts [OF reached_full [OF assms], of now t] unfolding drained_def by simp
  then show ?thesis unfolding timed_out_iff .
qed

theorem draining_exact_witness:
  "reached demo_manager \<and> (\<forall>i. gm_get (mr_instances (snd (ProcessDrainingInstances 0 7 demo_manager))) i =
       (case gm_get (mr_instances demo_manager) i of None \<Rightarrow> None
        | Some inst \<Rightarrow> if si_lifecycle inst = InstanceDraining \<and> (is_idle inst \<or> (si_drainDeadline inst \<noteq> 0 \<and> si_drainDeadline inst \<le> 7)) then None else Some inst))"
  using draining_exact [OF demo_reached(1), of 0 7] demo_reached(1) by blast

text \<open>C31: with at least one host, ScaleOutHosts ends after at most as many turns as the target count, although it skips
  identifiers in use: afterwards there are the requested number of hosts, or the old number where that is larger, the old
  hosts are untouched and the new ones are empty with the capacity of an existing host.\<close>

theorem scale_out_hosts_ends:
  assumes "reached m" "mr_hosts m \<noteq> []" "nat target \<le> fuel"
  shows "\<exists>m' new. ScaleOutHosts fuel target m = Some (None, m') \<and> mr_hosts m' = mr_hosts m @ new \<and>
    int (length (mr_hosts m')) = max target (int (length (mr_hosts m))) \<and> gm_ok (mr_hosts m') \<and>
    (\<forall>(i, h) \<in> set new. h = NewHost i (sh_cpuCores (snd (hd (mr_hosts m)))) (sh_memoryGB (snd (hd (mr_hosts m)))))"
proof -
  obtain m' new where m': "ScaleOutHosts fuel target m = Some (None, m')" "full_inv m'" "mr_hosts m' = mr_hosts m @ new"
    "length new = nat (target - int (length (mr_hosts m)))"
    "\<forall>(i, h) \<in> set new. h = NewHost i (sh_cpuCores (snd (hd (mr_hosts m)))) (sh_memoryGB (snd (hd (mr_hosts m))))"
    using ScaleOutHosts_facts [OF reached_full [OF assms(1)] assms(2,3)] by (elim exE conjE) (rule that)
  have "gm_ok (mr_hosts m')" using full_invD(1) [OF m'(2)] by (simp add: mgr_inv_def hosts_ok_def)
  then show ?thesis using m' by (intro exI [of _ m'] exI [of _ new]) auto
qed

theorem scale_out_hosts_ends_witness:
  "\<exists>m'. ScaleOutHosts 3 3 demo_manager = Some (None, m') \<and> int (length (mr_hosts m')) = max 3 (int (length (mr_hosts demo_manager)))"
  using scale_out_hosts_ends [OF demo_reached(1) demo_of_fields(2), of 3 3] by auto


lemma demo_resize:
  "map_prod id (map (\<lambda>(i, inst). (i, si_serviceName inst)) \<circ> mr_instances)
     (UpdateServiceResourcesWithHeadroom ''a'' 2 512 0 demo_manager) = (None, [(''a-instance-0'', ''a'')])"
  by code_simp


section \<open>Fairness\<close>

text \<open>C33: round robin is fair: as many consecutive selections as the service has routable instances visit each of them once,
  in the order of their identifiers from the current position.\<close>

theorem round_robin_fair:
  assumes "reached m" "gm_get (mr_sortedServiceInstMap m) svc = Some ids"
  shows "repeated (length ids) (SelectInstanceForService svc) m =
      map Inr (rotate (nat (gm_get_or 0 (mr_roundRobinIdx m) svc)) ids) \<and> distinct ids \<and> ids \<noteq> []"
proof -
  let ?k = "gm_get_or 0 (mr_roundRobinIdx m) svc"
  have "ids \<noteq> [] \<and> distinct ids \<and> ?k < int (length ids)" "0 \<le> ?k"
    using full_invD(2) [OF reached_full [OF assms(1)]] assms(2) unfolding cache_inv_def by blast+
  moreover from this have "nat ?k < length ids" by linarith
  ultimately show ?thesis
    using round_robin_turns [OF assms(2), of "nat ?k" "length ids"] map_rotate [of "nat ?k" ids Inr] by simp
qed

lemma demo_scaled_reached: "reached demo_scaled"
proof -
  obtain s' where "ValidateScenario demo_one = Inr s'" using demo_one_valid by (auto simp: accepted_def split: sum.splits)
  moreover have "\<forall>svc \<in> set (sc_Services demo_one). 0 \<le> sv_CPUCores svc \<and> 0 \<le> sv_MemoryMB svc"
    by (simp add: demo_one_def demo_scenario_def demo_service_def)
  moreover have "mr_reachable sprint first_pick 0 demo_one () demo_scaled" for sprint
    using mr_reachable.step [OF mr_reachable.start [OF demo_init] mr_step.scale, of sprint first_pick 0 "''a''" 2 0 0]
    by (simp add: demo_scale)
  ultimately show ?thesis unfolding reached_def using demo_reached(2) by blast
qed

theorem round_robin_fair_witness:
  "reached demo_scaled \<and> gm_get (mr_sortedServiceInstMap demo_scaled) ''a'' = Some [''a-instance-0'', ''a-instance-1''] \<and>
   repeated 2 (SelectInstanceForService ''a'') demo_scaled =
     map Inr (rotate (nat (gm_get_or 0 (mr_roundRobinIdx demo_scaled) ''a'')) [''a-instance-0'', ''a-instance-1''])"
  using round_robin_fair [OF demo_scaled_reached demo_of_fields(3)] demo_scaled_reached by (simp add: numeral_2_eq_2)

lemma weighted_turns:
  assumes "0 < weighted_total pol ids" "0 \<le> gm_get_or 0 (mr_weightedRoundRobinIdx m) svc"
  shows "repeated n (select_weighted svc ids pol) m = map (\<lambda>k. (Inr (wheel pol ids
      ((gm_get_or 0 (mr_weightedRoundRobinIdx m) svc + int k) mod weighted_total pol ids)), ''weighted_round_robin'')) [0..<n]"
  using assms(2)
proof (induction n arbitrary: m)
  case (Suc n)
  let ?T = "weighted_total pol ids" and ?c = "gm_get_or 0 (mr_weightedRoundRobinIdx m) svc"
  let ?m = "m\<lparr>mr_weightedRoundRobinIdx := gm_put svc ((?c mod ?T + 1) mod ?T) (mr_weightedRoundRobinIdx m)\<rparr>"
  have r: "select_weighted svc ids pol m = ((Inr (wheel pol ids (?c mod ?T)), ''weighted_round_robin''), ?m)"
    using assms(1) Suc.prems by (simp add: select_weighted_eq go_mod_nonneg Let_def)
  have "((?c mod ?T + 1) mod ?T + int k) mod ?T = (?c + int (Suc k)) mod ?T" for k by (simp add: mod_simps ac_simps)
  then show ?case using Suc.IH [of ?m] assms(1) by (simp add: r map_upt_Suc del: upt_Suc)
qed simp

lemma wheel_pick_some:
  "length ws = length ids \<Longrightarrow> acc \<le> c \<Longrightarrow> c < acc + sum_list ws \<Longrightarrow> \<exists>p. wheel_pick acc ws ids c = Some p"
  by (induction ws ids arbitrary: acc rule: list_induct2) (auto simp: wheel_pick_Cons)

lemma slots_nonneg: "0 \<le> weightedWheelSlots w"
  by (simp add: weightedWheelSlots_def Let_def)

lemma wheel_share:
  assumes "distinct ids" "i \<in> set ids"
  shows "card {c. 0 \<le> c \<and> c < weighted_total pol ids \<and> wheel pol ids c = i} = nat (weightedWheelSlots (instance_weight pol i))"
proof -
  let ?ws = "map (weightedWheelSlots \<circ> instance_weight pol) ids"
  obtain j where j: "j < length ids" "ids ! j = i" using assms(2) by (auto simp: in_set_conv_nth)
  have "wheel pol ids c = i \<longleftrightarrow> (\<exists>d. wheel_pick 0 ?ws ids c = Some (d, i))" if "0 \<le> c" "c < sum_list ?ws" for c
    using wheel_pick_some [of ?ws ids 0 c] that by (auto simp: wheel_def wheel_pick_def split: option.splits)
  then have "{c. 0 \<le> c \<and> c < weighted_total pol ids \<and> wheel pol ids c = i} =
      {c. 0 \<le> c \<and> c < 0 + sum_list ?ws \<and> (\<exists>d. wheel_pick 0 ?ws ids c = Some (d, ids ! j))}"
    by (auto simp: weighted_total_def j(2))
  also have "\<dots> = {0 + sum_list (take j ?ws) ..< 0 + sum_list (take (Suc j) ?ws)}"
    using assms(1) j(1) slots_nonneg by (intro wheel_pick_interval) auto
  finally show ?thesis using j by (simp add: take_Suc_conv_app_nth)
qed

lemma card_shift:
  fixes T c :: int
  assumes "0 < T"
  shows "card {k. k < nat T \<and> P ((c + int k) mod T)} = card {x. 0 \<le> x \<and> x < T \<and> P x}"
proof (rule bij_betw_same_card)
  show "bij_betw (\<lambda>k. (c + int k) mod T) {k. k < nat T \<and> P ((c + int k) mod T)} {x. 0 \<le> x \<and> x < T \<and> P x}"
  proof (rule bij_betw_byWitness [where f' = "\<lambda>x. nat ((x - c) mod T)"])
    show "\<forall>k \<in> {k. k < nat T \<and> P ((c + int k) mod T)}. nat (((c + int k) mod T - c) mod T) = k" by (auto simp: mod_simps)
    show "\<forall>x \<in> {x. 0 \<le> x \<and> x < T \<and> P x}. (c + int (nat ((x - c) mod T))) mod T = x" using assms by (auto simp: mod_simps)
  qed (use assms in \<open>auto simp: mod_simps\<close>)
qed

text \<open>C34: weighted round robin is exact: over one turn of the wheel every instance is selected as often as its weight has slots,
  whatever the position the wheel starts from.\<close>

theorem weighted_share:
  assumes "distinct ids" "i \<in> set ids" "0 < weighted_total pol ids" "0 \<le> gm_get_or 0 (mr_weightedRoundRobinIdx m) svc"
  shows "count_list (map fst (repeated (nat (weighted_total pol ids)) (select_weighted svc ids pol) m)) (Inr i) =
    nat (weightedWheelSlots (instance_weight pol i))"
proof -
  let ?T = "weighted_total pol ids" and ?c = "gm_get_or 0 (mr_weightedRoundRobinIdx m) svc"
  have "count_list (map f [0..<n]) y = card {k. k < n \<and> f k = y}" for f :: "nat \<Rightarrow> go_error + string" and n y
  proof (induction n)
    case (Suc n)
    have "{k. k < Suc n \<and> f k = y} = (if f n = y then insert n {k. k < n \<and> f k = y} else {k. k < n \<and> f k = y})"
      by (auto simp: less_Suc_eq)
    then show ?case using Suc by simp
  qed simp
  then have "count_list (map fst (repeated (nat ?T) (select_weighted svc ids pol) m)) (Inr i) =
      card {k. k < nat ?T \<and> wheel pol ids ((?c + int k) mod ?T) = i}"
    unfolding weighted_turns [OF assms(3,4)] by (simp add: comp_def)
  then show ?thesis using card_shift [OF assms(3), of "\<lambda>x. wheel pol ids x = i"] wheel_share [OF assms(1,2)] by simp
qed

theorem weighted_share_witness:
  "distinct [''x'', ''y''] \<and> ''y'' \<in> set [''x'', ''y''] \<and>
   count_list (map fst (repeated (nat (weighted_total None [''x'', ''y''])) (select_weighted ''s'' [''x'', ''y''] None) (mr_NewManager ())))
     (Inr ''y'') = nat (weightedWheelSlots (instance_weight None ''y''))"
proof -
  have "0 < weighted_total None [''x'', ''y'']" by code_simp
  moreover have "0 \<le> gm_get_or 0 (mr_weightedRoundRobinIdx (mr_NewManager ())) ''s''" by (simp add: mr_NewManager_def gm_get_or_def)
  ultimately show ?thesis using weighted_share [of "[''x'', ''y'']" "''y''" None "mr_NewManager ()" "''s''"] by simp
qed

end
