(* ===== verification/Batch_Spec.thy ===== *)
theory Batch_Spec
  imports Sim_Proto Scenario_Types
begin

text \<open>
  The normalised batch optimization configuration of \<open>internal/batchspec/spec.go\<close>: the defaults, the bounds taken
  from the baseline scenario, the merge with what the client sent, the validation, and the finer specification
  of the refinement pass. The set of allowed actions is the list of its members.
\<close>

record batch_spec =
  bsp_Proto :: "batch_optimization_config option"
  bsp_SearchStrategy :: batch_search_strategy
  bsp_AllowedActions :: "batch_scaling_action list"
  bsp_AllowedActionsOrdered :: "batch_scaling_action list"
  bsp_FreezeWorkload :: bool
  bsp_FreezePolicies :: bool
  bsp_MaxP95Ms :: float64
  bsp_MaxP99Ms :: float64
  bsp_MaxErrorRate :: float64
  bsp_MinThroughput :: float64
  bsp_MaxQueueDepthSum :: float64
  bsp_MaxTopicBacklogDepthSum :: float64
  bsp_MaxTopicConsumerLagSum :: float64
  bsp_MaxQueueOldestMessageAgeMs :: float64
  bsp_MaxTopicOldestMessageAgeMs :: float64
  bsp_MaxQueueDropCount :: float64
  bsp_MaxTopicDropCount :: float64
  bsp_MaxQueueDlqCount :: float64
  bsp_MaxTopicDlqCount :: float64
  bsp_MinLocalityHitRate :: float64
  bsp_MaxCrossZoneRequestFraction :: float64
  bsp_MaxTopologyLatencyPenaltyMeanMs :: float64
  bsp_ServiceCPUBandLow :: float64
  bsp_ServiceCPUBandHigh :: float64
  bsp_ServiceMemBandLow :: float64
  bsp_ServiceMemBandHigh :: float64
  bsp_HostCPUBandLow :: float64
  bsp_HostCPUBandHigh :: float64
  bsp_HostMemBandLow :: float64
  bsp_HostMemBandHigh :: float64
  bsp_MinHosts :: int
  bsp_MaxHosts :: int
  bsp_MinReplicasPerSvc :: int
  bsp_MaxReplicasPerSvc :: int
  bsp_MinCPUPerInst :: float64
  bsp_MaxCPUPerInst :: float64
  bsp_MinMemPerInst :: float64
  bsp_MaxMemPerInst :: float64
  bsp_MinHostCPUCores :: int
  bsp_MaxHostCPUCores :: int
  bsp_MinHostMemGB :: int
  bsp_MaxHostMemGB :: int
  bsp_ReplicaStep :: int
  bsp_ServiceCPURatio :: float64
  bsp_ServiceMemRatio :: float64
  bsp_HostCountStep :: int
  bsp_HostCPUStepCores :: int
  bsp_HostMemStepGB :: int
  bsp_BeamWidth :: int
  bsp_MaxSearchDepth :: int
  bsp_MaxNeighborsPerState :: int
  bsp_ReevalPerCandidate :: int
  bsp_InfeasibleBeamWidth :: int
  bsp_CostWeights :: "batch_cost_weights option"
  bsp_PenaltyWeights :: "batch_penalty_weights option"
  bsp_EnableLocalRefinement :: bool
  bsp_DeterministicCandidateSeeds :: bool

text \<open>The arithmetic of \<open>int32\<close>.\<close>

definition wrap32 :: "int \<Rightarrow> int" where
  "wrap32 n = (n + 2 ^ 31) mod 2 ^ 32 - 2 ^ 31"

definition batchScalingActionEnumOrder :: "batch_scaling_action list" where
  "batchScalingActionEnumOrder =
     [SERVICE_SCALE_OUT, SERVICE_SCALE_IN, SERVICE_SCALE_UP_CPU, SERVICE_SCALE_DOWN_CPU,
      SERVICE_SCALE_UP_MEMORY, SERVICE_SCALE_DOWN_MEMORY, HOST_SCALE_OUT, HOST_SCALE_IN,
      HOST_SCALE_UP_CPU, HOST_SCALE_DOWN_CPU, HOST_SCALE_UP_MEMORY, HOST_SCALE_DOWN_MEMORY,
      QUEUE_SCALE_UP_CONCURRENCY, QUEUE_SCALE_DOWN_CONCURRENCY,
      TOPIC_SUBSCRIBER_SCALE_UP_CONCURRENCY, TOPIC_SUBSCRIBER_SCALE_DOWN_CONCURRENCY]"

definition allBatchScalingActions :: "batch_scaling_action list" where
  "allBatchScalingActions = batchScalingActionEnumOrder"

definition orderedActionsFromMap :: "batch_scaling_action list \<Rightarrow> batch_scaling_action list" where
  "orderedActionsFromMap m = filter (\<lambda>a. a \<in> set m) batchScalingActionEnumOrder"

definition default_cost_weights :: batch_cost_weights where
  "default_cost_weights = \<lparr>bcw_ServiceCpu = 1, bcw_ServiceMemoryGb = 1, bcw_Replicas = 1, bcw_Hosts = 1, bcw_HostCpu = 1,
     bcw_HostMemoryGb = 1, bcw_Churn = 1 / 2\<rparr>"

definition default_penalty_weights :: batch_penalty_weights where
  "default_penalty_weights = \<lparr>bpw_P95 = 1, bpw_P99 = 1, bpw_ErrorRate = 1, bpw_Throughput = 1, bpw_ServiceCpuBalance = 1,
     bpw_ServiceMemoryBalance = 1, bpw_HostCpuBalance = 1, bpw_HostMemoryBalance = 1, bpw_QueueDepth = 1,
     bpw_TopicBacklog = 1, bpw_TopicLag = 1, bpw_QueueOldestAge = 1, bpw_TopicOldestAge = 1, bpw_QueueDrop = 1,
     bpw_TopicDrop = 1, bpw_QueueDlq = 1, bpw_TopicDlq = 1, bpw_Locality = 1, bpw_CrossZone = 1, bpw_TopologyLatency = 1\<rparr>"

definition initBoundsFromBaseline :: "batch_spec \<Rightarrow> scenario option \<Rightarrow> batch_spec" where
  "initBoundsFromBaseline s base =
     (case base of None \<Rightarrow> s | Some b \<Rightarrow>
        let nh = max 1 (safeInt32FromInt (int (length (sc_Hosts b))));
            s1 = s\<lparr>bsp_MinHosts := nh, bsp_MaxHosts := wrap32 (nh + 4),
                   bsp_MinReplicasPerSvc := 1, bsp_MaxReplicasPerSvc := 32,
                   bsp_MinCPUPerInst := 1 / 4, bsp_MaxCPUPerInst := 32,
                   bsp_MinMemPerInst := 128, bsp_MaxMemPerInst := 65536\<rparr>
        in case sc_Hosts b of [] \<Rightarrow> s1 | h # _ \<Rightarrow>
             let c0 = safeInt32FromInt (ho_Cores h); c = (if c0 < 1 then 1 else c0);
                 gb0 = safeInt32FromInt (ho_MemoryGB h); gb = (if gb0 < 1 then 16 else gb0)
             in s1\<lparr>bsp_MinHostCPUCores := c, bsp_MaxHostCPUCores := wrap32 (c * 4),
                    bsp_MinHostMemGB := gb, bsp_MaxHostMemGB := wrap32 (gb * 4)\<rparr>)"

definition DefaultBatchSpec :: "scenario option \<Rightarrow> batch_spec" where
  "DefaultBatchSpec base = initBoundsFromBaseline
     \<lparr>bsp_Proto = None, bsp_SearchStrategy = BATCH_SEARCH_STRATEGY_BEAM,
      bsp_AllowedActions = allBatchScalingActions,
      bsp_AllowedActionsOrdered = orderedActionsFromMap allBatchScalingActions,
      bsp_FreezeWorkload = True, bsp_FreezePolicies = True,
      bsp_MaxP95Ms = 500, bsp_MaxP99Ms = 1000, bsp_MaxErrorRate = fl (1 / 20), bsp_MinThroughput = 0,
      bsp_MaxQueueDepthSum = 0, bsp_MaxTopicBacklogDepthSum = 0, bsp_MaxTopicConsumerLagSum = 0,
      bsp_MaxQueueOldestMessageAgeMs = 0, bsp_MaxTopicOldestMessageAgeMs = 0, bsp_MaxQueueDropCount = 0,
      bsp_MaxTopicDropCount = 0, bsp_MaxQueueDlqCount = 0, bsp_MaxTopicDlqCount = 0, bsp_MinLocalityHitRate = 0,
      bsp_MaxCrossZoneRequestFraction = 0, bsp_MaxTopologyLatencyPenaltyMeanMs = 0,
      bsp_ServiceCPUBandLow = fl (45 / 100), bsp_ServiceCPUBandHigh = fl (70 / 100),
      bsp_ServiceMemBandLow = fl (45 / 100), bsp_ServiceMemBandHigh = 3 / 4,
      bsp_HostCPUBandLow = fl (40 / 100), bsp_HostCPUBandHigh = 3 / 4,
      bsp_HostMemBandLow = fl (40 / 100), bsp_HostMemBandHigh = fl (80 / 100),
      bsp_MinHosts = 0, bsp_MaxHosts = 0, bsp_MinReplicasPerSvc = 0, bsp_MaxReplicasPerSvc = 0,
      bsp_MinCPUPerInst = 0, bsp_MaxCPUPerInst = 0, bsp_MinMemPerInst = 0, bsp_MaxMemPerInst = 0,
      bsp_MinHostCPUCores = 0, bsp_MaxHostCPUCores = 0, bsp_MinHostMemGB = 0, bsp_MaxHostMemGB = 0,
      bsp_ReplicaStep = 1, bsp_ServiceCPURatio = fl (1 / 10), bsp_ServiceMemRatio = fl (1 / 10),
      bsp_HostCountStep = 1, bsp_HostCPUStepCores = 1, bsp_HostMemStepGB = 1,
      bsp_BeamWidth = 8, bsp_MaxSearchDepth = 8, bsp_MaxNeighborsPerState = 24, bsp_ReevalPerCandidate = 3,
      bsp_InfeasibleBeamWidth = 4, bsp_CostWeights = Some default_cost_weights,
      bsp_PenaltyWeights = Some default_penalty_weights,
      bsp_EnableLocalRefinement = True, bsp_DeterministicCandidateSeeds = True\<rparr> base"

text \<open>
  The merge of \<open>ParseBatchSpec\<close>: a number the client sent wins when it is positive, a band when one
  of its ends is, a message or optional flag when it is present.
\<close>

definition or_default :: "'a::linordered_idom \<Rightarrow> 'a \<Rightarrow> 'a" where
  "or_default d x = (if x > 0 then x else d)"

definition band_set :: "utilization_band option \<Rightarrow> bool" where
  "band_set b = (case b of None \<Rightarrow> False | Some b \<Rightarrow> ub_Low b > 0 \<or> ub_High b > 0)"

definition band_low :: "float64 \<Rightarrow> utilization_band option \<Rightarrow> float64" where
  "band_low d b = (if band_set b then ub_Low (the b) else d)"

definition band_high :: "float64 \<Rightarrow> utilization_band option \<Rightarrow> float64" where
  "band_high d b = (if band_set b then ub_High (the b) else d)"

definition merge_limits :: "batch_optimization_config \<Rightarrow> batch_spec \<Rightarrow> batch_spec" where
  "merge_limits pb s = s\<lparr>
     bsp_MaxP95Ms := or_default (bsp_MaxP95Ms s) (bo_MaxP95LatencyMs pb),
     bsp_MaxP99Ms := or_default (bsp_MaxP99Ms s) (bo_MaxP99LatencyMs pb),
     bsp_MaxErrorRate := or_default (bsp_MaxErrorRate s) (bo_MaxErrorRate pb),
     bsp_MinThroughput := or_default (bsp_MinThroughput s) (bo_MinThroughputRps pb),
     bsp_MaxQueueDepthSum := or_default (bsp_MaxQueueDepthSum s) (bo_MaxQueueDepthSum pb),
     bsp_MaxTopicBacklogDepthSum := or_default (bsp_MaxTopicBacklogDepthSum s) (bo_MaxTopicBacklogDepthSum pb),
     bsp_MaxTopicConsumerLagSum := or_default (bsp_MaxTopicConsumerLagSum s) (bo_MaxTopicConsumerLagSum pb),
     bsp_MaxQueueOldestMessageAgeMs := or_default (bsp_MaxQueueOldestMessageAgeMs s) (bo_MaxQueueOldestMessageAgeMs pb),
     bsp_MaxTopicOldestMessageAgeMs := or_default (bsp_MaxTopicOldestMessageAgeMs s) (bo_MaxTopicOldestMessageAgeMs pb),
     bsp_MaxQueueDropCount := or_default (bsp_MaxQueueDropCount s) (bo_MaxQueueDropCount pb),
     bsp_MaxTopicDropCount := or_default (bsp_MaxTopicDropCount s) (bo_MaxTopicDropCount pb),
     bsp_MaxQueueDlqCount := or_default (bsp_MaxQueueDlqCount s) (bo_MaxQueueDlqCount pb),
     bsp_MaxTopicDlqCount := or_default (bsp_MaxTopicDlqCount s) (bo_MaxTopicDlqCount pb),
     bsp_MinLocalityHitRate := or_default (bsp_MinLocalityHitRate s) (bo_MinLocalityHitRate pb),
     bsp_MaxCrossZoneRequestFraction := or_default (bsp_MaxCrossZoneRequestFraction s) (bo_MaxCrossZoneRequestFraction pb),
     bsp_MaxTopologyLatencyPenaltyMeanMs :=
       or_default (bsp_MaxTopologyLatencyPenaltyMeanMs s) (bo_MaxTopologyLatencyPenaltyMeanMs pb)\<rparr>"

definition merge_bands :: "batch_optimization_config \<Rightarrow> batch_spec \<Rightarrow> batch_spec" where
  "merge_bands pb s = s\<lparr>
     bsp_ServiceCPUBandLow := band_low (bsp_ServiceCPUBandLow s) (bo_ServiceCpuUtilizationBand pb),
     bsp_ServiceCPUBandHigh := band_high (bsp_ServiceCPUBandHigh s) (bo_ServiceCpuUtilizationBand pb),
     bsp_ServiceMemBandLow := band_low (bsp_ServiceMemBandLow s) (bo_ServiceMemoryUtilizationBand pb),
     bsp_ServiceMemBandHigh := band_high (bsp_ServiceMemBandHigh s) (bo_ServiceMemoryUtilizationBand pb),
     bsp_HostCPUBandLow := band_low (bsp_HostCPUBandLow s) (bo_HostCpuUtilizationBand pb),
     bsp_HostCPUBandHigh := band_high (bsp_HostCPUBandHigh s) (bo_HostCpuUtilizationBand pb),
     bsp_HostMemBandLow := band_low (bsp_HostMemBandLow s) (bo_HostMemoryUtilizationBand pb),
     bsp_HostMemBandHigh := band_high (bsp_HostMemBandHigh s) (bo_HostMemoryUtilizationBand pb)\<rparr>"

definition merge_bounds :: "batch_optimization_config \<Rightarrow> batch_spec \<Rightarrow> batch_spec" where
  "merge_bounds pb s = s\<lparr>
     bsp_MinHosts := or_default (bsp_MinHosts s) (bo_MinHosts pb),
     bsp_MaxHosts := or_default (bsp_MaxHosts s) (bo_MaxHosts pb),
     bsp_MinReplicasPerSvc := or_default (bsp_MinReplicasPerSvc s) (bo_MinReplicasPerService pb),
     bsp_MaxReplicasPerSvc := or_default (bsp_MaxReplicasPerSvc s) (bo_MaxReplicasPerService pb),
     bsp_MinCPUPerInst := or_default (bsp_MinCPUPerInst s) (bo_MinCpuCoresPerInstance pb),
     bsp_MaxCPUPerInst := or_default (bsp_MaxCPUPerInst s) (bo_MaxCpuCoresPerInstance pb),
     bsp_MinMemPerInst := or_default (bsp_MinMemPerInst s) (bo_MinMemoryMbPerInstance pb),
     bsp_MaxMemPerInst := or_default (bsp_MaxMemPerInst s) (bo_MaxMemoryMbPerInstance pb),
     bsp_MinHostCPUCores := or_default (bsp_MinHostCPUCores s) (bo_MinHostCpuCores pb),
     bsp_MaxHostCPUCores := or_default (bsp_MaxHostCPUCores s) (bo_MaxHostCpuCores pb),
     bsp_MinHostMemGB := or_default (bsp_MinHostMemGB s) (bo_MinHostMemoryGb pb),
     bsp_MaxHostMemGB := or_default (bsp_MaxHostMemGB s) (bo_MaxHostMemoryGb pb)\<rparr>"

definition merge_steps :: "batch_optimization_config \<Rightarrow> batch_spec \<Rightarrow> batch_spec" where
  "merge_steps pb s =
     (case bo_StepSizes pb of None \<Rightarrow> s | Some ss \<Rightarrow> s\<lparr>
        bsp_ReplicaStep := or_default (bsp_ReplicaStep s) (bss_ReplicaStep ss),
        bsp_ServiceCPURatio := or_default (bsp_ServiceCPURatio s) (bss_ServiceCpuRatio ss),
        bsp_ServiceMemRatio := or_default (bsp_ServiceMemRatio s) (bss_ServiceMemoryRatio ss),
        bsp_HostCountStep := or_default (bsp_HostCountStep s) (bss_HostCountStep ss),
        bsp_HostCPUStepCores := or_default (bsp_HostCPUStepCores s) (bss_HostCpuStepCores ss),
        bsp_HostMemStepGB := or_default (bsp_HostMemStepGB s) (bss_HostMemoryStepGb ss)\<rparr>)"

definition merge_search :: "batch_optimization_config \<Rightarrow> batch_spec \<Rightarrow> batch_spec" where
  "merge_search pb s = s\<lparr>
     bsp_BeamWidth := or_default (bsp_BeamWidth s) (bo_BeamWidth pb),
     bsp_MaxSearchDepth := or_default (bsp_MaxSearchDepth s) (bo_MaxSearchDepth pb),
     bsp_MaxNeighborsPerState := or_default (bsp_MaxNeighborsPerState s) (bo_MaxNeighborsPerState pb),
     bsp_ReevalPerCandidate := or_default (bsp_ReevalPerCandidate s) (bo_ReevaluationsPerCandidate pb),
     bsp_InfeasibleBeamWidth := or_default (bsp_InfeasibleBeamWidth s) (bo_InfeasibleBeamWidth pb),
     bsp_CostWeights := (case bo_CostWeights pb of None \<Rightarrow> bsp_CostWeights s | cw \<Rightarrow> cw),
     bsp_PenaltyWeights := (case bo_PenaltyWeights pb of None \<Rightarrow> bsp_PenaltyWeights s | pw \<Rightarrow> pw),
     bsp_EnableLocalRefinement := (case bo_EnableLocalRefinement pb of None \<Rightarrow> bsp_EnableLocalRefinement s | Some b \<Rightarrow> b),
     bsp_DeterministicCandidateSeeds :=
       (case bo_DeterministicCandidateSeeds pb of None \<Rightarrow> bsp_DeterministicCandidateSeeds s | Some b \<Rightarrow> b)\<rparr>"

definition merge_actions :: "batch_optimization_config \<Rightarrow> batch_spec \<Rightarrow> go_error + batch_spec" where
  "merge_actions pb s0 =
     (let s = s0\<lparr>bsp_SearchStrategy := (if bo_SearchStrategy pb \<noteq> BATCH_SEARCH_STRATEGY_UNSPECIFIED
                                      then bo_SearchStrategy pb else bsp_SearchStrategy s0)\<rparr>;
          acts = remdups (filter (\<lambda>a. a \<noteq> BATCH_SCALING_ACTION_UNSPECIFIED) (bo_AllowedActions pb))
      in if bo_AllowedActions pb = [] then Inr s
         else if acts = [] then Inl (Err ''allowed_actions has no valid entries'')
         else Inr (s\<lparr>bsp_AllowedActions := acts, bsp_AllowedActionsOrdered := orderedActionsFromMap acts\<rparr>))"

definition merge_freeze :: "batch_optimization_config \<Rightarrow> batch_spec \<Rightarrow> batch_spec" where
  "merge_freeze pb s = s\<lparr>
     bsp_FreezeWorkload := (case bo_FreezeWorkload pb of None \<Rightarrow> bsp_FreezeWorkload s | Some b \<Rightarrow> b),
     bsp_FreezePolicies := (case bo_FreezePolicies pb of None \<Rightarrow> bsp_FreezePolicies s | Some b \<Rightarrow> b)\<rparr>"

definition validateBatchSpec :: "batch_spec \<Rightarrow> go_error + batch_spec" where
  "validateBatchSpec s = err_bind (err_checks
     [(bsp_MaxP95Ms s \<le> 0 \<or> bsp_MaxP99Ms s \<le> 0, ''max_p95_latency_ms and max_p99_latency_ms must be > 0''),
      (bsp_MaxErrorRate s \<le> 0 \<or> bsp_MaxErrorRate s > 1, ''max_error_rate must be in (0,1]''),
      (bsp_MaxQueueDepthSum s < 0 \<or> bsp_MaxTopicBacklogDepthSum s < 0 \<or> bsp_MaxTopicConsumerLagSum s < 0,
         ''broker backlog/lag limits cannot be negative''),
      (bsp_MaxQueueOldestMessageAgeMs s < 0 \<or> bsp_MaxTopicOldestMessageAgeMs s < 0,
         ''broker oldest message age limits cannot be negative''),
      (bsp_MaxQueueDropCount s < 0 \<or> bsp_MaxTopicDropCount s < 0 \<or> bsp_MaxQueueDlqCount s < 0 \<or> bsp_MaxTopicDlqCount s < 0,
         ''broker drop/dlq limits cannot be negative''),
      (bsp_MinLocalityHitRate s < 0 \<or> bsp_MinLocalityHitRate s > 1, ''min_locality_hit_rate must be in [0,1]''),
      (bsp_MaxCrossZoneRequestFraction s < 0 \<or> bsp_MaxCrossZoneRequestFraction s > 1,
         ''max_cross_zone_request_fraction must be in [0,1]''),
      (bsp_MaxTopologyLatencyPenaltyMeanMs s < 0, ''max_topology_latency_penalty_mean_ms cannot be negative''),
      (bsp_ServiceCPUBandLow s \<ge> bsp_ServiceCPUBandHigh s \<or> bsp_ServiceMemBandLow s \<ge> bsp_ServiceMemBandHigh s,
         ''invalid service utilization bands''),
      (bsp_HostCPUBandLow s \<ge> bsp_HostCPUBandHigh s \<or> bsp_HostMemBandLow s \<ge> bsp_HostMemBandHigh s,
         ''invalid host utilization bands''),
      (bsp_MinHosts s > bsp_MaxHosts s, ''min_hosts > max_hosts''),
      (bsp_MinReplicasPerSvc s > bsp_MaxReplicasPerSvc s, ''min_replicas_per_service > max_replicas_per_service''),
      (bsp_MinCPUPerInst s \<ge> bsp_MaxCPUPerInst s \<or> bsp_MinMemPerInst s \<ge> bsp_MaxMemPerInst s,
         ''invalid per-instance min/max''),
      (bsp_MinHostCPUCores s > bsp_MaxHostCPUCores s \<or> bsp_MinHostMemGB s > bsp_MaxHostMemGB s, ''invalid host min/max''),
      (bsp_BeamWidth s < 1 \<or> bsp_MaxSearchDepth s < 1, ''beam_width and max_search_depth must be >= 1''),
      (bsp_MaxNeighborsPerState s < 1, ''max_neighbors_per_state must be >= 1'')])
     (\<lambda>_. Inr (s\<lparr>bsp_InfeasibleBeamWidth := max 1 (bsp_InfeasibleBeamWidth s),
                   bsp_BeamWidth := min 256 (bsp_BeamWidth s), bsp_MaxSearchDepth := min 64 (bsp_MaxSearchDepth s)\<rparr>))"

definition ParseBatchSpec :: "batch_optimization_config option \<Rightarrow> scenario option \<Rightarrow> go_error + batch_spec" where
  "ParseBatchSpec pb base =
     (case pb of None \<Rightarrow> Inl (Err ''batch optimization config is nil'') | Some pb \<Rightarrow>
        err_bind (merge_actions pb (DefaultBatchSpec base)) (\<lambda>s.
        validateBatchSpec ((merge_search pb (merge_steps pb (merge_bounds pb (merge_bands pb
          (merge_limits pb (merge_freeze pb s))))))\<lparr>bsp_Proto := Some pb\<rparr>)))"

definition RefinementSpec :: "batch_spec \<Rightarrow> batch_spec" where
  "RefinementSpec s =
     (let n = (if bsp_MaxNeighborsPerState s > 8 then go_div (bsp_MaxNeighborsPerState s) 2 else bsp_MaxNeighborsPerState s)
      in s\<lparr>
        bsp_ReplicaStep := max 1 (go_div (bsp_ReplicaStep s) 2),
        bsp_ServiceCPURatio := max (fl (1 / 100)) (fmul (bsp_ServiceCPURatio s) (1 / 2)),
        bsp_ServiceMemRatio := max (fl (1 / 100)) (fmul (bsp_ServiceMemRatio s) (1 / 2)),
        bsp_HostCPUStepCores := (if bsp_HostCPUStepCores s > 1 then go_div (bsp_HostCPUStepCores s) 2 else bsp_HostCPUStepCores s),
        bsp_HostMemStepGB := (if bsp_HostMemStepGB s > 1 then go_div (bsp_HostMemStepGB s) 2 else bsp_HostMemStepGB s),
        bsp_MaxNeighborsPerState := max 8 n\<rparr>)"


subsection \<open>What a parsed specification promises\<close>

text \<open>
  The specification the search relies on: the latency and error limits are positive, every lower bound is below its upper
  bound, steps are positive, the beam and the depth are within the server's caps.
\<close>

definition batch_spec_ok :: "batch_spec \<Rightarrow> bool" where
  "batch_spec_ok s \<longleftrightarrow>
     0 < bsp_MaxP95Ms s \<and> 0 < bsp_MaxP99Ms s \<and> 0 < bsp_MaxErrorRate s \<and> bsp_MaxErrorRate s \<le> 1 \<and>
     0 \<le> bsp_MinLocalityHitRate s \<and> bsp_MinLocalityHitRate s \<le> 1 \<and>
     0 \<le> bsp_MaxCrossZoneRequestFraction s \<and> bsp_MaxCrossZoneRequestFraction s \<le> 1 \<and>
     bsp_ServiceCPUBandLow s < bsp_ServiceCPUBandHigh s \<and> bsp_ServiceMemBandLow s < bsp_ServiceMemBandHigh s \<and>
     bsp_HostCPUBandLow s < bsp_HostCPUBandHigh s \<and> bsp_HostMemBandLow s < bsp_HostMemBandHigh s \<and>
     bsp_MinHosts s \<le> bsp_MaxHosts s \<and> bsp_MinReplicasPerSvc s \<le> bsp_MaxReplicasPerSvc s \<and>
     bsp_MinCPUPerInst s < bsp_MaxCPUPerInst s \<and> bsp_MinMemPerInst s < bsp_MaxMemPerInst s \<and>
     bsp_MinHostCPUCores s \<le> bsp_MaxHostCPUCores s \<and> bsp_MinHostMemGB s \<le> bsp_MaxHostMemGB s \<and>
     1 \<le> bsp_ReplicaStep s \<and> 0 < bsp_ServiceCPURatio s \<and> 0 < bsp_ServiceMemRatio s \<and>
     1 \<le> bsp_HostCPUStepCores s \<and> 1 \<le> bsp_HostMemStepGB s \<and>
     1 \<le> bsp_BeamWidth s \<and> bsp_BeamWidth s \<le> 256 \<and> 1 \<le> bsp_MaxSearchDepth s \<and> bsp_MaxSearchDepth s \<le> 64 \<and>
     1 \<le> bsp_MaxNeighborsPerState s \<and> 1 \<le> bsp_ReevalPerCandidate s \<and> 1 \<le> bsp_InfeasibleBeamWidth s \<and>
     set (bsp_AllowedActionsOrdered s) \<subseteq> set (bsp_AllowedActions s) \<and> distinct (bsp_AllowedActionsOrdered s)"

lemma or_default_pos: "0 < d \<Longrightarrow> 0 < or_default d x"
  by (simp add: or_default_def)

lemma or_default_ge1: "(1::int) \<le> d \<Longrightarrow> 1 \<le> or_default d x"
  by (auto simp: or_default_def)

lemma or_default_client [simp]: "0 < x \<Longrightarrow> or_default d x = x"
  by (simp add: or_default_def)

lemma fl_tenth: "0 < fl (1 / 10)" "0 < fl (1 / 100)"
  by code_simp+

lemma enum_order_distinct: "distinct batchScalingActionEnumOrder"
  by (simp add: batchScalingActionEnumOrder_def)

lemma orderedActionsFromMap_ok: "set (orderedActionsFromMap m) \<subseteq> set m" "distinct (orderedActionsFromMap m)"
  unfolding orderedActionsFromMap_def using enum_order_distinct by auto

text \<open>The fields that keep their default until the client overrides them.\<close>

definition steps_ok :: "batch_spec \<Rightarrow> bool" where
  "steps_ok s \<longleftrightarrow> 1 \<le> bsp_ReplicaStep s \<and> 0 < bsp_ServiceCPURatio s \<and> 0 < bsp_ServiceMemRatio s \<and>
     1 \<le> bsp_HostCPUStepCores s \<and> 1 \<le> bsp_HostMemStepGB s \<and> 1 \<le> bsp_ReevalPerCandidate s \<and>
     set (bsp_AllowedActionsOrdered s) \<subseteq> set (bsp_AllowedActions s) \<and> distinct (bsp_AllowedActionsOrdered s)"

lemma steps_ok_bounds: "steps_ok (initBoundsFromBaseline s base) = steps_ok s"
  by (simp add: initBoundsFromBaseline_def steps_ok_def Let_def split: option.splits list.splits)

lemma steps_ok_default: "steps_ok (DefaultBatchSpec base)"
  unfolding DefaultBatchSpec_def steps_ok_bounds
  by (simp add: steps_ok_def fl_tenth orderedActionsFromMap_ok)

lemma steps_ok_actions: "merge_actions pb s = Inr s' \<Longrightarrow> steps_ok s \<Longrightarrow> steps_ok s'"
  by (auto simp: merge_actions_def Let_def steps_ok_def orderedActionsFromMap_ok(2) split: if_splits)
    (auto simp: orderedActionsFromMap_def)

lemma steps_ok_merge:
  "steps_ok (merge_freeze pb s) = steps_ok s" "steps_ok (merge_limits pb s) = steps_ok s"
  "steps_ok (merge_bands pb s) = steps_ok s" "steps_ok (merge_bounds pb s) = steps_ok s"
  "steps_ok (s\<lparr>bsp_Proto := p\<rparr>) = steps_ok s"
  by (simp_all add: steps_ok_def merge_freeze_def merge_limits_def merge_bands_def merge_bounds_def)

lemma steps_ok_search: "steps_ok s \<Longrightarrow> steps_ok (merge_search pb s)"
  by (simp add: steps_ok_def merge_search_def or_default_ge1)

lemma steps_ok_steps: "steps_ok s \<Longrightarrow> steps_ok (merge_steps pb s)"
  by (simp add: steps_ok_def merge_steps_def or_default_ge1 or_default_pos split: option.splits)

lemma validateBatchSpec_ok: "validateBatchSpec s = Inr s' \<Longrightarrow> steps_ok s \<Longrightarrow> batch_spec_ok s'"
  unfolding validateBatchSpec_def err_bind_Inr_iff err_checks_ok steps_ok_def
  by (elim exE conjE, drule Inr_inject, drule sym, hypsubst) (simp add: batch_spec_ok_def not_le not_less)

lemma go_div_half: "1 < n \<Longrightarrow> 1 \<le> go_div n 2 \<and> go_div n 2 \<le> n" "0 \<le> n \<Longrightarrow> go_div n 2 \<le> n"
  by (auto simp: go_div_def sgn_if)

lemma RefinementSpec_ok: "batch_spec_ok s \<Longrightarrow> batch_spec_ok (RefinementSpec s)"
  using fl_tenth by (simp add: RefinementSpec_def batch_spec_ok_def Let_def less_max_iff_disj go_div_half)

text \<open>The refinement pass takes no larger steps and keeps every limit of the search.\<close>

lemma RefinementSpec_finer:
  assumes "1 \<le> bsp_ReplicaStep s"
  shows "bsp_ReplicaStep (RefinementSpec s) \<le> bsp_ReplicaStep s"
    "1 \<le> bsp_HostCPUStepCores s \<Longrightarrow> bsp_HostCPUStepCores (RefinementSpec s) \<le> bsp_HostCPUStepCores s"
    "1 \<le> bsp_HostMemStepGB s \<Longrightarrow> bsp_HostMemStepGB (RefinementSpec s) \<le> bsp_HostMemStepGB s"
  using assms by (simp_all add: RefinementSpec_def Let_def go_div_half)

lemma ParseBatchSpec_valid:
  assumes "ParseBatchSpec pb base = Inr s"
  shows "batch_spec_ok s"
proof -
  obtain q s0 where q: "pb = Some q" "merge_actions q (DefaultBatchSpec base) = Inr s0"
    "validateBatchSpec ((merge_search q (merge_steps q (merge_bounds q (merge_bands q
       (merge_limits q (merge_freeze q s0))))))\<lparr>bsp_Proto := Some q\<rparr>) = Inr s"
    using assms by (auto simp: ParseBatchSpec_def err_bind_Inr_iff split: option.splits)
  show ?thesis
    by (rule validateBatchSpec_ok [OF q(3)])
      (simp add: steps_ok_merge steps_ok_search steps_ok_steps steps_ok_actions [OF q(2) steps_ok_default])
qed

end
