(* ===== verification/Improve_Objective.thy ===== *)
theory Improve_Objective
  imports Batch_Spec
begin

text \<open>
  The objectives of the optimizer and the comparison of runs: \<open>internal/improvement/objective.go\<close>,
  \<open>error_rate.go\<close> and \<open>comparison.go\<close>. The interface \<open>ObjectiveFunction\<close> is the datatype of its
  implementations; \<open>Evaluate\<close> and \<open>Direction\<close> are its methods.
\<close>

definition highPenaltyScore :: float64 where
  "highPenaltyScore = 1000000000"

definition cpuCostWeight :: float64 where
  "cpuCostWeight = fl (4 / 10)"

definition memoryCostWeight :: float64 where
  "memoryCostWeight = fl (3 / 10)"

definition replicaCostWeight :: float64 where
  "replicaCostWeight = fl (3 / 10)"

definition defaultServiceCPUCores :: float64 where
  "defaultServiceCPUCores = 1"

definition defaultServiceMemoryMB :: float64 where
  "defaultServiceMemoryMB = 512"

record utilization_target =
  ut_Low :: float64
  ut_High :: float64

definition ut_Valid :: "utilization_target option \<Rightarrow> bool" where
  "ut_Valid u = (case u of None \<Rightarrow> False | Some u \<Rightarrow> ut_Low u \<ge> 0 \<and> ut_High u \<le> 1 \<and> ut_Low u < ut_High u)"

definition scoreForUtilBand :: "float64 \<Rightarrow> float64 \<Rightarrow> float64 \<Rightarrow> float64" where
  "scoreForUtilBand u low high = (if u \<ge> low \<and> u \<le> high then 0 else if u < low then fsub low u else fsub u high)"

datatype objective =
    P95LatencyObjective
  | P99LatencyObjective
  | MeanLatencyObjective
  | ThroughputObjective
  | ErrorRateObjective
  | CostObjective
  | CPUUtilizationObjective float64 float64
  | MemoryUtilizationObjective float64 float64

definition NewObjectiveFunction :: "string \<Rightarrow> utilization_target option \<Rightarrow> go_error + objective" where
  "NewObjectiveFunction objType utilTarget =
     (let (low, high) = (if ut_Valid utilTarget then (ut_Low (the utilTarget), ut_High (the utilTarget)) else (0, 0))
      in if objType = ''p95_latency_ms'' then Inr P95LatencyObjective
         else if objType = ''p99_latency_ms'' then Inr P99LatencyObjective
         else if objType = ''mean_latency_ms'' then Inr MeanLatencyObjective
         else if objType = ''throughput_rps'' then Inr ThroughputObjective
         else if objType = ''error_rate'' then Inr ErrorRateObjective
         else if objType = ''cost'' then Inr CostObjective
         else if objType = ''cpu_utilization'' then Inr (CPUUtilizationObjective low high)
         else if objType = ''memory_utilization'' then Inr (MemoryUtilizationObjective low high)
         else Inl (Err (''unknown objective type: '' @ objType)))"

fun Name :: "objective \<Rightarrow> string" where
  "Name P95LatencyObjective = ''p95_latency_ms''"
| "Name P99LatencyObjective = ''p99_latency_ms''"
| "Name MeanLatencyObjective = ''mean_latency_ms''"
| "Name ThroughputObjective = ''throughput_rps''"
| "Name ErrorRateObjective = ''error_rate''"
| "Name CostObjective = ''cost''"
| "Name (CPUUtilizationObjective _ _) = ''cpu_utilization''"
| "Name (MemoryUtilizationObjective _ _) = ''memory_utilization''"

fun Direction :: "objective \<Rightarrow> bool" where
  "Direction ThroughputObjective = False"
| "Direction _ = True"

definition UserVisibleErrorRate :: "run_metrics_pb option \<Rightarrow> float64" where
  "UserVisibleErrorRate m =
     (case m of None \<Rightarrow> 0 | Some m \<Rightarrow>
        if xm_IngressRequests m > 0 then fdiv (of_int64 (xm_IngressFailedRequests m)) (of_int64 (xm_IngressRequests m))
        else if xm_TotalRequests m > 0 then fdiv (of_int64 (xm_FailedRequests m)) (of_int64 (xm_TotalRequests m))
        else 0)"

definition client_service :: "service_metrics_pb \<Rightarrow> bool" where
  "client_service svc = has_prefix (xs_ServiceName svc) ''client''"

definition maxServiceUtilFromProto :: "(service_metrics_pb \<Rightarrow> float64) \<Rightarrow> run_metrics_pb \<Rightarrow> float64 \<times> int" where
  "maxServiceUtilFromProto util m =
     foldl (\<lambda>(maxUtil, n) svc. if client_service svc then (maxUtil, n)
              else (if util svc > maxUtil then util svc else maxUtil, n + 1)) (0, 0) (xm_ServiceMetrics m)"

definition util_score :: "(service_metrics_pb \<Rightarrow> float64) \<Rightarrow> float64 \<Rightarrow> float64 \<Rightarrow> run_metrics_pb \<Rightarrow> float64" where
  "util_score util low high m =
     (let (maxUtil, n) = maxServiceUtilFromProto util m
      in if n = 0 then highPenaltyScore
         else if low < high \<and> low \<ge> 0 \<and> high \<le> 1 then scoreForUtilBand maxUtil low high
         else maxUtil)"

definition cost_of_metrics :: "run_metrics_pb \<Rightarrow> float64" where
  "cost_of_metrics m =
     (let svcs = xm_ServiceMetrics m;
          totalCPU = foldl (\<lambda>t svc. fadd t (xs_CpuUtilization svc)) 0 svcs;
          totalMemory = foldl (\<lambda>t svc. fadd t (xs_MemoryUtilization svc)) 0 svcs;
          totalReplicas = foldl (\<lambda>t svc. wrap32 (t + xs_ActiveReplicas svc)) 0 svcs;
          count = of_int64 (int (length svcs));
          avgCPU = (if svcs = [] then 0 else fdiv totalCPU count);
          avgMemory = (if svcs = [] then 0 else fdiv totalMemory count)
      in fadd (fadd (fmul avgCPU cpuCostWeight) (fmul avgMemory memoryCostWeight))
              (fmul (of_int64 totalReplicas) replicaCostWeight))"

definition positive_or_penalty :: "float64 \<Rightarrow> float64" where
  "positive_or_penalty x = (if x \<le> 0 then highPenaltyScore else x)"

fun score_of :: "objective \<Rightarrow> run_metrics_pb \<Rightarrow> float64" where
  "score_of P95LatencyObjective m = positive_or_penalty (xm_LatencyP95Ms m)"
| "score_of P99LatencyObjective m = positive_or_penalty (xm_LatencyP99Ms m)"
| "score_of MeanLatencyObjective m = positive_or_penalty (xm_LatencyMeanMs m)"
| "score_of ThroughputObjective m = (if xm_ThroughputRps m \<le> 0 then highPenaltyScore else - xm_ThroughputRps m)"
| "score_of ErrorRateObjective m = UserVisibleErrorRate (Some m)"
| "score_of CostObjective m = cost_of_metrics m"
| "score_of (CPUUtilizationObjective low high) m = util_score xs_CpuUtilization low high m"
| "score_of (MemoryUtilizationObjective low high) m = util_score xs_MemoryUtilization low high m"

definition Evaluate :: "objective \<Rightarrow> run_metrics_pb option \<Rightarrow> go_error + float64" where
  "Evaluate obj metrics = (case metrics of None \<Rightarrow> Inl (Err ''invalid metrics: metrics is nil'') | Some m \<Rightarrow> Inr (score_of obj m))"

subsection \<open>The cost of the infrastructure\<close>

definition effective_replicas :: "service \<Rightarrow> float64" where
  "effective_replicas svc = (if of_int64 (sv_Replicas svc) < 1 then 1 else of_int64 (sv_Replicas svc))"

definition effective_cpu :: "service \<Rightarrow> float64" where
  "effective_cpu svc = (if sv_CPUCores svc \<le> 0 then defaultServiceCPUCores else sv_CPUCores svc)"

definition effective_memory :: "service \<Rightarrow> float64" where
  "effective_memory svc = (if sv_MemoryMB svc \<le> 0 then defaultServiceMemoryMB else sv_MemoryMB svc)"

definition sum_over :: "('a \<Rightarrow> float64) \<Rightarrow> 'a list \<Rightarrow> float64" where
  "sum_over f xs = foldl (\<lambda>t x. fadd t (f x)) 0 xs"

definition EvaluateInfrastructureCost :: "scenario option \<Rightarrow> float64" where
  "EvaluateInfrastructureCost scenario =
     (case scenario of None \<Rightarrow> highPenaltyScore | Some s \<Rightarrow>
        if sc_Services s = [] then highPenaltyScore
        else let svcs = sc_Services s;
                 totalCPU = sum_over (\<lambda>svc. fmul (effective_replicas svc) (effective_cpu svc)) svcs;
                 totalMemoryGB = sum_over (\<lambda>svc. fmul (effective_replicas svc) (fdiv (effective_memory svc) 1024)) svcs;
                 totalReplicas = sum_over effective_replicas svcs
             in fadd (fadd (fmul totalCPU cpuCostWeight) (fmul totalMemoryGB memoryCostWeight))
                     (fmul totalReplicas replicaCostWeight))"

subsection \<open>Comparing runs\<close>

record resource_comparison =
  rco_CPUUtilDiff :: float64
  rco_MemoryUtilDiff :: float64
  rco_ReplicaDiff :: int

record metrics_comparison =
  mc_ObjectiveDiff :: float64
  mc_Improvement :: bool
  mc_P50Diff :: float64
  mc_P95Diff :: float64
  mc_P99Diff :: float64
  mc_MeanDiff :: float64
  mc_ThroughputDiff :: float64
  mc_ErrorRateDiff :: float64
  mc_ResourceDiff :: resource_comparison

definition aggregateResources :: "run_metrics_pb \<Rightarrow> float64 \<times> float64 \<times> int" where
  "aggregateResources m =
     (let svcs = xm_ServiceMetrics m; count = of_int64 (int (length svcs))
      in if svcs = [] then (0, 0, 0)
         else (fdiv (sum_over xs_CpuUtilization svcs) count, fdiv (sum_over xs_MemoryUtilization svcs) count,
               foldl (\<lambda>t svc. wrap32 (t + xs_ActiveReplicas svc)) 0 svcs))"

definition compareResources :: "run_metrics_pb \<Rightarrow> run_metrics_pb \<Rightarrow> resource_comparison" where
  "compareResources m1 m2 =
     (let (avgCPU1, avgMemory1, totalReplicas1) = aggregateResources m1;
          (avgCPU2, avgMemory2, totalReplicas2) = aggregateResources m2
      in \<lparr>rco_CPUUtilDiff = fsub avgCPU2 avgCPU1, rco_MemoryUtilDiff = fsub avgMemory2 avgMemory1,
          rco_ReplicaDiff = wrap32 (totalReplicas2 - totalReplicas1)\<rparr>)"

definition CompareMetrics ::
  "run_metrics_pb option \<Rightarrow> run_metrics_pb option \<Rightarrow> objective option \<Rightarrow> go_error + metrics_comparison" where
  "CompareMetrics metrics1 metrics2 objective =
     (case metrics1 of None \<Rightarrow> Inl (Err ''metrics1 is nil'') | Some m1 \<Rightarrow>
      case metrics2 of None \<Rightarrow> Inl (Err ''metrics2 is nil'') | Some m2 \<Rightarrow>
      case objective of None \<Rightarrow> Inl (Err ''objective function is nil'') | Some obj \<Rightarrow>
        err_bind (Evaluate obj metrics1) (\<lambda>score1. err_bind (Evaluate obj metrics2) (\<lambda>score2.
        Inr \<lparr>mc_ObjectiveDiff = fsub score2 score1,
             mc_Improvement = (if \<not> Direction obj then score2 > score1 else score2 < score1),
             mc_P50Diff = fsub (xm_LatencyP50Ms m2) (xm_LatencyP50Ms m1),
             mc_P95Diff = fsub (xm_LatencyP95Ms m2) (xm_LatencyP95Ms m1),
             mc_P99Diff = fsub (xm_LatencyP99Ms m2) (xm_LatencyP99Ms m1),
             mc_MeanDiff = fsub (xm_LatencyMeanMs m2) (xm_LatencyMeanMs m1),
             mc_ThroughputDiff = fsub (xm_ThroughputRps m2) (xm_ThroughputRps m1),
             mc_ErrorRateDiff = fsub (UserVisibleErrorRate metrics2) (UserVisibleErrorRate metrics1),
             mc_ResourceDiff = compareResources m1 m2\<rparr>)))"

definition fl_mean :: "float64 list \<Rightarrow> float64" where
  "fl_mean values = (if values = [] then 0 else fdiv (foldl fadd 0 values) (of_int64 (int (length values))))"

definition fl_variance :: "float64 list \<Rightarrow> float64 \<Rightarrow> float64" where
  "fl_variance values mean =
     (if values = [] then 0
      else fdiv (foldl (\<lambda>t v. fadd t (fmul (fsub v mean) (fsub v mean))) 0 values) (of_int64 (int (length values))))"

definition determineTrend :: "float64 list \<Rightarrow> string" where
  "determineTrend scores =
     (if length scores < 2 then ''stable''
      else let n = of_int64 (int (length scores));
               points = enumerate 0 scores;
               sumX = foldl (\<lambda>t (i, s). fadd t (of_int64 (int i))) 0 points;
               sumY = foldl (\<lambda>t (i, s). fadd t s) 0 points;
               sumXY = foldl (\<lambda>t (i, s). fadd t (fmul (of_int64 (int i)) s)) 0 points;
               sumX2 = foldl (\<lambda>t (i, s). fadd t (fmul (of_int64 (int i)) (of_int64 (int i)))) 0 points;
               slope = fdiv (fsub (fmul n sumXY) (fmul sumX sumY)) (fsub (fmul n sumX2) (fmul sumX sumX))
           in if slope < - fl (1 / 100) then ''improving'' else if slope > fl (1 / 100) then ''degrading'' else ''stable'')"

record run_metrics_with_id =
  rmi_RunID :: string
  rmi_Metrics :: "run_metrics_pb option"
  rmi_Score :: float64

record run_history_comparison =
  rhc_Runs :: "run_metrics_with_id list"
  rhc_BestRunID :: string
  rhc_WorstRunID :: string
  rhc_ImprovementTrend :: string
  rhc_AverageScore :: float64
  rhc_ScoreVariance :: float64

fun eval_runs :: "objective \<Rightarrow> run_metrics_with_id list \<Rightarrow> go_error + run_metrics_with_id list" where
  "eval_runs obj [] = Inr []"
| "eval_runs obj (r # rs) =
     (case Evaluate obj (rmi_Metrics r) of
        Inl _ \<Rightarrow> Inl (Err ''failed to evaluate objective for run %s: %w'')
      | Inr score \<Rightarrow> err_bind (eval_runs obj rs) (\<lambda>rest. Inr (r\<lparr>rmi_Score := score\<rparr> # rest)))"

text \<open>The index of the first element that is strictly better than everything before it, from a starting one.\<close>

fun best_index :: "(float64 \<Rightarrow> float64 \<Rightarrow> bool) \<Rightarrow> nat \<Rightarrow> float64 list \<Rightarrow> nat \<Rightarrow> float64 \<Rightarrow> nat" where
  "best_index better i [] k best = k"
| "best_index better i (s # ss) k best =
     (if better s best then best_index better (Suc i) ss i s else best_index better (Suc i) ss k best)"

definition CompareRunHistory ::
  "run_metrics_with_id list \<Rightarrow> objective option \<Rightarrow> go_error + run_history_comparison" where
  "CompareRunHistory runs objective =
     (if runs = [] then Inl (Err ''no runs provided'')
      else case objective of None \<Rightarrow> Inl (Err ''objective function is nil'') | Some obj \<Rightarrow>
        err_bind (eval_runs obj runs) (\<lambda>scored.
        let scores = map rmi_Score scored; avg = fl_mean scores;
            bestIdx = best_index (\<lambda>a b. a < b) 0 scores 0 (hd scores);
            worstIdx = best_index (\<lambda>a b. a > b) 0 scores 0 (hd scores)
        in Inr \<lparr>rhc_Runs = scored, rhc_BestRunID = rmi_RunID (scored ! bestIdx), rhc_WorstRunID = rmi_RunID (scored ! worstIdx),
                rhc_ImprovementTrend = determineTrend scores, rhc_AverageScore = avg,
                rhc_ScoreVariance = fl_variance scores avg\<rparr>))"

definition GetImprovementPercentage :: "float64 \<Rightarrow> float64 \<Rightarrow> bool \<Rightarrow> float64" where
  "GetImprovementPercentage score1 score2 minimize =
     (if score1 = 0 then 0
      else let diff = fsub score2 score1
           in if minimize then fmul (- fdiv diff score1) 100 else fmul (fdiv diff score1) 100)"

definition IsSignificantImprovement :: "metrics_comparison option \<Rightarrow> float64 \<Rightarrow> bool" where
  "IsSignificantImprovement comparison thresholdPercent =
     (case comparison of None \<Rightarrow> False
      | Some c \<Rightarrow> mc_Improvement c \<and> \<bar>mc_ObjectiveDiff c\<bar> \<ge> thresholdPercent)"

subsection \<open>Facts about objectives\<close>

lemma Evaluate_Some [simp]: "Evaluate obj (Some m) = Inr (score_of obj m)"
  by (simp add: Evaluate_def)

lemma Evaluate_Inr_iff: "Evaluate obj m = Inr s \<longleftrightarrow> (\<exists>x. m = Some x \<and> s = score_of obj x)"
  by (cases m) (auto simp: Evaluate_def)

lemma Direction_iff: "Direction obj \<longleftrightarrow> obj \<noteq> ThroughputObjective"
  by (cases obj) auto

lemma scoreForUtilBand_nonneg: "0 \<le> scoreForUtilBand u low high"
  by (simp add: scoreForUtilBand_def fsub_nonneg)

lemma foldl_fadd_mono:
  "list_all2 (\<lambda>x y. f x \<le> g y) xs ys \<Longrightarrow> a \<le> b \<Longrightarrow>
   foldl (\<lambda>t x. fadd t (f x)) a xs \<le> foldl (\<lambda>t y. fadd t (g y)) b ys"
  by (induction xs ys arbitrary: a b rule: list_all2_induct) (auto simp: fadd_mono)

lemma sum_over_mono: "list_all2 (\<lambda>x y. f x \<le> g y) xs ys \<Longrightarrow> sum_over f xs \<le> sum_over g ys"
  by (simp add: sum_over_def foldl_fadd_mono)

lemma sum_over_nonneg: "(\<And>x. x \<in> set xs \<Longrightarrow> 0 \<le> f x) \<Longrightarrow> 0 \<le> sum_over f xs"
proof -
  have "0 \<le> a \<Longrightarrow> 0 \<le> foldl (\<lambda>t x. fadd t (f x)) a xs" if "\<And>x. x \<in> set xs \<Longrightarrow> 0 \<le> f x" for a
    using that by (induction xs arbitrary: a) (auto simp: fadd_nonneg)
  then show "(\<And>x. x \<in> set xs \<Longrightarrow> 0 \<le> f x) \<Longrightarrow> ?thesis" by (simp add: sum_over_def)
qed

lemma effective_pos: "1 \<le> effective_replicas svc" "0 < effective_cpu svc" "0 < effective_memory svc"
  by (auto simp: effective_replicas_def effective_cpu_def effective_memory_def defaultServiceCPUCores_def defaultServiceMemoryMB_def)

lemma cost_weights_nonneg: "0 \<le> cpuCostWeight" "0 \<le> memoryCostWeight" "0 \<le> replicaCostWeight"
  by (simp_all add: cpuCostWeight_def memoryCostWeight_def replicaCostWeight_def fl_nonneg)

text \<open>A service is no larger than another when no allocation of it is.\<close>

definition no_larger :: "service \<Rightarrow> service \<Rightarrow> bool" where
  "no_larger a b \<longleftrightarrow> effective_replicas a \<le> effective_replicas b \<and> effective_cpu a \<le> effective_cpu b \<and>
     effective_memory a \<le> effective_memory b"

lemma weighted_allocation_mono:
  assumes "\<And>x. 0 \<le> f x" "\<And>x y. no_larger x y \<Longrightarrow> f x \<le> f y" "list_all2 no_larger xs ys" "0 \<le> w"
  shows "fmul (sum_over f xs) w \<le> fmul (sum_over f ys) w"
  using sum_over_mono [of f f xs ys] assms list_all2_mono [OF assms(3), of "\<lambda>x y. f x \<le> f y"]
  by (auto intro!: fmul_mono sum_over_nonneg)

lemma infrastructure_cost_mono_aux:
  assumes "list_all2 no_larger (sc_Services s) (sc_Services t)"
  shows "EvaluateInfrastructureCost (Some s) \<le> EvaluateInfrastructureCost (Some t)"
proof -
  have e: "sc_Services s = [] \<longleftrightarrow> sc_Services t = []" using assms by (auto dest: list_all2_lengthD)
  have gb: "fdiv a 1024 \<le> fdiv b 1024" if "a \<le> b" for a b :: float64 using that by (rule fdiv_mono) simp
  have nn: "0 \<le> effective_replicas x" "0 \<le> effective_cpu x" "0 \<le> effective_memory x" for x
    using effective_pos [of x] by linarith+
  note m = weighted_allocation_mono [OF _ _ assms]
  have "fmul (sum_over (\<lambda>svc. fmul (effective_replicas svc) (effective_cpu svc)) (sc_Services s)) cpuCostWeight
      \<le> fmul (sum_over (\<lambda>svc. fmul (effective_replicas svc) (effective_cpu svc)) (sc_Services t)) cpuCostWeight"
    by (rule m) (auto simp: no_larger_def nn cost_weights_nonneg intro!: fmul_nonneg fmul_mono)
  moreover have "fmul (sum_over (\<lambda>svc. fmul (effective_replicas svc) (fdiv (effective_memory svc) 1024)) (sc_Services s)) memoryCostWeight
      \<le> fmul (sum_over (\<lambda>svc. fmul (effective_replicas svc) (fdiv (effective_memory svc) 1024)) (sc_Services t)) memoryCostWeight"
    by (rule m) (auto simp: no_larger_def nn cost_weights_nonneg intro!: fmul_nonneg fmul_mono gb fdiv_nonneg)
  moreover have "fmul (sum_over effective_replicas (sc_Services s)) replicaCostWeight
      \<le> fmul (sum_over effective_replicas (sc_Services t)) replicaCostWeight"
    by (rule m) (auto simp: no_larger_def nn cost_weights_nonneg)
  ultimately show ?thesis by (simp add: EvaluateInfrastructureCost_def Let_def e fadd_mono)
qed

text \<open>The scan that finds the best run keeps the first minimum.\<close>

lemma best_index_least:
  assumes "full = pre @ ss" "k < length full" "full ! k = best" "\<forall>x \<in> set pre. best \<le> x"
  shows "best_index (\<lambda>a b. a < b) (length pre) ss k best < length full \<and>
    (\<forall>x \<in> set full. full ! best_index (\<lambda>a b. a < b) (length pre) ss k best \<le> x)"
  using assms
proof (induction ss arbitrary: pre k best)
  case (Cons s ss)
  have f: "full = (pre @ [s]) @ ss" "length (pre @ [s]) = Suc (length pre)" using Cons.prems by simp_all
  show ?case
  proof (cases "s < best")
    case True
    have "full ! length pre = s" "length pre < length full" using Cons.prems by simp_all
    then show ?thesis using Cons.IH [OF f(1), of "length pre" s] Cons.prems True f(2) by force
  next
    case False
    then show ?thesis using Cons.IH [OF f(1), of k best] Cons.prems f(2) by force
  qed
qed simp

lemma best_index_uminus:
  "best_index (\<lambda>a b. a > b) i ss k best = best_index (\<lambda>a b. a < b) i (map uminus ss) k (- best)"
  by (induction ss arbitrary: i k best) auto

lemma best_index_hd:
  assumes "ss \<noteq> []"
  shows "best_index (\<lambda>a b. a < b) 0 ss 0 (hd ss) < length ss \<and> (\<forall>x \<in> set ss. ss ! best_index (\<lambda>a b. a < b) 0 ss 0 (hd ss) \<le> x)"
  using best_index_least [of ss "[]" ss 0 "hd ss"] assms by (simp add: hd_conv_nth)

lemma worst_index_hd:
  assumes "ss \<noteq> []"
  shows "best_index (\<lambda>a b. a > b) 0 ss 0 (hd ss) < length ss \<and> (\<forall>x \<in> set ss. x \<le> ss ! best_index (\<lambda>a b. a > b) 0 ss 0 (hd ss))"
  using best_index_hd [of "map uminus ss"] assms by (auto simp: best_index_uminus hd_map)

lemma eval_runs_ok:
  "eval_runs obj runs = Inr scored \<Longrightarrow>
   (\<forall>r \<in> set runs. rmi_Metrics r \<noteq> None) \<and> scored = map (\<lambda>r. r\<lparr>rmi_Score := score_of obj (the (rmi_Metrics r))\<rparr>) runs"
  by (induction runs arbitrary: scored) (auto simp: Evaluate_def err_bind_Inr_iff split: sum.splits option.splits)

text \<open>The best and the worst run of a history are runs of it with the least and the greatest score.\<close>

lemma run_history_extremes:
  assumes "CompareRunHistory runs (Some obj) = Inr c"
  shows "\<exists>b \<in> set runs. \<exists>w \<in> set runs. rhc_BestRunID c = rmi_RunID b \<and> rhc_WorstRunID c = rmi_RunID w \<and>
    (\<forall>r \<in> set runs. score_of obj (the (rmi_Metrics b)) \<le> score_of obj (the (rmi_Metrics r)) \<and>
       score_of obj (the (rmi_Metrics r)) \<le> score_of obj (the (rmi_Metrics w)))"
proof -
  let ?g = "\<lambda>r. score_of obj (the (rmi_Metrics r))"
  let ?ss = "map ?g runs"
  have ne: "runs \<noteq> []" and ev: "eval_runs obj runs = Inr (map (\<lambda>r. r\<lparr>rmi_Score := ?g r\<rparr>) runs)"
    using assms eval_runs_ok [of obj runs] by (auto simp: CompareRunHistory_def err_bind_Inr_iff split: if_splits)
  let ?b = "best_index (\<lambda>a b. a < b) 0 ?ss 0 (hd ?ss)" and ?w = "best_index (\<lambda>a b. a > b) 0 ?ss 0 (hd ?ss)"
  have b: "?b < length runs" "\<forall>r \<in> set runs. ?g (runs ! ?b) \<le> ?g r"
    and w: "?w < length runs" "\<forall>r \<in> set runs. ?g r \<le> ?g (runs ! ?w)"
    using best_index_hd [of ?ss] worst_index_hd [of ?ss] ne by auto
  have m: "map rmi_Score (map (\<lambda>r. r\<lparr>rmi_Score := ?g r\<rparr>) runs) = ?ss" by simp
  have "rhc_BestRunID c = rmi_RunID (runs ! ?b)" "rhc_WorstRunID c = rmi_RunID (runs ! ?w)"
    using assms ne b(1) w(1) by (auto simp: CompareRunHistory_def ev Let_def comp_def)
  then show ?thesis using b w by (intro bexI [of _ "runs ! ?b"] bexI [of _ "runs ! ?w"]) auto
qed

text \<open>The infrastructure cost that ranks candidates is monotone in every allocation, rounding included: a scenario
  in which no service has more replicas, cores or memory per replica (an omitted size counting as the default) never
  costs more.\<close>

theorem infrastructure_cost_monotone:
  assumes "list_all2 (\<lambda>a b. effective_replicas a \<le> effective_replicas b \<and> effective_cpu a \<le> effective_cpu b \<and>
      effective_memory a \<le> effective_memory b) (sc_Services s) (sc_Services t)"
  shows "EvaluateInfrastructureCost (Some s) \<le> EvaluateInfrastructureCost (Some t)"
  using infrastructure_cost_mono_aux [of s t] assms unfolding no_larger_def by blast

definition demo_service :: "int \<Rightarrow> service" where
  "demo_service n = \<lparr>sv_ID = ''api'', sv_Kind = [], sv_Role = [], sv_Replicas = n, sv_Model = [], sv_CPUCores = 2, sv_MemoryMB = 0,
     sv_ExternalNetworkLatencyMs = None, sv_Scaling = None, sv_Behavior = None, sv_Placement = None, sv_Routing = None,
     sv_Endpoints = []\<rparr>"

definition demo_scenario :: "int \<Rightarrow> scenario" where
  "demo_scenario n = \<lparr>sc_SchemaVersion = None, sc_SimulationLimits = None, sc_Network = None, sc_Hosts = [],
     sc_Services = [demo_service n], sc_Workload = [], sc_Policies = None\<rparr>"

theorem infrastructure_cost_monotone_witness:
  "EvaluateInfrastructureCost (Some (demo_scenario 1)) \<le> EvaluateInfrastructureCost (Some (demo_scenario 3))"
  by (rule infrastructure_cost_monotone)
    (simp add: demo_scenario_def demo_service_def effective_replicas_def effective_cpu_def effective_memory_def of_int64_exact)


definition demo_metrics :: "float64 \<Rightarrow> float64 \<Rightarrow> run_metrics_pb" where
  "demo_metrics p95 tput = \<lparr>xm_TotalRequests = 0, xm_SuccessfulRequests = 0, xm_FailedRequests = 0, xm_LatencyP50Ms = 0,
     xm_LatencyP95Ms = p95, xm_LatencyP99Ms = 0, xm_LatencyMeanMs = 0, xm_ThroughputRps = tput, xm_IngressRequests = 0,
     xm_InternalRequests = 0, xm_IngressThroughputRps = 0, xm_IngressFailedRequests = 0, xm_IngressErrorRate = 0,
     xm_AttemptFailedRequests = 0, xm_AttemptErrorRate = 0, xm_RetryAttempts = 0, xm_TimeoutErrors = 0,
     xm_QueueEnqueueCountTotal = 0, xm_QueueDequeueCountTotal = 0, xm_QueueDropCountTotal = 0,
     xm_QueueRedeliveryCountTotal = 0, xm_QueueDlqCountTotal = 0, xm_QueueDepthSum = 0, xm_TopicPublishCountTotal = 0,
     xm_TopicDeliverCountTotal = 0, xm_TopicDropCountTotal = 0, xm_TopicRedeliveryCountTotal = 0, xm_TopicDlqCountTotal = 0,
     xm_TopicBacklogDepthSum = 0, xm_TopicConsumerLagSum = 0, xm_QueueOldestMessageAgeMs = 0,
     xm_TopicOldestMessageAgeMs = 0, xm_MaxQueueDepth = 0, xm_MaxTopicBacklogDepth = 0, xm_MaxTopicConsumerLag = 0,
     xm_QueueDropRate = 0, xm_TopicDropRate = 0, xm_ServiceMetrics = [], xm_HostMetrics = [], xm_LocalityHitRate = 0,
     xm_CrossZoneRequestCountTotal = 0, xm_SameZoneRequestCountTotal = 0, xm_CrossZoneRequestFraction = 0,
     xm_CrossZoneLatencyPenaltyMsTotal = 0, xm_CrossZoneLatencyPenaltyMsMean = 0, xm_SameZoneLatencyPenaltyMsTotal = 0,
     xm_SameZoneLatencyPenaltyMsMean = 0, xm_ExternalLatencyMsTotal = 0, xm_ExternalLatencyMsMean = 0,
     xm_TopologyLatencyPenaltyMsTotal = 0, xm_TopologyLatencyPenaltyMsMean = 0\<rparr>"


end
