(* ===== verification/Scenario_Clone.thy ===== *)
theory Scenario_Clone
  imports Scenario_Types
begin

text \<open>
  The deep copy of a scenario, \<open>internal/improvement/scenario_clone.go\<close>, field by field, so that a field the copy
  would forget shows. A map is copied entry by entry into a fresh map.
\<close>

definition copy_map :: "('k, 'v) gomap \<Rightarrow> ('k, 'v) gomap" where
  "copy_map m = (if length m > 0 then fold (\<lambda>(k, v) out. gm_put k v out) m [] else [])"

definition cloneRoutingPolicy :: "routing_policy option \<Rightarrow> routing_policy option" where
  "cloneRoutingPolicy = map_option (\<lambda>rp. \<lparr>rp_Strategy = rp_Strategy rp, rp_StickyKeyFrom = rp_StickyKeyFrom rp,
     rp_LocalityZoneFrom = rp_LocalityZoneFrom rp, rp_Weights = copy_map (rp_Weights rp)\<rparr>)"

definition clonePlacementPolicy :: "placement_policy option \<Rightarrow> placement_policy option" where
  "clonePlacementPolicy = map_option (\<lambda>pp.
     \<lparr>pp_RequiredZones = pp_RequiredZones pp, pp_PreferredZones = pp_PreferredZones pp,
      pp_AffinityZones = pp_AffinityZones pp, pp_AntiAffinityZones = pp_AntiAffinityZones pp,
      pp_RequiredHostLabels = copy_map (pp_RequiredHostLabels pp),
      pp_PreferredHostLabels = copy_map (pp_PreferredHostLabels pp),
      pp_AntiAffinityServices = pp_AntiAffinityServices pp, pp_SpreadAcrossZones = pp_SpreadAcrossZones pp,
      pp_MaxReplicasPerHost = pp_MaxReplicasPerHost pp\<rparr>)"

definition clone_network :: "network_config \<Rightarrow> network_config" where
  "clone_network n =
     \<lparr>nc_SymmetricCrossZoneLatency = nc_SymmetricCrossZoneLatency n, nc_SameHostLatencyMs = nc_SameHostLatencyMs n,
      nc_SameZoneLatencyMs = nc_SameZoneLatencyMs n, nc_DefaultCrossZoneLatencyMs = nc_DefaultCrossZoneLatencyMs n,
      nc_CrossZoneLatencyMs = copy_map (map (\<lambda>(fk, inner). (fk, copy_map inner)) (nc_CrossZoneLatencyMs n)),
      nc_ExternalLatencyMs = nc_ExternalLatencyMs n\<rparr>"

definition clone_host :: "host_spec \<Rightarrow> host_spec" where
  "clone_host h = h\<lparr>ho_Labels := copy_map (ho_Labels h)\<rparr>"

definition clone_queue :: "queue_behavior \<Rightarrow> queue_behavior" where
  "clone_queue q =
     \<lparr>qb_Capacity = qb_Capacity q, qb_ConsumerConcurrency = qb_ConsumerConcurrency q,
      qb_MinConsumerConcurrency = qb_MinConsumerConcurrency q, qb_MaxConsumerConcurrency = qb_MaxConsumerConcurrency q,
      qb_ConsumerTarget = qb_ConsumerTarget q, qb_DeliveryLatencyMs = qb_DeliveryLatencyMs q,
      qb_AckTimeoutMs = qb_AckTimeoutMs q, qb_MaxRedeliveries = qb_MaxRedeliveries q, qb_DLQTarget = qb_DLQTarget q,
      qb_DropPolicy = qb_DropPolicy q, qb_AsyncFireAndForget = qb_AsyncFireAndForget q\<rparr>"

definition clone_topic :: "topic_behavior \<Rightarrow> topic_behavior" where
  "clone_topic t =
     \<lparr>tb_Partitions = tb_Partitions t, tb_RetentionMs = tb_RetentionMs t, tb_Capacity = tb_Capacity t,
      tb_DeliveryLatencyMs = tb_DeliveryLatencyMs t, tb_PublishAck = tb_PublishAck t,
      tb_AsyncFireAndForget = tb_AsyncFireAndForget t, tb_Subscribers = tb_Subscribers t\<rparr>"

definition clone_cache :: "cache_behavior \<Rightarrow> cache_behavior" where
  "clone_cache c = \<lparr>cb_HitRate = cb_HitRate c, cb_HitLatencyMs = cb_HitLatencyMs c, cb_MissLatencyMs = cb_MissLatencyMs c\<rparr>"

definition clone_behavior :: "service_behavior \<Rightarrow> service_behavior" where
  "clone_behavior b =
     \<lparr>sb_FailureRate = sb_FailureRate b, sb_SaturationLatencyFactor = sb_SaturationLatencyFactor b,
      sb_MaxConnections = sb_MaxConnections b, sb_Cache = map_option clone_cache (sb_Cache b),
      sb_Queue = map_option clone_queue (sb_Queue b), sb_Topic = map_option clone_topic (sb_Topic b)\<rparr>"

definition clone_downstream :: "downstream_call \<Rightarrow> downstream_call" where
  "clone_downstream ds =
     \<lparr>dc_To = dc_To ds, dc_Mode = dc_Mode ds, dc_Kind = dc_Kind ds, dc_Probability = dc_Probability ds,
      dc_CallCountMean = dc_CallCountMean ds, dc_CallLatencyMs = dc_CallLatencyMs ds, dc_TimeoutMs = dc_TimeoutMs ds,
      dc_FailureRate = dc_FailureRate ds, dc_Retryable = dc_Retryable ds,
      dc_DownstreamFractionCPU = dc_DownstreamFractionCPU ds, dc_PartitionKey = dc_PartitionKey ds,
      dc_PartitionKeyFrom = dc_PartitionKeyFrom ds\<rparr>"

definition clone_endpoint :: "endpoint \<Rightarrow> endpoint" where
  "clone_endpoint ep =
     \<lparr>ep_Path = ep_Path ep, ep_MeanCPUMs = ep_MeanCPUMs ep, ep_CPUSigmaMs = ep_CPUSigmaMs ep,
      ep_DefaultMemoryMB = ep_DefaultMemoryMB ep, ep_FailureRate = ep_FailureRate ep, ep_TimeoutMs = ep_TimeoutMs ep,
      ep_IOMs = ep_IOMs ep, ep_ConnectionPool = ep_ConnectionPool ep, ep_Routing = cloneRoutingPolicy (ep_Routing ep),
      ep_Downstream = map clone_downstream (ep_Downstream ep), ep_NetLatencyMs = ep_NetLatencyMs ep\<rparr>"

definition clone_scaling :: "scaling_policy \<Rightarrow> scaling_policy" where
  "clone_scaling s = \<lparr>sp_Horizontal = sp_Horizontal s, sp_VerticalCPU = sp_VerticalCPU s, sp_VerticalMemory = sp_VerticalMemory s\<rparr>"

definition clone_service :: "service \<Rightarrow> service" where
  "clone_service svc =
     \<lparr>sv_ID = sv_ID svc, sv_Kind = sv_Kind svc, sv_Role = sv_Role svc, sv_Replicas = sv_Replicas svc,
      sv_Model = sv_Model svc, sv_CPUCores = sv_CPUCores svc, sv_MemoryMB = sv_MemoryMB svc,
      sv_ExternalNetworkLatencyMs = sv_ExternalNetworkLatencyMs svc,
      sv_Scaling = map_option clone_scaling (sv_Scaling svc),
      sv_Behavior = map_option clone_behavior (sv_Behavior svc),
      sv_Placement = clonePlacementPolicy (sv_Placement svc), sv_Routing = cloneRoutingPolicy (sv_Routing svc),
      sv_Endpoints = map clone_endpoint (sv_Endpoints svc)\<rparr>"

definition clone_workload :: "workload_pattern \<Rightarrow> workload_pattern" where
  "clone_workload wl =
     \<lparr>wl_From = wl_From wl, wl_SourceKind = wl_SourceKind wl, wl_TrafficClass = wl_TrafficClass wl,
      wl_Metadata = copy_map (wl_Metadata wl), wl_To = wl_To wl, wl_Arrival = wl_Arrival wl\<rparr>"

definition clone_autoscaling :: "autoscaling_config \<Rightarrow> autoscaling_config" where
  "clone_autoscaling a = \<lparr>ac_Enabled = ac_Enabled a, ac_TargetCPUUtil = ac_TargetCPUUtil a, ac_ScaleStep = ac_ScaleStep a\<rparr>"

definition clone_retries :: "retry_config \<Rightarrow> retry_config" where
  "clone_retries r = \<lparr>rc_Enabled = rc_Enabled r, rc_MaxRetries = rc_MaxRetries r, rc_Backoff = rc_Backoff r,
     rc_BaseMs = rc_BaseMs r\<rparr>"

definition clone_policies :: "policies_config \<Rightarrow> policies_config" where
  "clone_policies p = \<lparr>pc_Autoscaling = map_option clone_autoscaling (pc_Autoscaling p),
     pc_Retries = map_option clone_retries (pc_Retries p)\<rparr>"

definition clone_limits :: "simulation_limits \<Rightarrow> simulation_limits" where
  "clone_limits l = \<lparr>sl_MaxTraceDepth = sl_MaxTraceDepth l, sl_MaxAsyncHops = sl_MaxAsyncHops l\<rparr>"

definition cloneScenario :: "scenario \<Rightarrow> scenario" where
  "cloneScenario s =
     \<lparr>sc_SchemaVersion = sc_SchemaVersion s,
      sc_SimulationLimits = map_option clone_limits (sc_SimulationLimits s),
      sc_Network = map_option clone_network (sc_Network s),
      sc_Hosts = map clone_host (sc_Hosts s),
      sc_Services = map clone_service (sc_Services s),
      sc_Workload = map clone_workload (sc_Workload s),
      sc_Policies = map_option clone_policies (sc_Policies s)\<rparr>"

text \<open>The maps of a scenario have each key once, as every Go map does.\<close>

definition routing_maps :: "routing_policy option \<Rightarrow> bool" where
  "routing_maps rp = pred_option (\<lambda>rp. gm_ok (rp_Weights rp)) rp"

definition service_maps :: "service \<Rightarrow> bool" where
  "service_maps svc \<longleftrightarrow> routing_maps (sv_Routing svc) \<and>
     pred_option (\<lambda>pp. gm_ok (pp_RequiredHostLabels pp) \<and> gm_ok (pp_PreferredHostLabels pp)) (sv_Placement svc) \<and>
     list_all (\<lambda>ep. routing_maps (ep_Routing ep)) (sv_Endpoints svc)"

definition scenario_maps :: "scenario \<Rightarrow> bool" where
  "scenario_maps s \<longleftrightarrow>
     pred_option (\<lambda>n. gm_ok (nc_CrossZoneLatencyMs n) \<and> list_all (\<lambda>(fk, inner). gm_ok inner) (nc_CrossZoneLatencyMs n))
       (sc_Network s) \<and>
     list_all (\<lambda>h. gm_ok (ho_Labels h)) (sc_Hosts s) \<and> list_all service_maps (sc_Services s) \<and>
     list_all (\<lambda>wl. gm_ok (wl_Metadata wl)) (sc_Workload s)"

lemma copy_fold: "gm_ok (acc @ m) \<Longrightarrow> fold (\<lambda>(k, v) out. gm_put k v out) m acc = acc @ m"
proof (induction m arbitrary: acc)
  case (Cons x m)
  obtain k v where x: "x = (k, v)" by fastforce
  have "k \<notin> fst ` set acc" using Cons.prems x by auto
  then show ?case using Cons.IH [of "acc @ [(k, v)]"] Cons.prems x by (simp add: gm_put_fresh gm_get_None_iff)
qed simp

lemma copy_map_id [simp]: "gm_ok m \<Longrightarrow> copy_map m = m"
  using copy_fold [of "[]" m] by (simp add: copy_map_def)

lemma map_option_same: "pred_option P x \<Longrightarrow> (\<And>y. P y \<Longrightarrow> f y = y) \<Longrightarrow> map_option f x = x"
  by (cases x) auto

lemma map_same: "list_all P xs \<Longrightarrow> (\<And>y. P y \<Longrightarrow> f y = y) \<Longrightarrow> map f xs = xs"
  by (induction xs) auto

text \<open>The copies of structs without maps are exact.\<close>

lemma clone_plain [simp]:
  "clone_cache = (\<lambda>c. c)" "clone_queue = (\<lambda>q. q)" "clone_topic = (\<lambda>t. t)" "clone_downstream = (\<lambda>d. d)"
  "clone_scaling = (\<lambda>s. s)" "clone_autoscaling = (\<lambda>a. a)" "clone_retries = (\<lambda>r. r)" "clone_limits = (\<lambda>l. l)"
  by (simp_all add: fun_eq_iff clone_cache_def clone_queue_def clone_topic_def clone_downstream_def clone_scaling_def
      clone_autoscaling_def clone_retries_def clone_limits_def)

lemma clone_behavior_id [simp]: "clone_behavior = (\<lambda>b. b)"
  by (simp add: fun_eq_iff clone_behavior_def option.map_ident)

lemma clone_policies_id [simp]: "clone_policies = (\<lambda>p. p)"
  by (simp add: fun_eq_iff clone_policies_def option.map_ident)

lemma cloneRoutingPolicy_id: "routing_maps rp \<Longrightarrow> cloneRoutingPolicy rp = rp"
  unfolding cloneRoutingPolicy_def routing_maps_def by (erule map_option_same) simp

lemma clone_endpoint_id: "routing_maps (ep_Routing ep) \<Longrightarrow> clone_endpoint ep = ep"
  by (simp add: clone_endpoint_def cloneRoutingPolicy_id)

lemma clone_service_id:
  assumes "service_maps svc"
  shows "clone_service svc = svc"
proof -
  have "clonePlacementPolicy (sv_Placement svc) = sv_Placement svc"
    unfolding clonePlacementPolicy_def using assms unfolding service_maps_def
    by (elim conjE, elim map_option_same) simp
  moreover have "map clone_endpoint (sv_Endpoints svc) = sv_Endpoints svc"
    using assms unfolding service_maps_def by (elim conjE, elim map_same) (rule clone_endpoint_id)
  ultimately show ?thesis
    using assms by (simp add: clone_service_def service_maps_def cloneRoutingPolicy_id option.map_ident)
qed

lemma clone_network_id:
  assumes "gm_ok (nc_CrossZoneLatencyMs n) \<and> list_all (\<lambda>(fk, inner). gm_ok inner) (nc_CrossZoneLatencyMs n)"
  shows "clone_network n = n"
proof -
  have "map (\<lambda>(fk, inner). (fk, copy_map inner)) (nc_CrossZoneLatencyMs n) = nc_CrossZoneLatencyMs n"
    by (rule map_same [OF conjunct2 [OF assms]]) auto
  then show ?thesis using assms by (simp add: clone_network_def)
qed

lemma cloneScenario_id:
  assumes "scenario_maps s"
  shows "cloneScenario s = s"
proof -
  have "map_option clone_network (sc_Network s) = sc_Network s"
    using assms unfolding scenario_maps_def by (elim conjE, elim map_option_same) (rule clone_network_id)
  moreover have "map clone_host (sc_Hosts s) = sc_Hosts s"
    using assms unfolding scenario_maps_def by (elim conjE, elim map_same [where f = clone_host]) (simp add: clone_host_def)
  moreover have "map clone_service (sc_Services s) = sc_Services s"
    using assms unfolding scenario_maps_def by (elim conjE, elim map_same [where f = clone_service]) (rule clone_service_id)
  moreover have "map clone_workload (sc_Workload s) = sc_Workload s"
    using assms unfolding scenario_maps_def by (elim conjE, elim map_same [where f = clone_workload]) (simp add: clone_workload_def)
  ultimately show ?thesis by (simp add: cloneScenario_def option.map_ident)
qed

end
