(* ===== verification/Improve_Optimizer.thy ===== *)
theory Improve_Optimizer
  imports Improve_Objective Scenario_Clone
begin

text \<open>
  The hill climber of \<open>internal/improvement\<close>: the detection of convergence (\<open>convergence.go\<close>), the exploration of
  the parameter space (\<open>exploration.go\<close>) and the climb itself (\<open>optimizer.go\<close>). The evaluation function is a
  parameter that threads a state of its own; it fails or is cancelled the way the interface allows.
\<close>

subsection \<open>Convergence\<close>

record optimization_step =
  ost_Iteration :: int
  ost_Score :: float64
  ost_Config :: scenario

record convergence_config =
  cvc_NoImprovementIterations :: int
  cvc_ImprovementThreshold :: float64
  cvc_ScoreTolerance :: float64
  cvc_MinIterations :: int
  cvc_PlateauIterations :: int

definition DefaultConvergenceConfig :: convergence_config where
  "DefaultConvergenceConfig = \<lparr>cvc_NoImprovementIterations = 5, cvc_ImprovementThreshold = fl (1 / 100),
     cvc_ScoreTolerance = fl (1 / 1000), cvc_MinIterations = 3, cvc_PlateauIterations = 5\<rparr>"

definition max_float64 :: float64 where
  "max_float64 = 2 ^ 1024 - 2 ^ 971"

text \<open>The last \<open>n\<close> elements of a slice; a bound outside the slice panics.\<close>

definition slice_last :: "'a list \<Rightarrow> int \<Rightarrow> go_error + 'a list" where
  "slice_last xs n = (if 0 \<le> n \<and> n \<le> int (length xs) then Inr (drop (length xs - nat n) xs)
                      else Inl (Panic ''slice bounds out of range''))"

fun best_step :: "int \<Rightarrow> optimization_step list \<Rightarrow> float64 \<Rightarrow> int \<Rightarrow> int" where
  "best_step i [] bestScore bestIteration = bestIteration"
| "best_step i (st # sts) bestScore bestIteration =
     (if ost_Score st < bestScore then best_step (i + 1) sts (ost_Score st) i else best_step (i + 1) sts bestScore bestIteration)"

definition check_no_improvement :: "convergence_config \<Rightarrow> optimization_step list \<Rightarrow> go_error + bool \<times> string" where
  "check_no_improvement c history =
     (if int (length history) < cvc_MinIterations c then Inr (False, [])
      else let bestIteration = best_step 0 history max_float64 (- 1)
           in if bestIteration < 0 then Inr (False, [])
              else if int (length history) - 1 - bestIteration \<ge> cvc_NoImprovementIterations c
              then Inr (True, ''no improvement for %d iterations (best at iteration %d)'')
              else Inr (False, []))"

definition check_plateau :: "convergence_config \<Rightarrow> optimization_step list \<Rightarrow> go_error + bool \<times> string" where
  "check_plateau c history =
     (if int (length history) < cvc_MinIterations c then Inr (False, [])
      else if int (length history) < cvc_PlateauIterations c then Inr (False, [])
      else err_bind (slice_last history (cvc_PlateauIterations c)) (\<lambda>recentSteps.
           err_bind (slice_get recentSteps 0) (\<lambda>first.
           let minScore = foldl (\<lambda>m st. if ost_Score st < m then ost_Score st else m) (ost_Score first) recentSteps;
               maxScore = foldl (\<lambda>m st. if ost_Score st > m then ost_Score st else m) (ost_Score first) recentSteps
           in if fsub maxScore minScore \<le> cvc_ScoreTolerance c
              then Inr (True, ''score plateaued for %d iterations (range: %.6f)'') else Inr (False, []))))"

definition relative_improvements :: "float64 list \<Rightarrow> float64 list" where
  "relative_improvements scores =
     concat (map (\<lambda>(a, b). if a > 0 then [fdiv (fsub a b) a] else []) (zip scores (tl scores)))"

definition check_threshold :: "convergence_config \<Rightarrow> optimization_step list \<Rightarrow> go_error + bool \<times> string" where
  "check_threshold c history =
     (if int (length history) < cvc_MinIterations c + 1 then Inr (False, [])
      else let windowSize = min (cvc_NoImprovementIterations c) (int (length history))
           in if windowSize < 2 then Inr (False, [])
              else err_bind (slice_last history windowSize) (\<lambda>recentSteps.
                   let improvements = relative_improvements (map ost_Score recentSteps)
                   in if list_all (\<lambda>imp. \<not> imp > cvc_ImprovementThreshold c) improvements \<and> improvements \<noteq> []
                      then Inr (True, ''improvements below threshold (max: %.4f%%, threshold: %.4f%%)'')
                      else Inr (False, [])))"

datatype convergence_strategy =
    NoImprovementStrategy convergence_config
  | PlateauStrategy convergence_config
  | ThresholdStrategy convergence_config
  | CombinedStrategy "convergence_strategy list"

fun strategy_name :: "convergence_strategy \<Rightarrow> string" where
  "strategy_name (NoImprovementStrategy _) = ''no_improvement''"
| "strategy_name (PlateauStrategy _) = ''plateau''"
| "strategy_name (ThresholdStrategy _) = ''improvement_threshold''"
| "strategy_name (CombinedStrategy _) = ''combined''"

fun CheckConvergence :: "convergence_strategy \<Rightarrow> optimization_step list \<Rightarrow> go_error + bool \<times> string"
  and check_any :: "convergence_strategy list \<Rightarrow> optimization_step list \<Rightarrow> go_error + bool \<times> string" where
  "CheckConvergence (NoImprovementStrategy c) history = check_no_improvement c history"
| "CheckConvergence (PlateauStrategy c) history = check_plateau c history"
| "CheckConvergence (ThresholdStrategy c) history = check_threshold c history"
| "CheckConvergence (CombinedStrategy ss) history = check_any ss history"
| "check_any [] history = Inr (False, [])"
| "check_any (s # ss) history =
     err_bind (CheckConvergence s history) (\<lambda>(converged, reason).
       if converged then Inr (True, strategy_name s @ '': '' @ reason) else check_any ss history)"

definition NewCombinedStrategy :: "convergence_config option \<Rightarrow> convergence_strategy" where
  "NewCombinedStrategy config =
     (let c = (case config of None \<Rightarrow> DefaultConvergenceConfig | Some c \<Rightarrow> c)
      in CombinedStrategy [NoImprovementStrategy c, PlateauStrategy c, ThresholdStrategy c])"

fun AddStrategy :: "convergence_strategy \<Rightarrow> convergence_strategy \<Rightarrow> convergence_strategy" where
  "AddStrategy s (CombinedStrategy ss) = CombinedStrategy (ss @ [s])"
| "AddStrategy s other = other"

subsection \<open>Exploration\<close>

record default_explorer =
  de_maxReplicas :: int
  de_minReplicas :: int
  de_replicaStep :: int
  de_policyStepSize :: float64
  de_workloadStepSize :: float64
  de_resourceStepSize :: float64

definition NewDefaultExplorer :: default_explorer where
  "NewDefaultExplorer = \<lparr>de_maxReplicas = 20, de_minReplicas = 1, de_replicaStep = 1, de_policyStepSize = fl (5 / 100),
     de_workloadStepSize = fl (1 / 10), de_resourceStepSize = fl (1 / 10)\<rparr>"

definition NewConservativeExplorer :: default_explorer where
  "NewConservativeExplorer = NewDefaultExplorer\<lparr>de_policyStepSize := fl (2 / 100), de_workloadStepSize := fl (5 / 100),
     de_resourceStepSize := fl (5 / 100), de_replicaStep := 1\<rparr>"

definition NewAggressiveExplorer :: default_explorer where
  "NewAggressiveExplorer = NewDefaultExplorer\<lparr>de_policyStepSize := fl (1 / 10), de_workloadStepSize := fl (2 / 10),
     de_resourceStepSize := fl (2 / 10), de_replicaStep := 2\<rparr>"

text \<open>A neighbour is a copy of the base in which one service, one workload pattern or the policies are changed.\<close>

definition with_service :: "scenario \<Rightarrow> nat \<Rightarrow> (service \<Rightarrow> service) \<Rightarrow> scenario" where
  "with_service base i g = (let n = cloneScenario base in n\<lparr>sc_Services := (sc_Services n)[i := g (sc_Services n ! i)]\<rparr>)"

definition with_arrival :: "scenario \<Rightarrow> nat \<Rightarrow> (arrival_spec \<Rightarrow> arrival_spec) \<Rightarrow> scenario" where
  "with_arrival base i g = (let n = cloneScenario base; w = sc_Workload n ! i
     in n\<lparr>sc_Workload := (sc_Workload n)[i := w\<lparr>wl_Arrival := g (wl_Arrival w)\<rparr>]\<rparr>)"

definition with_autoscaling :: "scenario \<Rightarrow> (autoscaling_config \<Rightarrow> autoscaling_config) \<Rightarrow> scenario" where
  "with_autoscaling base g = (let n = cloneScenario base
     in n\<lparr>sc_Policies := map_option (\<lambda>p. p\<lparr>pc_Autoscaling := map_option g (pc_Autoscaling p)\<rparr>) (sc_Policies n)\<rparr>)"

definition with_retries :: "scenario \<Rightarrow> (retry_config \<Rightarrow> retry_config) \<Rightarrow> scenario" where
  "with_retries base g = (let n = cloneScenario base
     in n\<lparr>sc_Policies := map_option (\<lambda>p. p\<lparr>pc_Retries := map_option g (pc_Retries p)\<rparr>) (sc_Policies n)\<rparr>)"

definition over_services :: "scenario \<Rightarrow> (nat \<Rightarrow> service \<Rightarrow> scenario list) \<Rightarrow> scenario list" where
  "over_services base f = concat (map (\<lambda>(i, svc). f i svc) (enumerate 0 (sc_Services base)))"

definition exploreReplicas :: "default_explorer \<Rightarrow> scenario \<Rightarrow> scenario list" where
  "exploreReplicas e base = over_services base (\<lambda>i svc.
     let up = sv_Replicas svc + de_replicaStep e; down = sv_Replicas svc - de_replicaStep e
     in (if sv_Replicas svc < de_maxReplicas e \<and> up \<le> de_maxReplicas e
         then [with_service base i (\<lambda>s. s\<lparr>sv_Replicas := up\<rparr>)] else []) @
        (if sv_Replicas svc > de_minReplicas e \<and> down \<ge> de_minReplicas e
         then [with_service base i (\<lambda>s. s\<lparr>sv_Replicas := down\<rparr>)] else []))"

definition exploreResources :: "default_explorer \<Rightarrow> scenario \<Rightarrow> scenario list" where
  "exploreResources e base = over_services base (\<lambda>i svc.
     let step = de_resourceStepSize e;
         currentCPU = (if sv_CPUCores svc = 0 then 1 else sv_CPUCores svc);
         currentMemory = (if sv_MemoryMB svc = 0 then 512 else sv_MemoryMB svc)
     in [with_service base i (\<lambda>s. s\<lparr>sv_CPUCores := fmul currentCPU (fadd 1 step)\<rparr>)] @
        (if currentCPU > fl (1 / 10)
         then [with_service base i (\<lambda>s. s\<lparr>sv_CPUCores := max (fl (1 / 10)) (fmul currentCPU (fsub 1 step))\<rparr>)] else []) @
        [with_service base i (\<lambda>s. s\<lparr>sv_MemoryMB := fmul currentMemory (fadd 1 step)\<rparr>)] @
        (if currentMemory > 64
         then [with_service base i (\<lambda>s. s\<lparr>sv_MemoryMB := max 64 (fmul currentMemory (fsub 1 step))\<rparr>)] else []))"

definition explore_autoscaling :: "default_explorer \<Rightarrow> scenario \<Rightarrow> autoscaling_config \<Rightarrow> scenario list" where
  "explore_autoscaling e base a =
     (let target = ac_TargetCPUUtil a; stepN = ac_ScaleStep a
      in if \<not> ac_Enabled a then []
         else (if target > fl (1 / 10)
               then [with_autoscaling base (\<lambda>a. a\<lparr>ac_TargetCPUUtil := max (fl (1 / 10)) (fsub target (de_policyStepSize e))\<rparr>)]
               else []) @
              (if target < fl (9 / 10)
               then [with_autoscaling base (\<lambda>a. a\<lparr>ac_TargetCPUUtil := min (fl (9 / 10)) (fadd target (de_policyStepSize e))\<rparr>)]
               else []) @
              (if stepN > 1 then [with_autoscaling base (\<lambda>a. a\<lparr>ac_ScaleStep := stepN - 1\<rparr>)] else []) @
              (if stepN < 5 then [with_autoscaling base (\<lambda>a. a\<lparr>ac_ScaleStep := stepN + 1\<rparr>)] else []))"

definition explore_retries :: "scenario \<Rightarrow> retry_config \<Rightarrow> scenario list" where
  "explore_retries base r =
     (if \<not> rc_Enabled r then []
      else (if rc_MaxRetries r > 0 then [with_retries base (\<lambda>x. x\<lparr>rc_MaxRetries := rc_MaxRetries r - 1\<rparr>)] else []) @
           (if rc_MaxRetries r < 10 then [with_retries base (\<lambda>x. x\<lparr>rc_MaxRetries := rc_MaxRetries r + 1\<rparr>)] else []) @
           (if rc_BaseMs r > 1 then [with_retries base (\<lambda>x. x\<lparr>rc_BaseMs := rc_BaseMs r - 1\<rparr>)] else []) @
           (if rc_BaseMs r < 1000 then [with_retries base (\<lambda>x. x\<lparr>rc_BaseMs := rc_BaseMs r + 1\<rparr>)] else []))"

definition explorePolicies :: "default_explorer \<Rightarrow> scenario \<Rightarrow> scenario list" where
  "explorePolicies e base =
     (case sc_Policies base of None \<Rightarrow> [] | Some p \<Rightarrow>
        (case pc_Autoscaling p of None \<Rightarrow> [] | Some a \<Rightarrow> explore_autoscaling e base a) @
        (case pc_Retries p of None \<Rightarrow> [] | Some r \<Rightarrow> explore_retries base r))"

definition explore_arrival :: "default_explorer \<Rightarrow> scenario \<Rightarrow> nat \<Rightarrow> arrival_spec \<Rightarrow> scenario list" where
  "explore_arrival e base i a =
     (let up = fadd 1 (de_workloadStepSize e); down = fsub 1 (de_workloadStepSize e)
      in [with_arrival base i (\<lambda>x. x\<lparr>ar_RateRPS := fmul (ar_RateRPS a) up\<rparr>)] @
         (if ar_RateRPS a > fl (1 / 10)
          then [with_arrival base i (\<lambda>x. x\<lparr>ar_RateRPS := max (fl (1 / 10)) (fmul (ar_RateRPS a) down)\<rparr>)] else []) @
         (if ar_Type a = ''normal'' \<and> ar_StdDevRPS a > 0
          then [with_arrival base i (\<lambda>x. x\<lparr>ar_StdDevRPS := fmul (ar_StdDevRPS a) up\<rparr>)] @
               (if ar_StdDevRPS a > fl (1 / 100)
                then [with_arrival base i (\<lambda>x. x\<lparr>ar_StdDevRPS := max (fl (1 / 100)) (fmul (ar_StdDevRPS a) down)\<rparr>)] else [])
          else []) @
         (if ar_Type a = ''bursty'' \<and> ar_BurstRateRPS a > 0
          then [with_arrival base i (\<lambda>x. x\<lparr>ar_BurstRateRPS := fmul (ar_BurstRateRPS a) up\<rparr>)] @
               (if ar_BurstRateRPS a > fl (1 / 10)
                then [with_arrival base i (\<lambda>x. x\<lparr>ar_BurstRateRPS := max (fl (1 / 10)) (fmul (ar_BurstRateRPS a) down)\<rparr>)] else [])
          else []))"

definition exploreWorkload :: "default_explorer \<Rightarrow> scenario \<Rightarrow> scenario list" where
  "exploreWorkload e base =
     concat (map (\<lambda>(i, w). explore_arrival e base i (wl_Arrival w)) (enumerate 0 (sc_Workload base)))"

definition GenerateNeighbors :: "default_explorer \<Rightarrow> scenario \<Rightarrow> float64 \<Rightarrow> scenario list" where
  "GenerateNeighbors e base stepSize =
     exploreReplicas e base @ exploreResources e base @ explorePolicies e base @ exploreWorkload e base"

subsection \<open>The climb\<close>

record optimizer =
  op_maxIterations :: int
  op_maxEvaluations :: int
  op_stepSize :: float64
  op_explorer :: "default_explorer option"
  op_convergenceStrategy :: "convergence_strategy option"
  op_bestScore :: float64
  op_bestConfig :: "scenario option"
  op_iteration :: int
  op_history :: "optimization_step list"

record optimization_result =
  or_BestConfig :: "scenario option"
  or_BestScore :: float64
  or_Iterations :: int
  or_History :: "optimization_step list"
  or_Converged :: bool
  or_ConvergenceReason :: string

definition NewOptimizer :: "int \<Rightarrow> float64 \<Rightarrow> optimizer" where
  "NewOptimizer maxIterations stepSize =
     \<lparr>op_maxIterations = maxIterations, op_maxEvaluations = 0, op_stepSize = (if stepSize \<le> 0 then 1 else stepSize),
      op_explorer = Some NewDefaultExplorer,
      op_convergenceStrategy = Some (NewCombinedStrategy (Some DefaultConvergenceConfig)),
      op_bestScore = max_float64, op_bestConfig = None, op_iteration = 0, op_history = []\<rparr>"

definition WithExplorer :: "default_explorer option \<Rightarrow> optimizer \<Rightarrow> optimizer" where
  "WithExplorer e opt = opt\<lparr>op_explorer := e\<rparr>"

definition WithConvergenceStrategy :: "convergence_strategy option \<Rightarrow> optimizer \<Rightarrow> optimizer" where
  "WithConvergenceStrategy s opt = opt\<lparr>op_convergenceStrategy := s\<rparr>"

definition WithMaxEvaluations :: "int \<Rightarrow> optimizer \<Rightarrow> optimizer" where
  "WithMaxEvaluations n opt = opt\<lparr>op_maxEvaluations := (if n < 0 then 0 else n)\<rparr>"

datatype eval_error = Canceled | EvalFailed string

type_synonym 'w evaluator = "scenario \<Rightarrow> 'w \<Rightarrow> (eval_error + float64) \<times> 'w"

definition buildResult :: "optimizer \<Rightarrow> bool \<Rightarrow> string \<Rightarrow> optimization_result" where
  "buildResult opt converged reason =
     \<lparr>or_BestConfig = map_option cloneScenario (op_bestConfig opt), or_BestScore = op_bestScore opt,
      or_Iterations = op_iteration opt, or_History = op_history opt, or_Converged = converged, or_ConvergenceReason = reason\<rparr>"

definition neighbor_explorer :: "optimizer \<Rightarrow> default_explorer" where
  "neighbor_explorer opt = (case op_explorer opt of None \<Rightarrow> NewDefaultExplorer | Some e \<Rightarrow> e)"

definition generateNeighbors :: "optimizer \<Rightarrow> scenario \<Rightarrow> scenario list \<times> optimizer" where
  "generateNeighbors opt s =
     (GenerateNeighbors (neighbor_explorer opt) s (op_stepSize opt), opt\<lparr>op_explorer := Some (neighbor_explorer opt)\<rparr>)"

text \<open>One pass over the neighbours: all of them evaluated, the cap on evaluations hit, or cancelled.\<close>

datatype 'w scan = ScanDone int scenario float64 'w | ScanCap int 'w | ScanCancelled 'w

fun scan_neighbors ::
  "'w evaluator \<Rightarrow> int \<Rightarrow> scenario list \<Rightarrow> int \<Rightarrow> scenario \<Rightarrow> float64 \<Rightarrow> 'w \<Rightarrow> 'w scan" where
  "scan_neighbors ev cap [] n best bestScore w = ScanDone n best bestScore w"
| "scan_neighbors ev cap (x # xs) n best bestScore w =
     (if cap > 0 \<and> n \<ge> cap then ScanCap n w
      else case ev x w of
             (Inl Canceled, w') \<Rightarrow> ScanCancelled w'
           | (Inl _, w') \<Rightarrow> scan_neighbors ev cap xs (n + 1) best bestScore w'
           | (Inr score, w') \<Rightarrow> if score < bestScore then scan_neighbors ev cap xs (n + 1) x score w'
                               else scan_neighbors ev cap xs (n + 1) best bestScore w')"

definition record_step :: "int \<Rightarrow> float64 \<Rightarrow> scenario \<Rightarrow> optimizer \<Rightarrow> optimizer" where
  "record_step iteration score config opt =
     opt\<lparr>op_history := op_history opt @ [\<lparr>ost_Iteration = iteration, ost_Score = score, ost_Config = cloneScenario config\<rparr>]\<rparr>"

definition converged_now :: "optimizer \<Rightarrow> go_error + bool \<times> string" where
  "converged_now opt = (case op_convergenceStrategy opt of None \<Rightarrow> Inr (False, []) | Some s \<Rightarrow> CheckConvergence s (op_history opt))"

fun climb ::
  "'w evaluator \<Rightarrow> nat \<Rightarrow> int \<Rightarrow> scenario \<Rightarrow> float64 \<Rightarrow> int \<Rightarrow> optimizer \<Rightarrow> 'w \<Rightarrow>
   (go_error + optimization_result) \<times> optimizer \<times> 'w" where
  "climb ev 0 iteration cur curScore n opt w = (Inr (buildResult opt False ''max iterations reached''), opt, w)"
| "climb ev (Suc k) iteration cur curScore n opt w =
     (let (neighbors, o1) = generateNeighbors (opt\<lparr>op_iteration := iteration\<rparr>) cur
      in case neighbors of
           [] \<Rightarrow> (Inr (buildResult o1 True ''no valid neighbors''), o1, w)
         | first # _ \<Rightarrow>
             (case scan_neighbors ev (op_maxEvaluations o1) neighbors n first max_float64 w of
                ScanCancelled w' \<Rightarrow> (Inl (Err ''context canceled''), o1, w')
              | ScanCap _ w' \<Rightarrow> (Inr (buildResult o1 False ''max evaluations reached''), o1, w')
              | ScanDone n' best bestScore w' \<Rightarrow>
                  if bestScore < curScore
                  then let o2 = (if bestScore < op_bestScore o1
                                 then o1\<lparr>op_bestScore := bestScore, op_bestConfig := Some (cloneScenario best)\<rparr> else o1)
                       in climb ev k (iteration + 1) best bestScore n' (record_step iteration bestScore best o2) w'
                  else let o2 = record_step iteration curScore cur o1
                       in (case converged_now o2 of
                             Inl err \<Rightarrow> (Inl err, o2, w')
                           | Inr (True, reason) \<Rightarrow> (Inr (buildResult o2 True reason), o2, w')
                           | Inr (False, _) \<Rightarrow> climb ev k (iteration + 1) cur curScore n' o2 w')))"

definition Optimize ::
  "scenario option \<Rightarrow> 'w evaluator \<Rightarrow> optimizer \<Rightarrow> 'w \<Rightarrow> (go_error + optimization_result) \<times> optimizer \<times> 'w" where
  "Optimize initialConfig ev o0 w =
     (case initialConfig of None \<Rightarrow> (Inl (Err ''initial configuration is required''), o0, w) | Some initial \<Rightarrow>
        let o1 = o0\<lparr>op_bestConfig := Some (cloneScenario initial), op_iteration := 0, op_history := []\<rparr>
        in case ev initial w of
             (Inl Canceled, w') \<Rightarrow> (Inl (Err ''context canceled''), o1, w')
           | (Inl (EvalFailed _), w') \<Rightarrow> (Inl (Err ''failed to evaluate initial configuration: %w''), o1, w')
           | (Inr score, w') \<Rightarrow>
               climb ev (nat (op_maxIterations o0)) 1 (cloneScenario initial) score 1
                 (record_step 0 score initial (o1\<lparr>op_bestScore := score\<rparr>)) w')"

subsection \<open>Neighbours\<close>

lemma list_all_update: "list_all P xs \<Longrightarrow> P y \<Longrightarrow> list_all P (xs[i := y])"
  by (auto simp: list_all_iff dest!: set_update_subset_insert [THEN subsetD])

lemma with_service_maps:
  assumes "scenario_maps base" "i < length (sc_Services base)" "\<And>s. service_maps s \<Longrightarrow> service_maps (g s)"
  shows "scenario_maps (with_service base i g)"
proof -
  have s: "list_all service_maps (sc_Services base)" using assms(1) by (simp add: scenario_maps_def)
  then have "list_all service_maps ((sc_Services base)[i := g (sc_Services base ! i)])"
    by (rule list_all_update) (rule assms(3), use s assms(2) in \<open>auto simp: list_all_length\<close>)
  then show ?thesis using assms(1) by (simp add: with_service_def cloneScenario_id scenario_maps_def Let_def)
qed

lemma with_arrival_maps:
  assumes "scenario_maps base" "i < length (sc_Workload base)"
  shows "scenario_maps (with_arrival base i g)"
proof -
  let ?P = "\<lambda>wl. gm_ok (wl_Metadata wl)" and ?w = "sc_Workload base ! i"
  have s: "list_all ?P (sc_Workload base)" using assms(1) by (simp add: scenario_maps_def)
  then have "list_all ?P ((sc_Workload base)[i := ?w\<lparr>wl_Arrival := g (wl_Arrival ?w)\<rparr>])"
    by (rule list_all_update) (use s assms(2) in \<open>auto simp: list_all_length\<close>)
  then show ?thesis using assms(1) by (simp add: with_arrival_def cloneScenario_id scenario_maps_def Let_def)
qed

lemma with_policies_maps:
  "scenario_maps base \<Longrightarrow> scenario_maps (with_autoscaling base ga) \<and> scenario_maps (with_retries base gr)"
  by (simp add: with_autoscaling_def with_retries_def cloneScenario_id scenario_maps_def Let_def)

lemma over_services_maps:
  assumes "n \<in> set (over_services base f)" "\<And>i svc n. i < length (sc_Services base) \<Longrightarrow> n \<in> set (f i svc) \<Longrightarrow> P n"
  shows "P n"
  using assms by (auto simp: over_services_def in_set_enumerate_eq)

lemma GenerateNeighbors_maps:
  assumes "scenario_maps base" "n \<in> set (GenerateNeighbors e base st)"
  shows "scenario_maps n"
proof -
  note sm = with_service_maps [OF assms(1)]
  have "scenario_maps n" if "n \<in> set (exploreReplicas e base)"
    using that unfolding exploreReplicas_def
    by (rule over_services_maps) (auto simp: Let_def service_maps_def intro!: sm split: if_splits)
  moreover have "scenario_maps n" if "n \<in> set (exploreResources e base)"
    using that unfolding exploreResources_def
    by (rule over_services_maps) (auto simp: Let_def service_maps_def intro!: sm split: if_splits)
  moreover have "scenario_maps n" if "n \<in> set (explorePolicies e base)"
    using that with_policies_maps [OF assms(1)]
    by (auto simp: explorePolicies_def explore_autoscaling_def explore_retries_def Let_def split: option.splits if_splits)
  moreover have "scenario_maps n" if "n \<in> set (exploreWorkload e base)"
    using that with_arrival_maps [OF assms(1)]
    by (auto simp: exploreWorkload_def explore_arrival_def in_set_enumerate_eq Let_def split: if_splits)
  ultimately show ?thesis using assms(2) by (auto simp: GenerateNeighbors_def)
qed

subsection \<open>The result of the climb\<close>

text \<open>An evaluation that depends on the configuration alone and is never cancelled.\<close>

abbreviation pure_eval :: "(scenario \<Rightarrow> eval_error + float64) \<Rightarrow> 'w evaluator" where
  "pure_eval f \<equiv> (\<lambda>s w. (f s, w))"

lemma scan_pure:
  assumes "\<And>s. f s \<noteq> Inl Canceled"
  shows "case scan_neighbors (pure_eval f) cap xs n b bs w of
      ScanCancelled w' \<Rightarrow> False
    | ScanCap n' w' \<Rightarrow> w' = w
    | ScanDone n' b' bs' w' \<Rightarrow> w' = w \<and> bs' \<le> bs \<and> (\<forall>x \<in> set xs. \<forall>s. f x = Inr s \<longrightarrow> bs' \<le> s) \<and>
        (b' = b \<and> bs' = bs \<or> b' \<in> set xs \<and> f b' = Inr bs')"
proof (induction xs arbitrary: n b bs)
  case (Cons x xs)
  show ?case
  proof (cases "cap > 0 \<and> n \<ge> cap")
    case False
    show ?thesis
    proof (cases "f x")
      case (Inl e)
      then show ?thesis using False assms [of x] Cons.IH [where n = "n + 1" and b = b and bs = bs]
        by (cases e) (auto split: scan.splits)
    next
      case (Inr s)
      then show ?thesis using False Cons.IH [where n = "n + 1" and b = x and bs = s] Cons.IH [where n = "n + 1" and b = b and bs = bs]
        by (cases "s < bs") (auto split: scan.splits)
    qed
  qed auto
qed simp

lemma check_any_total: "(\<And>s. s \<in> set ss \<Longrightarrow> CheckConvergence s h \<noteq> Inl err) \<Longrightarrow> check_any ss h \<noteq> Inl err"
proof (induction ss)
  case (Cons s ss)
  have "CheckConvergence s h \<noteq> Inl err" "check_any ss h \<noteq> Inl err" using Cons by auto
  then show ?case by (cases "CheckConvergence s h") (auto split: if_splits)
qed simp

lemma default_strategy_total: "CheckConvergence (NewCombinedStrategy (Some DefaultConvergenceConfig)) h \<noteq> Inl err"
proof -
  have "check_no_improvement DefaultConvergenceConfig h \<noteq> Inl err" by (simp add: check_no_improvement_def Let_def)
  moreover have "check_plateau DefaultConvergenceConfig h \<noteq> Inl err"
    by (auto simp: check_plateau_def DefaultConvergenceConfig_def slice_last_def slice_get_def Let_def)
  moreover have "check_threshold DefaultConvergenceConfig h \<noteq> Inl err"
    by (simp add: check_threshold_def DefaultConvergenceConfig_def slice_last_def Let_def)
  ultimately show ?thesis
    unfolding NewCombinedStrategy_def Let_def option.case CheckConvergence.simps(4) by (intro check_any_total) auto
qed

text \<open>The state of the climb: where it stands is the best configuration so far, and the history of scores falls to it.\<close>

definition climbing :: "(scenario \<Rightarrow> eval_error + float64) \<Rightarrow> float64 \<Rightarrow> int \<Rightarrow> scenario \<Rightarrow> float64 \<Rightarrow> optimizer \<Rightarrow> bool" where
  "climbing f s0 iteration cur curScore opt \<longleftrightarrow>
     f cur = Inr curScore \<and> curScore \<le> max_float64 \<and> scenario_maps cur \<and> op_bestScore opt = curScore \<and> op_bestConfig opt = Some cur \<and>
     (let scores = map ost_Score (op_history opt)
      in scores \<noteq> [] \<and> hd scores = s0 \<and> last scores = curScore \<and> sorted_wrt (\<ge>) scores) \<and>
     int (length (op_history opt)) = iteration \<and>
     op_convergenceStrategy opt \<in> {None, Some (NewCombinedStrategy (Some DefaultConvergenceConfig))}"

definition good_result :: "(scenario \<Rightarrow> eval_error + float64) \<Rightarrow> default_explorer \<Rightarrow> float64 \<Rightarrow> float64 \<Rightarrow> optimization_result \<Rightarrow> bool" where
  "good_result f e st s0 r \<longleftrightarrow> (\<exists>cfg. or_BestConfig r = Some cfg \<and> f cfg = Inr (or_BestScore r) \<and>
     (let scores = map ost_Score (or_History r)
      in scores \<noteq> [] \<and> hd scores = s0 \<and> last scores = or_BestScore r \<and> sorted_wrt (\<ge>) scores) \<and>
     (or_Converged r \<longrightarrow> (\<forall>nb \<in> set (GenerateNeighbors e cfg st). \<forall>s. f nb = Inr s \<longrightarrow> or_BestScore r \<le> s)))"

lemma good_result_stop:
  assumes "climbing f s0 iteration cur curScore opt"
    and "converged \<longrightarrow> (\<forall>nb \<in> set (GenerateNeighbors e cur st). \<forall>s. f nb = Inr s \<longrightarrow> curScore \<le> s)"
  shows "good_result f e st s0 (buildResult opt converged reason)"
  using assms by (auto simp: climbing_def good_result_def buildResult_def Let_def cloneScenario_id)

lemma desc_last: "sorted_wrt (\<ge>) xs \<Longrightarrow> y \<in> set xs \<Longrightarrow> last xs \<le> y"
  for xs :: "float64 list"
  by (induction xs) auto

lemma desc_snoc: "sorted_wrt (\<ge>) xs \<Longrightarrow> y \<le> last xs \<Longrightarrow> sorted_wrt (\<ge>) (xs @ [y])"
  for xs :: "float64 list"
  using desc_last by (fastforce simp: sorted_wrt_append)

lemma climbing_step:
  assumes "climbing f s0 iteration cur curScore opt" "score \<le> curScore" "f new = Inr score" "scenario_maps new"
    and "op_bestScore opt' = score" "op_bestConfig opt' = Some new" "op_history opt' = op_history opt"
    and "op_convergenceStrategy opt' = op_convergenceStrategy opt"
  shows "climbing f s0 (iteration + 1) new score (record_step iteration score new opt')"
  using assms desc_snoc [of "map ost_Score (op_history opt)" score]
  by (simp add: climbing_def record_step_def Let_def)

lemma climb_Cons:
  assumes "generateNeighbors (opt\<lparr>op_iteration := iteration\<rparr>) cur = (nbs, o1)" "nbs = first # rest"
  shows "climb ev (Suc k) iteration cur curScore n opt w =
      (case scan_neighbors ev (op_maxEvaluations o1) nbs n first max_float64 w of
                ScanCancelled w' \<Rightarrow> (Inl (Err ''context canceled''), o1, w')
              | ScanCap _ w' \<Rightarrow> (Inr (buildResult o1 False ''max evaluations reached''), o1, w')
              | ScanDone n' best bestScore w' \<Rightarrow>
                  if bestScore < curScore
                  then let o2 = (if bestScore < op_bestScore o1
                                 then o1\<lparr>op_bestScore := bestScore, op_bestConfig := Some (cloneScenario best)\<rparr> else o1)
                       in climb ev k (iteration + 1) best bestScore n' (record_step iteration bestScore best o2) w'
                  else let o2 = record_step iteration curScore cur o1
                       in (case converged_now o2 of
                             Inl err \<Rightarrow> (Inl err, o2, w')
                           | Inr (True, reason) \<Rightarrow> (Inr (buildResult o2 True reason), o2, w')
                           | Inr (False, _) \<Rightarrow> climb ev k (iteration + 1) cur curScore n' o2 w'))"
  using assms by simp

lemma converged_now_total:
  assumes "climbing f s0 iteration cur curScore opt"
  obtains b reason where "converged_now opt = Inr (b, reason)"
proof -
  have "converged_now opt \<noteq> Inl err" for err
    using assms default_strategy_total by (auto simp: climbing_def converged_now_def split: option.splits)
  then show ?thesis using that by (metis sumE surj_pair)
qed

lemma climb_pure:
  assumes nc: "\<And>s. f s \<noteq> Inl Canceled" and "climbing f s0 iteration cur curScore opt" "neighbor_explorer opt = e" "op_stepSize opt = st"
  shows "\<exists>r opt'. climb (pure_eval f) k iteration cur curScore n opt w = (Inr r, opt', w) \<and> good_result f e st s0 r \<and>
    or_Iterations r \<le> max (op_iteration opt) (iteration + int k - 1)"
  using assms(2-4)
proof (induction k arbitrary: iteration cur curScore n opt)
  case 0
  then show ?case using good_result_stop [OF 0(1), of False] by (auto simp: buildResult_def)
next
  case (Suc k)
  define o1 where "o1 = opt\<lparr>op_iteration := iteration, op_explorer := Some e\<rparr>"
  let ?nb = "GenerateNeighbors e cur st"
  have g: "generateNeighbors (opt\<lparr>op_iteration := iteration\<rparr>) cur = (?nb, o1)"
    using Suc.prems(2,3) by (simp add: generateNeighbors_def neighbor_explorer_def o1_def)
  have c1: "climbing f s0 iteration cur curScore o1" using Suc.prems(1) by (simp add: climbing_def o1_def)
  have e1: "neighbor_explorer (o1\<lparr>op_history := h, op_bestScore := b, op_bestConfig := c\<rparr>) = e" "neighbor_explorer o1 = e" for h b c
    by (simp_all add: neighbor_explorer_def o1_def)
  have i1: "op_iteration o1 = iteration" "op_stepSize o1 = st" using Suc.prems(3) by (simp_all add: o1_def)
  show ?case
  proof (cases ?nb)
    case Nil
    then show ?thesis using good_result_stop [OF c1, of True e st] i1 by (simp add: g buildResult_def)
  next
    case (Cons first rest)
    note cl = climb_Cons [OF g Cons]
    note sc = scan_pure [where f = f and cap = "op_maxEvaluations o1" and xs = ?nb and n = n and b = first and bs = max_float64 and w = w, OF nc]
    show ?thesis
    proof (cases "scan_neighbors (pure_eval f) (op_maxEvaluations o1) ?nb n first max_float64 w")
      case (ScanDone n' best bs w')
      note sd = sc [unfolded ScanDone scan.case]
      have maps: "scenario_maps cur" and cs: "curScore \<le> max_float64" using c1 by (simp_all add: climbing_def)
      show ?thesis
      proof (cases "bs < curScore")
        case True
        then have best: "best \<in> set ?nb" "f best = Inr bs" using sd cs by auto
        have mb: "scenario_maps best" using GenerateNeighbors_maps [OF maps best(1)] .
        define o2 where "o2 = o1\<lparr>op_bestScore := bs, op_bestConfig := Some best\<rparr>"
        have "climbing f s0 (iteration + 1) best bs (record_step iteration bs best o2)"
          by (rule climbing_step [OF c1]) (use True best mb in \<open>simp_all add: o2_def\<close>)
        moreover have "neighbor_explorer (record_step iteration bs best o2) = e" "op_stepSize (record_step iteration bs best o2) = st"
          using i1 by (simp_all add: record_step_def o2_def o1_def neighbor_explorer_def)
        moreover have "climb (pure_eval f) (Suc k) iteration cur curScore n opt w =
            climb (pure_eval f) k (iteration + 1) best bs n' (record_step iteration bs best o2) w"
          unfolding cl ScanDone using True sd c1 mb by (simp add: climbing_def o2_def cloneScenario_id)
        ultimately show ?thesis
          using Suc.IH [of "iteration + 1" best bs "record_step iteration bs best o2" n'] i1
          by (auto simp: record_step_def o2_def)
      next
        case False
        define o2 where "o2 = record_step iteration curScore cur o1"
        have c2: "climbing f s0 (iteration + 1) cur curScore o2" unfolding o2_def
          by (rule climbing_step [OF c1]) (use c1 in \<open>simp_all add: climbing_def\<close>)
        have loc: "\<forall>nb \<in> set ?nb. \<forall>s. f nb = Inr s \<longrightarrow> curScore \<le> s" using sd False by force
        have i2: "op_iteration o2 = iteration" "op_stepSize o2 = st" "neighbor_explorer o2 = e"
          using i1 by (simp_all add: o2_def record_step_def neighbor_explorer_def o1_def)
        obtain b reason where cv: "converged_now o2 = Inr (b, reason)" using c2 by (rule converged_now_total)
        have "climb (pure_eval f) (Suc k) iteration cur curScore n opt w =
            (if b then (Inr (buildResult o2 True reason), o2, w)
             else climb (pure_eval f) k (iteration + 1) cur curScore n' o2 w)"
          unfolding cl ScanDone using False sd cv by (simp add: o2_def Let_def)
        then show ?thesis
          using Suc.IH [of "iteration + 1" cur curScore o2 n', OF c2 i2(3,2)] good_result_stop [OF c2, of True e st] loc i2
          by (cases b) (auto simp: buildResult_def)
      qed
    next
      case (ScanCap n' w')
      have "w' = w" using sc by (simp add: ScanCap)
      then show ?thesis unfolding cl ScanCap using good_result_stop [OF c1, of False e st] i1 by (simp add: buildResult_def)
    next
      case (ScanCancelled w')
      then show ?thesis using sc by simp
    qed
  qed
qed

text \<open>The evaluations of a climb, counted.\<close>

definition counted :: "'w evaluator \<Rightarrow> ('w \<times> int) evaluator" where
  "counted ev s wn = (let (w, n) = wn; (r, w') = ev s w in (r, (w', n + 1)))"

lemma scan_counted:
  assumes "cap > 0" "n \<le> cap"
  shows "case scan_neighbors (counted ev) cap xs n b bs (w, n) of
      ScanCancelled w' \<Rightarrow> snd w' \<le> cap
    | ScanCap n' w' \<Rightarrow> snd w' \<le> cap
    | ScanDone n' b' bs' w' \<Rightarrow> n' \<le> cap \<and> snd w' = n'"
  using assms
proof (induction xs arbitrary: n b bs w)
  case (Cons x xs)
  show ?case
  proof (cases "n \<ge> cap")
    case False
    obtain r w' where ev: "ev x w = (r, w')" by fastforce
    note IH = Cons.IH [where n = "n + 1" and w = w']
    show ?thesis
    proof (cases r)
      case (Inl err)
      then show ?thesis using False Cons.prems IH [of b bs] ev by (cases err) (auto simp: counted_def)
    next
      case (Inr s)
      then show ?thesis using False Cons.prems IH [of b bs] IH [of x s] ev by (auto simp: counted_def)
    qed
  qed (use Cons.prems in auto)
qed simp

lemma climb_counted:
  assumes "op_maxEvaluations opt = cap" "cap > 0" "n \<le> cap"
  shows "snd (snd (snd (climb (counted ev) k iteration cur curScore n opt (w, n)))) \<le> cap"
  using assms
proof (induction k arbitrary: iteration cur curScore n opt w)
  case (Suc k)
  define o1 where "o1 = opt\<lparr>op_iteration := iteration, op_explorer := Some (neighbor_explorer opt)\<rparr>"
  obtain nbs where g: "generateNeighbors (opt\<lparr>op_iteration := iteration\<rparr>) cur = (nbs, o1)"
    by (simp add: generateNeighbors_def neighbor_explorer_def o1_def)
  have cap1: "op_maxEvaluations o1 = cap" using Suc.prems by (simp add: o1_def)
  show ?case
  proof (cases nbs)
    case Nil
    then show ?thesis using g Suc.prems by simp
  next
    case (Cons first rest)
    note sc = scan_counted [where ev = ev and xs = nbs and b = first and bs = max_float64 and w = w, OF Suc.prems(2,3)]
    have IH: "snd (snd (snd (climb (counted ev) k it c s n' o2 w'))) \<le> cap"
      if "op_maxEvaluations o2 = cap" "n' \<le> cap" "snd w' = n'" for it c s n' o2 w'
      using Suc.IH [of o2 n' it c s "fst w'"] that Suc.prems(2) by (cases w') auto
    show ?thesis
      unfolding climb_Cons [OF g Cons] cap1 using sc
      by (cases "scan_neighbors (counted ev) cap nbs n first max_float64 (w, n)")
        (auto simp: Let_def cap1 record_step_def split: sum.splits bool.splits intro!: IH)
  qed
qed simp

text \<open>C6: hill climbing never gets worse and stops only where the evidence says so. For an evaluation that is a
  function of the configuration, never cancelled and finite on the initial configuration, Optimize returns a result: the best
  score is the evaluation of the best configuration, the scores of the history start at the initial score and
  never rise down to the best score, the iterations stay within the bound, and a result that claims to have converged is a local optimum, no neighbour
  the explorer generates evaluating to less.\<close>

theorem hill_climb_sound:
  assumes "scenario_maps initial" "f initial = Inr s0" "s0 \<le> max_float64" "\<forall>s. f s \<noteq> Inl Canceled" "0 \<le> maxIter"
  shows "\<exists>r opt cfg. Optimize (Some initial) (\<lambda>s w. (f s, w))
        (WithMaxEvaluations cap (WithExplorer (Some e) (NewOptimizer maxIter st))) w = (Inr r, opt, w) \<and>
      or_BestConfig r = Some cfg \<and> f cfg = Inr (or_BestScore r) \<and> or_Iterations r \<le> maxIter \<and>
      or_History r \<noteq> [] \<and> ost_Score (hd (or_History r)) = s0 \<and> ost_Score (last (or_History r)) = or_BestScore r \<and>
      sorted_wrt (\<ge>) (map ost_Score (or_History r)) \<and>
      (or_Converged r \<longrightarrow> (\<forall>nb \<in> set (GenerateNeighbors e cfg (if st \<le> 0 then 1 else st)).
         \<forall>s. f nb = Inr s \<longrightarrow> or_BestScore r \<le> s))"
proof -
  define opt where "opt = WithMaxEvaluations cap (WithExplorer (Some e) (NewOptimizer maxIter st))"
  define o1 where "o1 = record_step 0 s0 initial (opt\<lparr>op_bestConfig := Some initial, op_iteration := 0, op_history := [], op_bestScore := s0\<rparr>)"
  have m: "op_maxIterations opt = maxIter" by (simp add: opt_def WithMaxEvaluations_def WithExplorer_def NewOptimizer_def)
  have "climbing f s0 1 initial s0 o1" "neighbor_explorer o1 = e" "op_stepSize o1 = (if st \<le> 0 then 1 else st)" "op_iteration o1 = 0"
    using assms(1-3) by (simp_all add: climbing_def o1_def opt_def record_step_def WithMaxEvaluations_def WithExplorer_def
      NewOptimizer_def neighbor_explorer_def)
  moreover have "Optimize (Some initial) (pure_eval f) opt w = climb (pure_eval f) (nat maxIter) 1 initial s0 1 o1 w"
    using assms(1,2) by (simp add: Optimize_def o1_def m cloneScenario_id)
  ultimately obtain r o2 where r: "Optimize (Some initial) (pure_eval f) opt w = (Inr r, o2, w)"
      "good_result f e (if st \<le> 0 then 1 else st) s0 r" "or_Iterations r \<le> maxIter"
    using climb_pure [of f s0 1 initial s0 o1 e _ "nat maxIter" 1 w] assms(4,5) by auto
  then show ?thesis unfolding opt_def [symmetric] good_result_def Let_def
    by (elim exE conjE) (intro exI [of _ r] exI [of _ o2], auto simp: hd_map last_map)
qed

theorem hill_climb_sound_witness:
  "\<exists>r opt cfg. Optimize (Some (demo_scenario 2)) (\<lambda>s w. (Inr (of_int (sum_list (map sv_Replicas (sc_Services s)))), w))
      (WithMaxEvaluations 0 (WithExplorer (Some NewDefaultExplorer) (NewOptimizer 5 1))) (0::nat) = (Inr r, opt, 0) \<and>
    or_BestConfig r = Some cfg \<and> or_BestScore r = of_int (sum_list (map sv_Replicas (sc_Services cfg)))"
proof -
  define f where "f = (\<lambda>s::scenario. Inr (of_int (sum_list (map sv_Replicas (sc_Services s)))) :: eval_error + float64)"
  have "scenario_maps (demo_scenario 2)" "f (demo_scenario 2) = Inr 2" "\<forall>s. f s \<noteq> Inl Canceled"
    by (simp_all add: scenario_maps_def demo_scenario_def demo_service_def service_maps_def routing_maps_def f_def)
  moreover have "(2::float64) \<le> max_float64" by (simp add: max_float64_def)
  ultimately show ?thesis
    using hill_climb_sound [of "demo_scenario 2" f 2 5 0 NewDefaultExplorer 1 0] by (auto simp: f_def)
qed

text \<open>C35: the cap on evaluations holds whatever the evaluations return, failures and cancellation included: with a
  positive cap, Optimize calls the evaluation function at most that many times, the initial configuration counted.\<close>

theorem evaluation_budget:
  assumes "0 < op_maxEvaluations opt"
  shows "snd (snd (snd (Optimize initial (counted ev) opt (w, 0)))) \<le> op_maxEvaluations opt"
proof (cases initial)
  case (Some i)
  define o1 where "o1 = opt\<lparr>op_bestConfig := Some (cloneScenario i), op_iteration := 0, op_history := []\<rparr>"
  obtain r w' where ev: "ev i w = (r, w')" by fastforce
  have "counted ev i (w, 0) = (r, (w', 1))" using ev by (simp add: counted_def)
  then show ?thesis
    using climb_counted [of "record_step 0 s i (o1\<lparr>op_bestScore := s\<rparr>)" "op_maxEvaluations opt" 1 for s] assms Some
    by (cases r) (auto simp: Optimize_def Let_def record_step_def o1_def [symmetric] split: eval_error.splits, simp_all add: o1_def)
qed (use assms in \<open>simp add: Optimize_def\<close>)

theorem evaluation_budget_witness:
  "snd (snd (snd (Optimize (Some (demo_scenario 2)) (counted (\<lambda>s w. (Inr 1, w)))
     (WithMaxEvaluations 3 (NewOptimizer 5 1)) ((), 0)))) \<le> 3"
  using evaluation_budget [of "WithMaxEvaluations 3 (NewOptimizer 5 1)" "Some (demo_scenario 2)" "\<lambda>s w. (Inr 1, w)" "()"]
  by (simp add: WithMaxEvaluations_def NewOptimizer_def)

end
