(* ===== verification/Improve_Selection.thy ===== *)
theory Improve_Selection
  imports Improve_Objective
begin

text \<open>
  The choice of the best configuration among evaluated candidates, \<open>internal/improvement/selection.go\<close>. Candidates
  are pointers: the identity of a candidate is its position in the slice.
\<close>

record configuration_candidate =
  cca_Config :: "scenario option"
  cca_RunID :: string
  cca_Metrics :: "run_metrics_pb option"
  cca_Score :: float64
  cca_Iteration :: int
  cca_Evaluated :: bool

definition evaluated_candidates :: "configuration_candidate list \<Rightarrow> configuration_candidate list" where
  "evaluated_candidates cands = filter (\<lambda>c. cca_Evaluated c \<and> cca_Metrics c \<noteq> None) cands"

text \<open>The scan that keeps the first candidate with the least key.\<close>

fun least_by :: "('a \<Rightarrow> float64) \<Rightarrow> 'a \<Rightarrow> 'a list \<Rightarrow> 'a" where
  "least_by key best [] = best"
| "least_by key best (c # cs) = least_by key (if key c < key best then c else best) cs"

definition select_from ::
  "configuration_candidate list \<Rightarrow> objective option \<Rightarrow>
   (configuration_candidate list \<Rightarrow> objective \<Rightarrow> configuration_candidate) \<Rightarrow> go_error + configuration_candidate" where
  "select_from cands obj pick =
     (if cands = [] then Inl (Err ''no candidates provided'')
      else case obj of None \<Rightarrow> Inl (Err ''objective function is required'') | Some g \<Rightarrow>
        let evaluated = evaluated_candidates cands
        in if evaluated = [] then Inl (Err ''no evaluated candidates'') else Inr (pick evaluated g))"

definition SelectBest_score :: "configuration_candidate list \<Rightarrow> objective option \<Rightarrow> go_error + configuration_candidate" where
  "SelectBest_score cands obj = select_from cands obj (\<lambda>ev _. least_by cca_Score (hd ev) (tl ev))"

definition close_scores :: "float64 \<Rightarrow> float64 \<Rightarrow> bool" where
  "close_scores a b \<longleftrightarrow> \<bar>fsub a b\<bar> < fl (1 / 10000)"

fun dominates_secondary :: "configuration_candidate \<Rightarrow> configuration_candidate \<Rightarrow> objective list \<Rightarrow> bool \<Rightarrow> bool" where
  "dominates_secondary c1 c2 [] atLeastOneBetter = atLeastOneBetter"
| "dominates_secondary c1 c2 (obj # objs) atLeastOneBetter =
     (case (Evaluate obj (cca_Metrics c1), Evaluate obj (cca_Metrics c2)) of
        (Inr score1, Inr score2) \<Rightarrow>
          if \<not> score1 \<le> score2 \<and> \<not> close_scores score1 score2 then False
          else dominates_secondary c1 c2 objs (atLeastOneBetter \<or> score1 \<le> score2)
      | _ \<Rightarrow> dominates_secondary c1 c2 objs atLeastOneBetter)"

definition dominates :: "configuration_candidate \<Rightarrow> configuration_candidate \<Rightarrow> objective list \<Rightarrow> bool" where
  "dominates c1 c2 secondary =
     (let primaryBetter = cca_Score c1 \<le> cca_Score c2; primaryEqual = close_scores (cca_Score c1) (cca_Score c2)
      in if \<not> primaryBetter \<and> \<not> primaryEqual then False else dominates_secondary c1 c2 secondary primaryBetter)"

definition dominated :: "objective list \<Rightarrow> configuration_candidate list \<Rightarrow> nat \<Rightarrow> bool" where
  "dominated secondary cands i \<longleftrightarrow> (\<exists>j < length cands. j \<noteq> i \<and> dominates (cands ! j) (cands ! i) secondary)"

definition findParetoOptimal :: "configuration_candidate list \<Rightarrow> objective list \<Rightarrow> configuration_candidate list" where
  "findParetoOptimal cands secondary = map (\<lambda>i. cands ! i) (filter (\<lambda>i. \<not> dominated secondary cands i) [0..<length cands])"

definition SelectBest_pareto ::
  "objective list \<Rightarrow> configuration_candidate list \<Rightarrow> objective option \<Rightarrow> go_error + configuration_candidate" where
  "SelectBest_pareto secondary cands obj = select_from cands obj (\<lambda>ev _.
     case findParetoOptimal ev secondary of [] \<Rightarrow> least_by cca_Score (hd ev) (tl ev) | p # ps \<Rightarrow> least_by cca_Score p ps)"

definition calculateWeightedScore :: "(string, float64) gomap \<Rightarrow> objective \<Rightarrow> configuration_candidate \<Rightarrow> float64" where
  "calculateWeightedScore weights primary c =
     foldl (\<lambda>score (objName, weight).
       if objName = Name primary then score
       else case NewObjectiveFunction objName None of Inl _ \<Rightarrow> score | Inr obj \<Rightarrow>
              (case Evaluate obj (cca_Metrics c) of Inl _ \<Rightarrow> score | Inr objScore \<Rightarrow> fadd score (fmul weight objScore)))
       (cca_Score c) weights"

definition SelectBest_balanced ::
  "(string, float64) gomap \<Rightarrow> configuration_candidate list \<Rightarrow> objective option \<Rightarrow> go_error + configuration_candidate" where
  "SelectBest_balanced weights cands obj = select_from cands obj (\<lambda>ev g.
     least_by (calculateWeightedScore weights g) (hd ev) (tl ev))"

definition SelectBestConfiguration :: "configuration_candidate list \<Rightarrow> objective option \<Rightarrow> go_error + configuration_candidate" where
  "SelectBestConfiguration = SelectBest_score"

definition EvaluateCandidate ::
  "configuration_candidate option \<Rightarrow> objective option \<Rightarrow> go_error option \<times> configuration_candidate option" where
  "EvaluateCandidate cand obj =
     (case cand of None \<Rightarrow> (Some (Err ''candidate is nil''), None) | Some c \<Rightarrow>
      if cca_Metrics c = None then (Some (Err ''candidate metrics are nil''), cand)
      else case obj of None \<Rightarrow> (Some (Err ''objective function is nil''), cand) | Some g \<Rightarrow>
        (case Evaluate g (cca_Metrics c) of
           Inl _ \<Rightarrow> (Some (Err ''failed to evaluate objective: %w''), cand)
         | Inr score \<Rightarrow> (None, Some (c\<lparr>cca_Score := score, cca_Evaluated := True\<rparr>))))"

subsection \<open>What the strategies select\<close>

lemma least_by_least:
  "least_by key best cs \<in> set (best # cs) \<and> (\<forall>c \<in> set (best # cs). key (least_by key best cs) \<le> key c)"
  by (induction cs arbitrary: best) (auto, force+)

lemma least_by_hd: "cs \<noteq> [] \<Longrightarrow> least_by key (hd cs) (tl cs) \<in> set cs \<and> (\<forall>c \<in> set cs. key (least_by key (hd cs) (tl cs)) \<le> key c)"
  using least_by_least [of key "hd cs" "tl cs"] by simp

lemma select_from_total:
  "(\<exists>c. select_from cands obj pick = Inr c) \<longleftrightarrow> obj \<noteq> None \<and> evaluated_candidates cands \<noteq> []"
  by (auto simp: select_from_def evaluated_candidates_def Let_def split: option.splits)

lemma select_from_Inr:
  "select_from cands obj pick = Inr c \<Longrightarrow> evaluated_candidates cands \<noteq> [] \<and> (\<exists>g. obj = Some g \<and> c = pick (evaluated_candidates cands) g)"
  by (auto simp: select_from_def Let_def split: option.splits if_splits)

lemma findParetoOptimal_set:
  "c \<in> set (findParetoOptimal cands secondary) \<longleftrightarrow> (\<exists>i < length cands. c = cands ! i \<and> \<not> dominated secondary cands i)"
  by (auto simp: findParetoOptimal_def)

text \<open>C36: every selection strategy fails exactly when there is no objective or no evaluated candidate, and otherwise returns
  one of the evaluated candidates. The score strategy returns one with the least score; the weighted strategy one with the
  least weighted sum; the Pareto strategy one with the least score among the candidates that no other
  candidate dominates, or among all of them when each is dominated by another.\<close>

theorem selection_sound:
  "(\<exists>c. SelectBest_score cands obj = Inr c) = (obj \<noteq> None \<and> evaluated_candidates cands \<noteq> []) \<and>
   (\<exists>c. SelectBest_pareto secondary cands obj = Inr c) = (obj \<noteq> None \<and> evaluated_candidates cands \<noteq> []) \<and>
   (\<exists>c. SelectBest_balanced weights cands obj = Inr c) = (obj \<noteq> None \<and> evaluated_candidates cands \<noteq> []) \<and>
   (SelectBest_score cands obj = Inr a \<longrightarrow>
      a \<in> set (evaluated_candidates cands) \<and> (\<forall>c \<in> set (evaluated_candidates cands). cca_Score a \<le> cca_Score c)) \<and>
   (SelectBest_balanced weights cands obj = Inr b \<longrightarrow>
      b \<in> set (evaluated_candidates cands) \<and> (\<forall>c \<in> set (evaluated_candidates cands).
        calculateWeightedScore weights (the obj) b \<le> calculateWeightedScore weights (the obj) c)) \<and>
   (SelectBest_pareto secondary cands obj = Inr p \<longrightarrow>
      (let ev = evaluated_candidates cands; free = {i. i < length ev \<and> \<not> dominated secondary ev i} in
       if free = {} then p \<in> set ev \<and> (\<forall>c \<in> set ev. cca_Score p \<le> cca_Score c)
       else (\<exists>i \<in> free. p = ev ! i) \<and> (\<forall>i \<in> free. cca_Score p \<le> cca_Score (ev ! i))))"
proof -
  let ?ev = "evaluated_candidates cands"
  have score: "SelectBest_score cands obj = Inr a \<longrightarrow> a \<in> set ?ev \<and> (\<forall>c \<in> set ?ev. cca_Score a \<le> cca_Score c)"
    using least_by_hd [of ?ev cca_Score] by (auto simp: SelectBest_score_def dest!: select_from_Inr)
  have balanced: "SelectBest_balanced weights cands obj = Inr b \<longrightarrow> b \<in> set ?ev \<and> (\<forall>c \<in> set ?ev.
      calculateWeightedScore weights (the obj) b \<le> calculateWeightedScore weights (the obj) c)"
    using least_by_hd [of ?ev "calculateWeightedScore weights (the obj)"]
    by (auto simp: SelectBest_balanced_def dest!: select_from_Inr)
  have pareto: "SelectBest_pareto secondary cands obj = Inr p \<longrightarrow>
      (if {i. i < length ?ev \<and> \<not> dominated secondary ?ev i} = {} then p \<in> set ?ev \<and> (\<forall>c \<in> set ?ev. cca_Score p \<le> cca_Score c)
       else (\<exists>i \<in> {i. i < length ?ev \<and> \<not> dominated secondary ?ev i}. p = ?ev ! i) \<and>
         (\<forall>i \<in> {i. i < length ?ev \<and> \<not> dominated secondary ?ev i}. cca_Score p \<le> cca_Score (?ev ! i)))"
  proof (intro impI)
    assume "SelectBest_pareto secondary cands obj = Inr p"
    then have ne: "?ev \<noteq> []" and p: "p = (case findParetoOptimal ?ev secondary of
        [] \<Rightarrow> least_by cca_Score (hd ?ev) (tl ?ev) | p # ps \<Rightarrow> least_by cca_Score p ps)"
      by (auto simp: SelectBest_pareto_def dest!: select_from_Inr)
    show "if {i. i < length ?ev \<and> \<not> dominated secondary ?ev i} = {} then p \<in> set ?ev \<and> (\<forall>c \<in> set ?ev. cca_Score p \<le> cca_Score c)
       else (\<exists>i \<in> {i. i < length ?ev \<and> \<not> dominated secondary ?ev i}. p = ?ev ! i) \<and>
         (\<forall>i \<in> {i. i < length ?ev \<and> \<not> dominated secondary ?ev i}. cca_Score p \<le> cca_Score (?ev ! i))"
    proof (cases "findParetoOptimal ?ev secondary")
      case Nil
      then have "{i. i < length ?ev \<and> \<not> dominated secondary ?ev i} = {}"
        using findParetoOptimal_set [of _ ?ev secondary] by auto
      then show ?thesis using least_by_hd [OF ne, of cca_Score] p Nil by simp
    next
      case (Cons q qs)
      have "p \<in> set (findParetoOptimal ?ev secondary)" "\<forall>c \<in> set (findParetoOptimal ?ev secondary). cca_Score p \<le> cca_Score c"
        using least_by_least [of cca_Score q qs] p Cons by auto
      then show ?thesis using findParetoOptimal_set [of _ ?ev secondary] by auto
    qed
  qed
  show ?thesis using score balanced pareto
    by (simp add: SelectBest_score_def SelectBest_pareto_def SelectBest_balanced_def select_from_total Let_def)
qed

definition demo_candidate :: "string \<Rightarrow> float64 \<Rightarrow> float64 \<Rightarrow> configuration_candidate" where
  "demo_candidate rid score tput = \<lparr>cca_Config = None, cca_RunID = rid, cca_Metrics = Some (demo_metrics score tput), cca_Score = score,
     cca_Iteration = 0, cca_Evaluated = True\<rparr>"

theorem selection_sound_witness:
  "\<exists>c. SelectBest_score [demo_candidate ''a'' 2 5, demo_candidate ''b'' 1 5] (Some P95LatencyObjective) = Inr c \<and>
     cca_Score c \<le> 1"
proof -
  let ?cs = "[demo_candidate ''a'' 2 5, demo_candidate ''b'' 1 5]"
  have ev: "evaluated_candidates ?cs = ?cs" by (simp add: evaluated_candidates_def demo_candidate_def)
  note s = selection_sound [of ?cs "Some P95LatencyObjective" "[]" "[]", unfolded ev]
  obtain c where c: "SelectBest_score ?cs (Some P95LatencyObjective) = Inr c" using conjunct1 [OF s] by blast
  then have "cca_Score c \<le> cca_Score (demo_candidate ''b'' 1 5)" using s [of c] by auto
  then show ?thesis using c by (auto simp: demo_candidate_def)
qed

text \<open>
  Two equal candidates dominate each other, since a score that is less or equal counts as better: both leave the Pareto set, and a
  candidate with a worse primary score is selected.
\<close>

lemma pareto_loses_equal_candidates:
  "SelectBest_pareto [ThroughputObjective] [demo_candidate ''a'' 1 10, demo_candidate ''b'' 1 10, demo_candidate ''c'' 2 20]
     (Some P95LatencyObjective) = Inr (demo_candidate ''c'' 2 20)"
  by code_simp

end
