(* ===== verification/Batch_Score.thy ===== *)
theory Batch_Score
  imports Improve_Objective Go_Hash
begin

text \<open>
  The score of a batch candidate, \<open>internal/improvement/batch_score.go\<close>, and the registry of candidates,
  \<open>candidate_store.go\<close>: violations of the limits, efficiency, and the feasibility-first order.
\<close>

definition scoreEps :: float64 where
  "scoreEps = fl (1 / 1000000000)"

record batch_score =
  bsc_Feasible :: bool
  bsc_ViolationScore :: float64
  bsc_EfficiencyScore :: float64
  bsc_LatViolation :: float64
  bsc_P99Violation :: float64
  bsc_ErrViolation :: float64
  bsc_TputViolation :: float64
  bsc_QueueDepthViolation :: float64
  bsc_TopicBacklogViolation :: float64
  bsc_TopicLagViolation :: float64
  bsc_QueueOldestAgeViolation :: float64
  bsc_TopicOldestAgeViolation :: float64
  bsc_QueueDropViolation :: float64
  bsc_TopicDropViolation :: float64
  bsc_QueueDlqViolation :: float64
  bsc_TopicDlqViolation :: float64
  bsc_LocalityViolation :: float64
  bsc_CrossZoneViolation :: float64
  bsc_TopologyLatencyViolation :: float64
  bsc_InfraCost :: float64
  bsc_ServiceCPUBal :: float64
  bsc_ServiceMemBal :: float64
  bsc_HostCPUBal :: float64
  bsc_HostMemBal :: float64
  bsc_Churn :: float64
  bsc_LocalityPenalty :: float64
  bsc_CrossZonePenalty :: float64
  bsc_TopologyPenalty :: float64

definition bandPenalty :: "float64 \<Rightarrow> float64 \<Rightarrow> float64 \<Rightarrow> float64" where
  "bandPenalty u low high = (if u \<ge> low \<and> u \<le> high then 0 else if u < low then fsub low u else fsub u high)"

text \<open>Maximum and mean of the utilisations of a list, and its length.\<close>

definition util_stats :: "('a \<Rightarrow> float64) \<Rightarrow> 'a list \<Rightarrow> float64 \<times> float64" where
  "util_stats u xs =
     (foldl (\<lambda>m x. if u x > m then u x else m) 0 xs,
      if xs = [] then 0 else fdiv (sum_over u xs) (of_int64 (int (length xs))))"

definition serviceUtilStats :: "run_metrics_pb option \<Rightarrow> float64 \<times> float64 \<times> float64 \<times> float64 \<times> nat" where
  "serviceUtilStats m =
     (case m of None \<Rightarrow> (0, 0, 0, 0, 0) | Some m \<Rightarrow>
        let svcs = filter (\<lambda>svc. \<not> client_service svc) (xm_ServiceMetrics m);
            (maxCPU, meanCPU) = util_stats xs_CpuUtilization svcs; (maxMem, meanMem) = util_stats xs_MemoryUtilization svcs
        in (maxCPU, meanCPU, maxMem, meanMem, length svcs))"

definition hostUtilStats :: "run_metrics_pb option \<Rightarrow> float64 \<times> float64 \<times> float64 \<times> float64 \<times> nat" where
  "hostUtilStats m =
     (case m of None \<Rightarrow> (0, 0, 0, 0, 0) | Some m \<Rightarrow>
        let hosts = xm_HostMetrics m;
            (maxCPU, meanCPU) = util_stats xh_CpuUtilization hosts; (maxMem, meanMem) = util_stats xh_MemoryUtilization hosts
        in (maxCPU, meanCPU, maxMem, meanMem, length hosts))"

definition balanceTerm :: "float64 \<Rightarrow> float64 \<Rightarrow> float64 \<Rightarrow> float64 \<Rightarrow> float64" where
  "balanceTerm maxU meanU low high =
     fadd (fmul (fl (7 / 10)) (bandPenalty maxU low high)) (fmul (fl (3 / 10)) (bandPenalty meanU low high))"

text \<open>A sum of products, added from the left as the source writes it.\<close>

fun weighted_sum :: "(float64 \<times> float64) list \<Rightarrow> float64" where
  "weighted_sum [] = 0"
| "weighted_sum ((w, v) # wvs) = foldl (\<lambda>t (w, v). fadd t (fmul w v)) (fmul w v) wvs"

definition host_memory :: "host_spec \<Rightarrow> int" where
  "host_memory h = (if ho_MemoryGB h < 1 then 16 else ho_MemoryGB h)"

definition ComputeInfraCostWeighted :: "scenario option \<Rightarrow> batch_cost_weights option \<Rightarrow> float64" where
  "ComputeInfraCostWeighted os ow =
     (case (os, ow) of
        (Some s, Some w) \<Rightarrow>
          let svcs = sc_Services s; hosts = sc_Hosts s;
              sumCPU = sum_over (\<lambda>svc. fmul (effective_replicas svc) (effective_cpu svc)) svcs;
              sumMemGB = sum_over (\<lambda>svc. fmul (effective_replicas svc) (fdiv (effective_memory svc) 1024)) svcs;
              sumRep = sum_over effective_replicas svcs;
              hostCores = foldl (\<lambda>t h. wrap64 (t + ho_Cores h)) 0 hosts;
              hostMem = foldl (\<lambda>t h. wrap64 (t + host_memory h)) 0 hosts
          in weighted_sum [(bcw_ServiceCpu w, sumCPU), (bcw_ServiceMemoryGb w, sumMemGB), (bcw_Replicas w, sumRep),
               (bcw_Hosts w, of_int64 (int (length hosts))), (bcw_HostCpu w, of_int64 hostCores),
               (bcw_HostMemoryGb w, of_int64 hostMem)]
      | _ \<Rightarrow> EvaluateInfrastructureCost os)"

definition churn_of :: "service \<Rightarrow> service \<Rightarrow> float64 list" where
  "churn_of b c =
     (if sv_ID b \<noteq> sv_ID c then []
      else [fdiv \<bar>of_int64 (wrap64 (sv_Replicas c - sv_Replicas b))\<bar> (max 1 (of_int64 (sv_Replicas b))),
            fdiv \<bar>fsub (sv_CPUCores c) (sv_CPUCores b)\<bar> (max (1 / 4) (sv_CPUCores b)),
            fdiv \<bar>fsub (sv_MemoryMB c) (sv_MemoryMB b)\<bar> (max 128 (sv_MemoryMB b))])"

definition ComputeChurn :: "scenario option \<Rightarrow> scenario option \<Rightarrow> float64" where
  "ComputeChurn base cur =
     (case (base, cur) of
        (Some b, Some c) \<Rightarrow>
          foldl fadd 0 (concat (map (\<lambda>(bs, cs). churn_of bs cs) (zip (sc_Services b) (sc_Services c))) @
            [fdiv \<bar>of_int64 (int (length (sc_Hosts c)) - int (length (sc_Hosts b)))\<bar> (max 1 (of_int64 (int (length (sc_Hosts b)))))])
      | _ \<Rightarrow> 0)"

text \<open>How far a value is above its limit, or below the value required, relative to the limit; no limit is set at zero.\<close>

definition above_limit :: "float64 \<Rightarrow> float64 \<Rightarrow> float64" where
  "above_limit limit x = (if limit > 0 then max 0 (fsub (fdiv x limit) 1) else 0)"

definition below_limit :: "float64 \<Rightarrow> float64 \<Rightarrow> float64" where
  "below_limit required x = (if required > 0 then max 0 (fsub (fdiv required (max x scoreEps)) 1) else 0)"

definition penalty_weights :: "batch_spec \<Rightarrow> batch_penalty_weights" where
  "penalty_weights spec = (case bsp_PenaltyWeights spec of None \<Rightarrow> default_penalty_weights | Some w \<Rightarrow> w)"

definition cost_weights :: "batch_spec \<Rightarrow> batch_cost_weights" where
  "cost_weights spec = (case bsp_CostWeights spec of None \<Rightarrow> default_cost_weights | Some w \<Rightarrow> w)"

definition effective_throughput :: "run_metrics_pb \<Rightarrow> float64" where
  "effective_throughput m = (if xm_IngressThroughputRps m \<le> 0 then xm_ThroughputRps m else xm_IngressThroughputRps m)"

definition zero_score :: batch_score where
  "zero_score = \<lparr>bsc_Feasible = False, bsc_ViolationScore = 0, bsc_EfficiencyScore = 0, bsc_LatViolation = 0,
     bsc_P99Violation = 0, bsc_ErrViolation = 0, bsc_TputViolation = 0, bsc_QueueDepthViolation = 0,
     bsc_TopicBacklogViolation = 0, bsc_TopicLagViolation = 0, bsc_QueueOldestAgeViolation = 0,
     bsc_TopicOldestAgeViolation = 0, bsc_QueueDropViolation = 0, bsc_TopicDropViolation = 0, bsc_QueueDlqViolation = 0,
     bsc_TopicDlqViolation = 0, bsc_LocalityViolation = 0, bsc_CrossZoneViolation = 0, bsc_TopologyLatencyViolation = 0,
     bsc_InfraCost = 0, bsc_ServiceCPUBal = 0, bsc_ServiceMemBal = 0, bsc_HostCPUBal = 0, bsc_HostMemBal = 0, bsc_Churn = 0,
     bsc_LocalityPenalty = 0, bsc_CrossZonePenalty = 0, bsc_TopologyPenalty = 0\<rparr>"

definition score_violations :: "batch_spec \<Rightarrow> run_metrics_pb option \<Rightarrow> batch_score \<Rightarrow> batch_score" where
  "score_violations spec om out =
     (let out1 = out\<lparr>
            bsc_LatViolation := above_limit (bsp_MaxP95Ms spec) (case om of None \<Rightarrow> 0 | Some m \<Rightarrow> xm_LatencyP95Ms m),
            bsc_P99Violation := above_limit (bsp_MaxP99Ms spec) (case om of None \<Rightarrow> 0 | Some m \<Rightarrow> xm_LatencyP99Ms m),
            bsc_ErrViolation := above_limit (bsp_MaxErrorRate spec) (UserVisibleErrorRate om),
            bsc_TputViolation := below_limit (bsp_MinThroughput spec) (case om of None \<Rightarrow> 0 | Some m \<Rightarrow> effective_throughput m)\<rparr>
      in case om of None \<Rightarrow> out1 | Some m \<Rightarrow> out1\<lparr>
            bsc_QueueDepthViolation := above_limit (bsp_MaxQueueDepthSum spec) (xm_QueueDepthSum m),
            bsc_TopicBacklogViolation := above_limit (bsp_MaxTopicBacklogDepthSum spec) (xm_TopicBacklogDepthSum m),
            bsc_TopicLagViolation := above_limit (bsp_MaxTopicConsumerLagSum spec) (xm_TopicConsumerLagSum m),
            bsc_QueueOldestAgeViolation := above_limit (bsp_MaxQueueOldestMessageAgeMs spec) (xm_QueueOldestMessageAgeMs m),
            bsc_TopicOldestAgeViolation := above_limit (bsp_MaxTopicOldestMessageAgeMs spec) (xm_TopicOldestMessageAgeMs m),
            bsc_QueueDropViolation := above_limit (bsp_MaxQueueDropCount spec) (of_int64 (xm_QueueDropCountTotal m)),
            bsc_TopicDropViolation := above_limit (bsp_MaxTopicDropCount spec) (of_int64 (xm_TopicDropCountTotal m)),
            bsc_QueueDlqViolation := above_limit (bsp_MaxQueueDlqCount spec) (of_int64 (xm_QueueDlqCountTotal m)),
            bsc_TopicDlqViolation := above_limit (bsp_MaxTopicDlqCount spec) (of_int64 (xm_TopicDlqCountTotal m)),
            bsc_LocalityViolation := below_limit (bsp_MinLocalityHitRate spec) (xm_LocalityHitRate m),
            bsc_CrossZoneViolation := above_limit (bsp_MaxCrossZoneRequestFraction spec) (xm_CrossZoneRequestFraction m),
            bsc_TopologyLatencyViolation :=
              above_limit (bsp_MaxTopologyLatencyPenaltyMeanMs spec) (xm_TopologyLatencyPenaltyMsMean m)\<rparr>)"

definition violation_terms :: "batch_penalty_weights \<Rightarrow> batch_score \<Rightarrow> (float64 \<times> float64) list" where
  "violation_terms pw out =
     [(bpw_P95 pw, bsc_LatViolation out), (bpw_P99 pw, bsc_P99Violation out), (bpw_ErrorRate pw, bsc_ErrViolation out),
      (bpw_Throughput pw, bsc_TputViolation out), (bpw_QueueDepth pw, bsc_QueueDepthViolation out),
      (bpw_TopicBacklog pw, bsc_TopicBacklogViolation out), (bpw_TopicLag pw, bsc_TopicLagViolation out),
      (bpw_QueueOldestAge pw, bsc_QueueOldestAgeViolation out), (bpw_TopicOldestAge pw, bsc_TopicOldestAgeViolation out),
      (bpw_QueueDrop pw, bsc_QueueDropViolation out), (bpw_TopicDrop pw, bsc_TopicDropViolation out),
      (bpw_QueueDlq pw, bsc_QueueDlqViolation out), (bpw_TopicDlq pw, bsc_TopicDlqViolation out),
      (bpw_Locality pw, bsc_LocalityViolation out), (bpw_CrossZone pw, bsc_CrossZoneViolation out),
      (bpw_TopologyLatency pw, bsc_TopologyLatencyViolation out)]"

definition score_balance :: "batch_spec \<Rightarrow> run_metrics_pb option \<Rightarrow> batch_score \<Rightarrow> batch_score" where
  "score_balance spec m out =
     (let (maxCPU, meanCPU, maxMem, meanMem, n) = serviceUtilStats m;
          (hMaxCPU, hMeanCPU, hMaxMem, hMeanMem, hn) = hostUtilStats m;
          out1 = (if n > 0 then out\<lparr>
                    bsc_ServiceCPUBal := balanceTerm maxCPU meanCPU (bsp_ServiceCPUBandLow spec) (bsp_ServiceCPUBandHigh spec),
                    bsc_ServiceMemBal := balanceTerm maxMem meanMem (bsp_ServiceMemBandLow spec) (bsp_ServiceMemBandHigh spec)\<rparr>
                  else out)
      in if hn > 0 then out1\<lparr>
           bsc_HostCPUBal := balanceTerm hMaxCPU hMeanCPU (bsp_HostCPUBandLow spec) (bsp_HostCPUBandHigh spec),
           bsc_HostMemBal := balanceTerm hMaxMem hMeanMem (bsp_HostMemBandLow spec) (bsp_HostMemBandHigh spec)\<rparr>
         else if n > 0 then out1\<lparr>
           bsc_HostCPUBal := balanceTerm maxCPU meanCPU (bsp_HostCPUBandLow spec) (bsp_HostCPUBandHigh spec),
           bsc_HostMemBal := balanceTerm maxMem meanMem (bsp_HostMemBandLow spec) (bsp_HostMemBandHigh spec)\<rparr>
         else out1)"

definition efficiency_of :: "batch_penalty_weights \<Rightarrow> batch_cost_weights \<Rightarrow> batch_score \<Rightarrow> float64" where
  "efficiency_of pw cw out =
     foldl (\<lambda>t (w, v). fadd t (fmul w v)) (bsc_InfraCost out)
       [(bpw_ServiceCpuBalance pw, bsc_ServiceCPUBal out), (bpw_ServiceMemoryBalance pw, bsc_ServiceMemBal out),
        (bpw_HostCpuBalance pw, bsc_HostCPUBal out), (bpw_HostMemoryBalance pw, bsc_HostMemBal out),
        (bpw_Locality pw, bsc_LocalityPenalty out), (bpw_CrossZone pw, bsc_CrossZonePenalty out),
        (bpw_TopologyLatency pw, bsc_TopologyPenalty out), (bcw_Churn cw, bsc_Churn out)]"

definition ComputeBatchScore ::
  "batch_spec option \<Rightarrow> scenario option \<Rightarrow> scenario option \<Rightarrow> run_metrics_pb option \<Rightarrow> batch_score" where
  "ComputeBatchScore ospec baseline scenario m =
     (case ospec of None \<Rightarrow> zero_score | Some spec \<Rightarrow>
        let pw = penalty_weights spec; cw = cost_weights spec;
            out1 = score_violations spec m zero_score;
            out2 = out1\<lparr>bsc_ViolationScore := weighted_sum (violation_terms pw out1)\<rparr>;
            out3 = (score_balance spec m out2)\<lparr>bsc_InfraCost := ComputeInfraCostWeighted scenario (Some cw),
                      bsc_Churn := ComputeChurn baseline scenario\<rparr>;
            out4 = (case m of None \<Rightarrow> out3 | Some m \<Rightarrow> out3\<lparr>bsc_LocalityPenalty := max 0 (fsub 1 (xm_LocalityHitRate m)),
                      bsc_CrossZonePenalty := xm_CrossZoneRequestFraction m,
                      bsc_TopologyPenalty := xm_TopologyLatencyPenaltyMsMean m\<rparr>)
        in out4\<lparr>bsc_EfficiencyScore := efficiency_of pw cw out4, bsc_Feasible := bsc_ViolationScore out4 \<le> scoreEps\<rparr>)"

definition CompareBatchScores :: "batch_score \<Rightarrow> batch_score \<Rightarrow> 64 word \<Rightarrow> 64 word \<Rightarrow> bool" where
  "CompareBatchScores a b hashA hashB =
     (if bsc_Feasible a \<noteq> bsc_Feasible b then bsc_Feasible a \<and> \<not> bsc_Feasible b
      else if \<bar>fsub (bsc_ViolationScore a) (bsc_ViolationScore b)\<bar> > scoreEps then bsc_ViolationScore a < bsc_ViolationScore b
      else if \<bar>fsub (bsc_EfficiencyScore a) (bsc_EfficiencyScore b)\<bar> > scoreEps then bsc_EfficiencyScore a < bsc_EfficiencyScore b
      else hashA < hashB)"

subsection \<open>The registry of candidates\<close>

record batch_candidate_record =
  bcr_ConfigHash :: "64 word"
  bcr_RunID :: string
  bcr_Feasible :: bool
  bcr_ViolationScore :: float64
  bcr_EfficiencyScore :: float64

record candidate_store =
  cs_m :: "(64 word, string) gomap"
  cs_batchScores :: "(64 word, batch_score) gomap"

definition NewCandidateStore :: candidate_store where
  "NewCandidateStore = \<lparr>cs_m = [], cs_batchScores = []\<rparr>"

definition cs_Register :: "64 word \<Rightarrow> string \<Rightarrow> candidate_store \<Rightarrow> candidate_store" where
  "cs_Register h runID c =
     (if h = 0 \<or> runID = [] then c
      else case gm_get (cs_m c) h of None \<Rightarrow> c\<lparr>cs_m := gm_put h runID (cs_m c)\<rparr> | Some _ \<Rightarrow> c)"

definition RecordBatchScore :: "64 word \<Rightarrow> batch_score \<Rightarrow> candidate_store \<Rightarrow> candidate_store" where
  "RecordBatchScore h bs c = (if h = 0 then c else c\<lparr>cs_batchScores := gm_put h bs (cs_batchScores c)\<rparr>)"

definition cs_Lookup :: "64 word \<Rightarrow> candidate_store \<Rightarrow> string option" where
  "cs_Lookup h c = gm_get (cs_m c) h"

definition cs_Len :: "candidate_store \<Rightarrow> nat" where
  "cs_Len c = length (cs_m c)"

definition AllRunIDs :: "candidate_store \<Rightarrow> string list" where
  "AllRunIDs c = rev (remdups (rev (map snd (cs_m c))))"

definition scored_rows :: "candidate_store \<Rightarrow> (64 word \<times> string \<times> batch_score) list" where
  "scored_rows c = concat (map (\<lambda>(h, rid). if rid = [] then []
     else case gm_get (cs_batchScores c) h of None \<Rightarrow> [] | Some bs \<Rightarrow> [(h, rid, bs)]) (cs_m c))"

definition row_less :: "64 word \<times> string \<times> batch_score \<Rightarrow> 64 word \<times> string \<times> batch_score \<Rightarrow> bool" where
  "row_less a b = CompareBatchScores (snd (snd a)) (snd (snd b)) (fst a) (fst b)"

text \<open>
  The order of the library's sort for a comparison: the sort is a parameter, as its result is not specified where the
  comparison is not a strict weak order.
\<close>

type_synonym row_sort = "(64 word \<times> string \<times> batch_score) list \<Rightarrow> (64 word \<times> string \<times> batch_score) list"

definition SortedBatchCandidateRunIDs :: "row_sort \<Rightarrow> candidate_store \<Rightarrow> string list" where
  "SortedBatchCandidateRunIDs sort_rows c = map (\<lambda>(h, rid, bs). rid) (sort_rows (scored_rows c))"

definition BatchCandidateRecords :: "row_sort \<Rightarrow> candidate_store \<Rightarrow> batch_candidate_record list" where
  "BatchCandidateRecords sort_rows c = map (\<lambda>(h, rid, bs). \<lparr>bcr_ConfigHash = h, bcr_RunID = rid,
     bcr_Feasible = bsc_Feasible bs, bcr_ViolationScore = bsc_ViolationScore bs,
     bcr_EfficiencyScore = bsc_EfficiencyScore bs\<rparr>) (sort_rows (scored_rows c))"

subsection \<open>Feasibility\<close>

lemma fl_one: "fl 1 = 1"
  using fl_int [of 1] by simp

lemma fl_fsub [simp]: "fl (fsub a b) = fsub a b" and fl_fmul [simp]: "fl (fmul a b) = fmul a b"
  by (simp_all add: fsub_def fmul_def)

lemma above_limit_met: "x \<le> limit \<Longrightarrow> above_limit limit x = 0"
proof -
  assume "x \<le> limit"
  then have "0 < limit \<Longrightarrow> fdiv x limit \<le> 1" using fl_mono [of "x / limit" 1] by (simp add: fdiv_def fl_one)
  then show ?thesis using fl_nonpos [of "fdiv x limit - 1"] by (auto simp: above_limit_def fsub_def)
qed

lemma scoreEps_pos: "0 < scoreEps"
  by code_simp

lemma below_limit_met: "required \<le> max x scoreEps \<Longrightarrow> below_limit required x = 0"
proof -
  assume "required \<le> max x scoreEps"
  then have "0 < required \<Longrightarrow> required / max x scoreEps \<le> 1"
    using scoreEps_pos by (simp add: divide_le_eq_1 less_max_iff_disj)
  then have "0 < required \<Longrightarrow> fdiv required (max x scoreEps) \<le> 1"
    using fl_mono [of "required / max x scoreEps" 1] by (simp add: fdiv_def fl_one)
  then show ?thesis using fl_nonpos [of "fdiv required (max x scoreEps) - 1"] by (auto simp: below_limit_def fsub_def)
qed

lemma limit_nonneg: "0 \<le> above_limit l x" "0 \<le> below_limit l x"
  by (simp_all add: above_limit_def below_limit_def)

lemma limit_float: "fl (above_limit l x) = above_limit l x" "fl (below_limit l x) = below_limit l x"
  by (auto simp: above_limit_def below_limit_def max_def)

text \<open>Conversely a relative excess within the tolerance of the score is an excess of at most one part in a hundred million.\<close>

lemma excess_visible: "scoreEps < fsub (fl (1 + 1 / 100000000)) 1"
  by code_simp

lemma small_excess:
  assumes "fsub (fdiv x l) 1 \<le> scoreEps" "0 < l"
  shows "x \<le> l * (1 + 1 / 100000000)"
proof (rule ccontr)
  assume "\<not> x \<le> l * (1 + 1 / 100000000)"
  then have "1 + 1 / 100000000 \<le> x / l" using assms(2) by (simp add: pos_le_divide_eq mult.commute)
  then have "fl (1 + 1 / 100000000) \<le> fdiv x l" unfolding fdiv_def by (rule fl_mono)
  then have "fsub (fl (1 + 1 / 100000000)) 1 \<le> fsub (fdiv x l) 1" unfolding fsub_def by (intro fl_mono) simp
  then show False using assms(1) excess_visible by simp
qed

lemma above_limit_small: "above_limit l x \<le> scoreEps \<Longrightarrow> 0 < l \<Longrightarrow> x \<le> l * (1 + 1 / 100000000)"
  using small_excess [of x l] by (simp add: above_limit_def)

lemma below_limit_small: "below_limit l x \<le> scoreEps \<Longrightarrow> 0 < l \<Longrightarrow> l \<le> max x scoreEps * (1 + 1 / 100000000)"
  using small_excess [of l "max x scoreEps"] scoreEps_pos by (simp add: below_limit_def less_max_iff_disj)

text \<open>A sum of terms that are not negative is zero when they all are, and no smaller than any of them.\<close>

lemma foldl_terms_zero: "\<forall>(w, v) \<in> set wvs. v = 0 \<Longrightarrow> foldl (\<lambda>t (w, v). fadd t (fmul w v)) 0 wvs = 0"
  by (induction wvs) (auto simp: fadd_def fmul_def)

lemma weighted_sum_zero:
  assumes "\<forall>(w, v) \<in> set wvs. v = 0"
  shows "weighted_sum wvs = 0"
proof (cases wvs)
  case (Cons wv rest)
  then show ?thesis using assms foldl_terms_zero [of rest] by (cases wv) (auto simp: fmul_def)
qed simp

lemma foldl_terms_ge:
  "\<forall>(w, v) \<in> set wvs. 0 \<le> fmul w v \<Longrightarrow> fl a = a \<Longrightarrow> 0 \<le> a \<Longrightarrow>
   a \<le> foldl (\<lambda>t (w, v). fadd t (fmul w v)) a wvs \<and>
   (\<forall>(w, v) \<in> set wvs. fmul w v \<le> foldl (\<lambda>t (w, v). fadd t (fmul w v)) a wvs)"
proof (induction wvs arbitrary: a)
  case (Cons wv wvs)
  obtain w v where wv: "wv = (w, v)" by fastforce
  have nn: "0 \<le> fmul w v" using Cons.prems(1) wv by auto
  have "a \<le> fadd a (fmul w v)" "fmul w v \<le> fadd a (fmul w v)"
    using fadd_ge_left [OF Cons.prems(2) nn] fadd_ge_left [of "fmul w v" a] Cons.prems(3) by (simp_all add: fadd_def add.commute)
  then show ?case using Cons.IH [of "fadd a (fmul w v)"] Cons.prems fadd_nonneg [OF Cons.prems(3) nn] wv by auto
qed simp

lemma weighted_sum_ge:
  assumes "\<forall>(w, v) \<in> set wvs. 1 \<le> w \<and> 0 \<le> v \<and> fl v = v" "(w, v) \<in> set wvs"
  shows "v \<le> weighted_sum wvs"
proof -
  have le: "v' \<le> fmul w' v' \<and> 0 \<le> fmul w' v'" if "(w', v') \<in> set wvs" for w' v'
  proof -
    have "1 * v' \<le> w' * v'" using assms(1) that by (intro mult_right_mono) auto
    then have "fl v' \<le> fmul w' v'" unfolding fmul_def by (intro fl_mono) simp
    then show ?thesis using assms(1) that by auto
  qed
  obtain w0 v0 rest where c: "wvs = (w0, v0) # rest" using assms(2) by (cases wvs) auto
  have "\<forall>(w, v) \<in> set rest. 0 \<le> fmul w v" "0 \<le> fmul w0 v0" using le c by auto
  note ge = foldl_terms_ge [OF this(1) fl_fmul this(2)]
  have "fmul w v \<le> weighted_sum wvs" using ge assms(2) c by auto
  then show ?thesis using le [OF assms(2)] by simp
qed

text \<open>The limits of a specification, each with a relative tolerance; a limit that is not positive is not set.\<close>

definition at_most :: "rat \<Rightarrow> float64 \<Rightarrow> float64 \<Rightarrow> bool" where
  "at_most tol limit x \<longleftrightarrow> limit \<le> 0 \<or> x \<le> limit * (1 + tol)"

definition at_least :: "rat \<Rightarrow> float64 \<Rightarrow> float64 \<Rightarrow> bool" where
  "at_least tol required x \<longleftrightarrow> required \<le> 0 \<or> required \<le> max x scoreEps * (1 + tol)"

definition limits_met :: "rat \<Rightarrow> batch_spec \<Rightarrow> run_metrics_pb \<Rightarrow> bool" where
  "limits_met tol spec m \<longleftrightarrow>
     at_most tol (bsp_MaxP95Ms spec) (xm_LatencyP95Ms m) \<and> at_most tol (bsp_MaxP99Ms spec) (xm_LatencyP99Ms m) \<and>
     at_most tol (bsp_MaxErrorRate spec) (UserVisibleErrorRate (Some m)) \<and>
     at_least tol (bsp_MinThroughput spec) (effective_throughput m) \<and>
     at_most tol (bsp_MaxQueueDepthSum spec) (xm_QueueDepthSum m) \<and>
     at_most tol (bsp_MaxTopicBacklogDepthSum spec) (xm_TopicBacklogDepthSum m) \<and>
     at_most tol (bsp_MaxTopicConsumerLagSum spec) (xm_TopicConsumerLagSum m) \<and>
     at_most tol (bsp_MaxQueueOldestMessageAgeMs spec) (xm_QueueOldestMessageAgeMs m) \<and>
     at_most tol (bsp_MaxTopicOldestMessageAgeMs spec) (xm_TopicOldestMessageAgeMs m) \<and>
     at_most tol (bsp_MaxQueueDropCount spec) (of_int64 (xm_QueueDropCountTotal m)) \<and>
     at_most tol (bsp_MaxTopicDropCount spec) (of_int64 (xm_TopicDropCountTotal m)) \<and>
     at_most tol (bsp_MaxQueueDlqCount spec) (of_int64 (xm_QueueDlqCountTotal m)) \<and>
     at_most tol (bsp_MaxTopicDlqCount spec) (of_int64 (xm_TopicDlqCountTotal m)) \<and>
     at_least tol (bsp_MinLocalityHitRate spec) (xm_LocalityHitRate m) \<and>
     at_most tol (bsp_MaxCrossZoneRequestFraction spec) (xm_CrossZoneRequestFraction m) \<and>
     at_most tol (bsp_MaxTopologyLatencyPenaltyMeanMs spec) (xm_TopologyLatencyPenaltyMsMean m)"

definition weights_at_least_one :: "batch_penalty_weights \<Rightarrow> bool" where
  "weights_at_least_one pw \<longleftrightarrow> (\<forall>w \<in> set (map fst (violation_terms pw zero_score)). 1 \<le> w)"

lemma above_limit_zero: "at_most 0 l x \<Longrightarrow> above_limit l x = 0"
  using above_limit_met [of x l] by (auto simp: at_most_def above_limit_def)

lemma below_limit_zero: "at_least 0 l x \<Longrightarrow> below_limit l x = 0"
  using below_limit_met [of l x] by (auto simp: at_least_def below_limit_def)

lemma at_most_small: "above_limit l x \<le> scoreEps \<Longrightarrow> at_most (1 / 100000000) l x"
  using above_limit_small [of l x] by (fastforce simp: at_most_def)

lemma at_least_small: "below_limit l x \<le> scoreEps \<Longrightarrow> at_least (1 / 100000000) l x"
  using below_limit_small [of l x] by (fastforce simp: at_least_def)

lemma score_balance_violation: "bsc_ViolationScore (score_balance spec m out) = bsc_ViolationScore out"
  by (simp add: score_balance_def Let_def split: prod.splits)

lemma batch_violation:
  "bsc_ViolationScore (ComputeBatchScore (Some spec) b s (Some m)) =
     weighted_sum (violation_terms (penalty_weights spec) (score_violations spec (Some m) zero_score))"
  "bsc_Feasible (ComputeBatchScore (Some spec) b s (Some m)) \<longleftrightarrow>
     weighted_sum (violation_terms (penalty_weights spec) (score_violations spec (Some m) zero_score)) \<le> scoreEps"
  by (simp_all add: ComputeBatchScore_def Let_def score_balance_violation)

lemma violations_of_limits:
  "map snd (violation_terms pw (score_violations spec (Some m) out)) =
     [above_limit (bsp_MaxP95Ms spec) (xm_LatencyP95Ms m), above_limit (bsp_MaxP99Ms spec) (xm_LatencyP99Ms m),
      above_limit (bsp_MaxErrorRate spec) (UserVisibleErrorRate (Some m)),
      below_limit (bsp_MinThroughput spec) (effective_throughput m),
      above_limit (bsp_MaxQueueDepthSum spec) (xm_QueueDepthSum m),
      above_limit (bsp_MaxTopicBacklogDepthSum spec) (xm_TopicBacklogDepthSum m),
      above_limit (bsp_MaxTopicConsumerLagSum spec) (xm_TopicConsumerLagSum m),
      above_limit (bsp_MaxQueueOldestMessageAgeMs spec) (xm_QueueOldestMessageAgeMs m),
      above_limit (bsp_MaxTopicOldestMessageAgeMs spec) (xm_TopicOldestMessageAgeMs m),
      above_limit (bsp_MaxQueueDropCount spec) (of_int64 (xm_QueueDropCountTotal m)),
      above_limit (bsp_MaxTopicDropCount spec) (of_int64 (xm_TopicDropCountTotal m)),
      above_limit (bsp_MaxQueueDlqCount spec) (of_int64 (xm_QueueDlqCountTotal m)),
      above_limit (bsp_MaxTopicDlqCount spec) (of_int64 (xm_TopicDlqCountTotal m)),
      below_limit (bsp_MinLocalityHitRate spec) (xm_LocalityHitRate m),
      above_limit (bsp_MaxCrossZoneRequestFraction spec) (xm_CrossZoneRequestFraction m),
      above_limit (bsp_MaxTopologyLatencyPenaltyMeanMs spec) (xm_TopologyLatencyPenaltyMsMean m)]"
  by (simp add: violation_terms_def score_violations_def Let_def)

lemma violations_ok: "\<forall>v \<in> set (map snd (violation_terms pw (score_violations spec (Some m) out))). 0 \<le> v \<and> fl v = v"
  unfolding violations_of_limits by (simp add: limit_nonneg limit_float)

lemma term_weights: "map fst (violation_terms pw out) = map fst (violation_terms pw out')"
  by (simp add: violation_terms_def)

lemma limits_met_zero:
  "limits_met 0 spec m \<Longrightarrow> \<forall>v \<in> set (map snd (violation_terms pw (score_violations spec (Some m) out))). v = 0"
  unfolding violations_of_limits limits_met_def by (simp add: above_limit_zero below_limit_zero)

lemma limits_met_small:
  "\<forall>v \<in> set (map snd (violation_terms pw (score_violations spec (Some m) out))). v \<le> scoreEps \<Longrightarrow>
   limits_met (1 / 100000000) spec m"
  unfolding violations_of_limits limits_met_def by (simp add: at_most_small at_least_small)

text \<open>C39: feasibility is the limits of the request. A candidate whose metrics meet every limit that is set is feasible with
  a violation score of exactly zero, whatever the weights, and with penalty weights of at least one (the default is one)
  a feasible candidate meets every limit up to one part in a hundred million.\<close>

theorem batch_feasibility:
  "(limits_met 0 spec m \<longrightarrow> bsc_Feasible (ComputeBatchScore (Some spec) baseline s (Some m)) \<and>
      bsc_ViolationScore (ComputeBatchScore (Some spec) baseline s (Some m)) = 0) \<and>
   (weights_at_least_one (penalty_weights spec) \<and> bsc_Feasible (ComputeBatchScore (Some spec) baseline s (Some m)) \<longrightarrow>
      limits_met (1 / 100000000) spec m)"
proof (intro conjI impI)
  let ?ts = "violation_terms (penalty_weights spec) (score_violations spec (Some m) zero_score)"
  have "weighted_sum ?ts = 0" if "limits_met 0 spec m"
    using limits_met_zero [OF that, of "penalty_weights spec" zero_score] by (intro weighted_sum_zero) auto
  then show "bsc_Feasible (ComputeBatchScore (Some spec) baseline s (Some m))"
      "bsc_ViolationScore (ComputeBatchScore (Some spec) baseline s (Some m)) = 0" if "limits_met 0 spec m"
    using that scoreEps_pos by (simp_all add: batch_violation)
  assume a: "weights_at_least_one (penalty_weights spec) \<and> bsc_Feasible (ComputeBatchScore (Some spec) baseline s (Some m))"
  have w: "\<forall>w \<in> set (map fst ?ts). 1 \<le> w"
    using a unfolding weights_at_least_one_def term_weights [of _ "score_violations spec (Some m) zero_score" zero_score] by blast
  have ok: "\<forall>(w, v) \<in> set ?ts. 1 \<le> w \<and> 0 \<le> v \<and> fl v = v"
    using w violations_ok [of "penalty_weights spec" spec m zero_score] by auto
  have "weighted_sum ?ts \<le> scoreEps" using a by (simp add: batch_violation)
  then have "\<forall>v \<in> set (map snd ?ts). v \<le> scoreEps" using weighted_sum_ge [OF ok] by fastforce
  then show "limits_met (1 / 100000000) spec m" by (rule limits_met_small)
qed

theorem batch_feasibility_witness:
  "bsc_Feasible (ComputeBatchScore (Some (DefaultBatchSpec None)) None None (Some (demo_metrics 100 5))) \<and>
   limits_met (1 / 100000000) (DefaultBatchSpec None) (demo_metrics 100 5)"
proof -
  have "limits_met 0 (DefaultBatchSpec None) (demo_metrics 100 5)"
    by (simp add: limits_met_def at_most_def at_least_def DefaultBatchSpec_def demo_metrics_def initBoundsFromBaseline_def
      UserVisibleErrorRate_def fl_nonneg of_int64_def)
  moreover have "weights_at_least_one (penalty_weights (DefaultBatchSpec None))"
    by (simp add: weights_at_least_one_def penalty_weights_def DefaultBatchSpec_def initBoundsFromBaseline_def
      default_penalty_weights_def violation_terms_def)
  ultimately show ?thesis using batch_feasibility [of "DefaultBatchSpec None" "demo_metrics 100 5" None None] by blast
qed

subsection \<open>The order of the candidates\<close>

lemma fsub_abs_sym: "\<bar>fsub a b\<bar> = \<bar>fsub b a\<bar>"
  using fl_minus [of "a - b"] by (simp add: fsub_def)

text \<open>The order of the candidates puts feasibility first. A feasible candidate always precedes an infeasible one; among
  candidates of the same feasibility a lower violation, beyond the tolerance, precedes; and the comparison decides every pair
  with different hashes, in one direction only.\<close>

theorem batch_order:
  "(bsc_Feasible a \<and> \<not> bsc_Feasible b \<longrightarrow> CompareBatchScores a b h k) \<and>
   (bsc_Feasible a = bsc_Feasible b \<and> bsc_ViolationScore a < bsc_ViolationScore b \<and>
      scoreEps < \<bar>fsub (bsc_ViolationScore a) (bsc_ViolationScore b)\<bar> \<longrightarrow> CompareBatchScores a b h k) \<and>
   (h \<noteq> k \<longrightarrow> CompareBatchScores a b h k \<noteq> CompareBatchScores b a k h) \<and>
   \<not> (CompareBatchScores a b h k \<and> CompareBatchScores b a k h)"
proof -
  have s: "\<bar>fsub x y\<bar> > scoreEps \<Longrightarrow> x \<noteq> y" for x y using scoreEps_pos by (auto simp: fsub_def)
  show ?thesis
    using s [of "bsc_ViolationScore a" "bsc_ViolationScore b"] s [of "bsc_EfficiencyScore a" "bsc_EfficiencyScore b"]
      fsub_abs_sym [of "bsc_ViolationScore a" "bsc_ViolationScore b"] fsub_abs_sym [of "bsc_EfficiencyScore a" "bsc_EfficiencyScore b"]
    by (auto simp: CompareBatchScores_def)
qed

theorem batch_order_witness:
  "CompareBatchScores (zero_score\<lparr>bsc_Feasible := True, bsc_EfficiencyScore := 9\<rparr>) zero_score 7 5"
  using conjunct1 [OF batch_order [of "zero_score\<lparr>bsc_Feasible := True, bsc_EfficiencyScore := 9\<rparr>" zero_score 7 5]]
  by (simp add: zero_score_def)

text \<open>The order is not transitive: efficiencies closer than the tolerance are decided by the hash, so three candidates can
  precede each other in a circle.\<close>

lemma batch_order_cycle:
  "let s = (\<lambda>e. zero_score\<lparr>bsc_Feasible := True, bsc_EfficiencyScore := e\<rparr>);
       a = s 0; b = s (fl (6 / 10000000000)); c = s (fl (12 / 10000000000))
   in CompareBatchScores b a 2 3 \<and> CompareBatchScores c b 1 2 \<and> CompareBatchScores a c 3 1"
  by code_simp

subsection \<open>The registry\<close>

definition store_ok :: "candidate_store \<Rightarrow> bool" where
  "store_ok c \<longleftrightarrow> gm_ok (cs_m c) \<and> gm_ok (cs_batchScores c) \<and> gm_get (cs_m c) 0 = None \<and>
     [] \<notin> snd ` set (cs_m c)"

lemma store_ok_new [inv_intros]: "store_ok NewCandidateStore"
  by (simp add: store_ok_def NewCandidateStore_def)

lemma Register_first:
  "cs_Lookup h' (cs_Register h runID c) =
     (if h' = h \<and> h \<noteq> 0 \<and> runID \<noteq> [] \<and> cs_Lookup h c = None then Some runID else cs_Lookup h' c)"
  by (auto simp: cs_Register_def cs_Lookup_def split: option.splits)

lemma store_ok_register [inv_intros]: "store_ok c \<Longrightarrow> store_ok (cs_Register h runID c)"
  by (auto simp: store_ok_def cs_Register_def gm_put_fresh split: option.splits)

lemma store_ok_record [inv_intros]: "store_ok c \<Longrightarrow> store_ok (RecordBatchScore h bs c)"
  by (simp add: store_ok_def RecordBatchScore_def)

lemma rows_of:
  "(h, rid, bs) \<in> set (concat (map (\<lambda>(h, rid). if rid = [] then []
      else case gm_get B h of None \<Rightarrow> [] | Some bs \<Rightarrow> [(h, rid, bs)]) m)) \<longleftrightarrow>
   (h, rid) \<in> set m \<and> rid \<noteq> [] \<and> gm_get B h = Some bs"
  by (induction m) (auto split: option.splits if_splits)

lemma scored_rows_set:
  assumes "store_ok c"
  shows "(h, rid, bs) \<in> set (scored_rows c) \<longleftrightarrow> cs_Lookup h c = Some rid \<and> gm_get (cs_batchScores c) h = Some bs"
proof -
  have "cs_Lookup h c = Some rid \<longleftrightarrow> (h, rid) \<in> set (cs_m c)" "(h, rid) \<in> set (cs_m c) \<Longrightarrow> rid \<noteq> []"
    using assms by (force simp: store_ok_def cs_Lookup_def map_of_eq_Some_iff)+
  then show ?thesis unfolding scored_rows_def rows_of by blast
qed

end
