(* ===== verification/Batch_Search.thy ===== *)
theory Batch_Search
  imports Improve_Optimizer Batch_Score Scenario_Config
begin

text \<open>
  The batch search, \<open>internal/improvement/batch_neighbors.go\<close> and \<open>batch_search.go\<close>: the neighbours of a
  scenario under the allowed scaling actions, and the beam search over them.
\<close>

subsection \<open>Capacity and load\<close>

definition StaticCapacityOK :: "scenario option \<Rightarrow> bool" where
  "StaticCapacityOK os =
     (case os of None \<Rightarrow> False | Some s \<Rightarrow>
        if sc_Services s = [] then False
        else let needCPU = sum_over (\<lambda>svc. fmul (effective_replicas svc) (effective_cpu svc)) (sc_Services s);
                 needMemMB = sum_over (\<lambda>svc. fmul (effective_replicas svc) (effective_memory svc)) (sc_Services s);
                 capCPU0 = sum_over (\<lambda>h. of_int64 (ho_Cores h)) (sc_Hosts s);
                 capMemMB0 = sum_over (\<lambda>h. fmul (of_int64 (host_memory h)) 1024) (sc_Hosts s);
                 capCPU = (if capCPU0 \<le> 0 then needCPU else capCPU0);
                 capMemMB = (if capMemMB0 \<le> 0 then needMemMB else capMemMB0)
             in needCPU \<le> fmul capCPU (fl (1001 / 1000)) \<and> needMemMB \<le> fmul capMemMB (fl (1001 / 1000)))"

definition over_limit :: "float64 \<Rightarrow> float64 \<Rightarrow> float64 \<Rightarrow> bool" where
  "over_limit factor limit x \<longleftrightarrow> limit > 0 \<and> x > fmul limit factor"

definition neighborStress :: "batch_spec \<Rightarrow> run_metrics_pb option \<Rightarrow> bool" where
  "neighborStress spec om =
     (case om of None \<Rightarrow> True | Some m \<Rightarrow>
        let (maxCPU, meanCPU, maxMem, meanMem, n) = serviceUtilStats (Some m); slack = fl (101 / 100)
        in over_limit (fl (1005 / 1000)) (bsp_MaxP95Ms spec) (xm_LatencyP95Ms m) \<or>
           (n > 0 \<and> maxCPU > bsp_ServiceCPUBandHigh spec) \<or>
           (bsp_MinThroughput spec > 0 \<and> effective_throughput m < fmul (bsp_MinThroughput spec) (fl (95 / 100))) \<or>
           over_limit slack (bsp_MaxQueueDepthSum spec) (xm_QueueDepthSum m) \<or>
           over_limit slack (bsp_MaxTopicBacklogDepthSum spec) (xm_TopicBacklogDepthSum m) \<or>
           over_limit slack (bsp_MaxTopicConsumerLagSum spec) (xm_TopicConsumerLagSum m) \<or>
           over_limit slack (bsp_MaxQueueOldestMessageAgeMs spec) (xm_QueueOldestMessageAgeMs m) \<or>
           over_limit slack (bsp_MaxTopicOldestMessageAgeMs spec) (xm_TopicOldestMessageAgeMs m) \<or>
           over_limit slack (bsp_MaxQueueDropCount spec) (of_int64 (xm_QueueDropCountTotal m)) \<or>
           over_limit slack (bsp_MaxTopicDropCount spec) (of_int64 (xm_TopicDropCountTotal m)) \<or>
           over_limit slack (bsp_MaxQueueDlqCount spec) (of_int64 (xm_QueueDlqCountTotal m)) \<or>
           over_limit slack (bsp_MaxTopicDlqCount spec) (of_int64 (xm_TopicDlqCountTotal m)))"

definition service_delta :: "service \<times> service \<Rightarrow> float64" where
  "service_delta = (\<lambda>(c, n). fadd (fadd (fmul (of_int64 (wrap64 (sv_Replicas n - sv_Replicas c))) 50)
     (fmul (fsub (sv_CPUCores n) (sv_CPUCores c)) 2)) (fdiv (fsub (sv_MemoryMB n) (sv_MemoryMB c)) 256))"

definition capacityDelta :: "scenario \<Rightarrow> scenario \<Rightarrow> float64" where
  "capacityDelta cur nb =
     fadd (sum_over service_delta (zip (sc_Services cur) (sc_Services nb)))
       (fmul (of_int64 (int (length (sc_Hosts nb)) - int (length (sc_Hosts cur)))) 80)"

definition serviceIndexByID :: "scenario \<Rightarrow> (string, nat) gomap" where
  "serviceIndexByID s = foldl (\<lambda>m (i, svc). gm_put (sv_ID svc) i m) [] (enumerate 0 (sc_Services s))"

definition servicePressureScore :: "run_metrics_pb option \<Rightarrow> (string, float64) gomap" where
  "servicePressureScore om =
     (case om of None \<Rightarrow> [] | Some m \<Rightarrow>
        foldl (\<lambda>scores sm. if trim_space (xs_ServiceName sm) = [] then scores
            else gm_put (xs_ServiceName sm)
              (fadd (fadd (fadd (xs_CpuUtilization sm) (xs_MemoryUtilization sm))
                (fmul (of_int64 (xs_ConcurrentRequests sm)) (fl (1 / 100)))) (fmul (of_int64 (xs_QueueLength sm)) (fl (5 / 100)))) scores)
          [] (xm_ServiceMetrics m))"

text \<open>The service a consumer target names, and the targets of the queues and topics of a scenario.\<close>

definition target_index :: "(string, nat) gomap \<Rightarrow> string \<Rightarrow> nat list" where
  "target_index byID target0 =
     (let target = trim_space target0
      in if CHR '':'' \<in> set target
         then (case gm_get byID (trim_space (fst (split_first (CHR '':'') target))) of None \<Rightarrow> [] | Some i \<Rightarrow> [i]) else [])"

definition consumer_targets :: "service \<Rightarrow> string list" where
  "consumer_targets svc =
     (case sv_Behavior svc of None \<Rightarrow> [] | Some b \<Rightarrow>
        (case sb_Queue b of None \<Rightarrow> [] | Some q \<Rightarrow> [qb_ConsumerTarget q]) @
        (case sb_Topic b of None \<Rightarrow> [] | Some t \<Rightarrow> map ts_ConsumerTarget (tb_Subscribers t)))"

text \<open>
  The indices are collected in a map and sorted by decreasing pressure and increasing identifier. As the identifiers of
  different indices differ, the order in which the map is visited does not matter.
\<close>

definition brokerConsumerTargetServiceIndices :: "scenario \<Rightarrow> run_metrics_pb option \<Rightarrow> nat list" where
  "brokerConsumerTargetServiceIndices cur m =
     (let byID = serviceIndexByID cur; scores = servicePressureScore m;
          seen = remdups (concat (map (target_index byID) (concat (map consumer_targets (sc_Services cur)))));
          id_of = (\<lambda>i. sv_ID (sc_Services cur ! i))
      in sort_key (\<lambda>i. - gm_get_or 0 scores (id_of i)) (sort_key id_of seen))"

definition orderNeighborsForExpansion :: "batch_spec \<Rightarrow> scenario \<Rightarrow> run_metrics_pb option \<Rightarrow> scenario list \<Rightarrow> scenario list" where
  "orderNeighborsForExpansion spec cur m nbs =
     (if neighborStress spec m then sort_key (\<lambda>n. - capacityDelta cur n) nbs else sort_key (capacityDelta cur) nbs)"

subsection \<open>Neighbours\<close>

definition with_host :: "scenario \<Rightarrow> nat \<Rightarrow> (host_spec \<Rightarrow> host_spec) \<Rightarrow> scenario" where
  "with_host base i g = (let n = cloneScenario base in n\<lparr>sc_Hosts := (sc_Hosts n)[i := g (sc_Hosts n ! i)]\<rparr>)"

definition with_behavior :: "scenario \<Rightarrow> nat \<Rightarrow> (service_behavior \<Rightarrow> service_behavior) \<Rightarrow> scenario" where
  "with_behavior base i g = with_service base i (\<lambda>s. s\<lparr>sv_Behavior := map_option g (sv_Behavior s)\<rparr>)"

definition scale_indices :: "batch_spec \<Rightarrow> scenario \<Rightarrow> run_metrics_pb option \<Rightarrow> nat list" where
  "scale_indices spec cur m =
     (let is = (if neighborStress spec m then brokerConsumerTargetServiceIndices cur m else [])
      in if is = [] then [0..<length (sc_Services cur)] else is)"

text \<open>The services an action may change, each with the change it proposes, if any.\<close>

definition scale_services ::
  "scenario \<Rightarrow> batch_scaling_action \<Rightarrow> nat list \<Rightarrow> (service \<Rightarrow> service option) \<Rightarrow> scenario list" where
  "scale_services cur act is f = concat (map (\<lambda>i.
     let n = cloneScenario cur
     in if ServiceAllowsBatchScalingAction (Some (sc_Services cur ! i)) act
        then (case f (sc_Services n ! i) of None \<Rightarrow> [] | Some svc \<Rightarrow> [n\<lparr>sc_Services := (sc_Services n)[i := svc]\<rparr>]) else []) is)"

definition service_scaled :: "batch_spec \<Rightarrow> batch_scaling_action \<Rightarrow> service \<Rightarrow> service option" where
  "service_scaled spec act svc =
     (let step = bsp_ReplicaStep spec; lo = bsp_MinReplicasPerSvc spec; hi = bsp_MaxReplicasPerSvc spec;
          cpu = effective_cpu svc; mb = effective_memory svc
      in case act of
           SERVICE_SCALE_OUT \<Rightarrow>
             if sv_Replicas svc \<ge> hi then None else Some (svc\<lparr>sv_Replicas := min (wrap64 (sv_Replicas svc + step)) hi\<rparr>)
         | SERVICE_SCALE_IN \<Rightarrow>
             if wrap64 (sv_Replicas svc - step) < lo then None
             else Some (svc\<lparr>sv_Replicas := max (wrap64 (sv_Replicas svc - step)) lo\<rparr>)
         | SERVICE_SCALE_UP_CPU \<Rightarrow>
             Some (svc\<lparr>sv_CPUCores := min (fmul cpu (fadd 1 (bsp_ServiceCPURatio spec))) (bsp_MaxCPUPerInst spec)\<rparr>)
         | SERVICE_SCALE_DOWN_CPU \<Rightarrow>
             Some (svc\<lparr>sv_CPUCores := max (fmul cpu (fsub 1 (bsp_ServiceCPURatio spec))) (bsp_MinCPUPerInst spec)\<rparr>)
         | SERVICE_SCALE_UP_MEMORY \<Rightarrow>
             Some (svc\<lparr>sv_MemoryMB := min (fmul mb (fadd 1 (bsp_ServiceMemRatio spec))) (bsp_MaxMemPerInst spec)\<rparr>)
         | SERVICE_SCALE_DOWN_MEMORY \<Rightarrow>
             Some (svc\<lparr>sv_MemoryMB := max (fmul mb (fsub 1 (bsp_ServiceMemRatio spec))) (bsp_MinMemPerInst spec)\<rparr>)
         | _ \<Rightarrow> None)"

definition host_scaled :: "batch_spec \<Rightarrow> batch_scaling_action \<Rightarrow> host_spec \<Rightarrow> host_spec" where
  "host_scaled spec act h =
     (case act of
        HOST_SCALE_UP_CPU \<Rightarrow> h\<lparr>ho_Cores := min (wrap64 (ho_Cores h + bsp_HostCPUStepCores spec)) (bsp_MaxHostCPUCores spec)\<rparr>
      | HOST_SCALE_DOWN_CPU \<Rightarrow> h\<lparr>ho_Cores := max (wrap64 (ho_Cores h - bsp_HostCPUStepCores spec)) (bsp_MinHostCPUCores spec)\<rparr>
      | HOST_SCALE_UP_MEMORY \<Rightarrow> h\<lparr>ho_MemoryGB := min (wrap64 (ho_MemoryGB h + bsp_HostMemStepGB spec)) (bsp_MaxHostMemGB spec)\<rparr>
      | HOST_SCALE_DOWN_MEMORY \<Rightarrow> h\<lparr>ho_MemoryGB := max (wrap64 (ho_MemoryGB h - bsp_HostMemStepGB spec)) (bsp_MinHostMemGB spec)\<rparr>
      | _ \<Rightarrow> h)"

definition scale_hosts :: "batch_spec \<Rightarrow> scenario \<Rightarrow> batch_scaling_action \<Rightarrow> scenario list" where
  "scale_hosts spec cur act = map (\<lambda>i. with_host cur i (host_scaled spec act)) [0..<length (sc_Hosts cur)]"

definition scale_out_hosts :: "batch_spec \<Rightarrow> scenario \<Rightarrow> scenario list" where
  "scale_out_hosts spec cur =
     (let n = cloneScenario cur
      in case sc_Hosts n of [] \<Rightarrow> [] | h0 # _ \<Rightarrow>
        if int (length (sc_Hosts cur)) \<ge> bsp_MaxHosts spec then []
        else [n\<lparr>sc_Hosts := sc_Hosts n @ [\<lparr>ho_ID = ''host-'' @ itoa (int (length (sc_Hosts cur)) + 1), ho_Cores = ho_Cores h0,
                   ho_MemoryGB = ho_MemoryGB h0, ho_Zone = [], ho_Labels = []\<rparr>]\<rparr>])"

definition scale_in_hosts :: "batch_spec \<Rightarrow> scenario \<Rightarrow> scenario list" where
  "scale_in_hosts spec cur =
     (let n = cloneScenario cur
      in if int (length (sc_Hosts cur)) \<le> bsp_MinHosts spec then [] else [n\<lparr>sc_Hosts := butlast (sc_Hosts n)\<rparr>])"

text \<open>The next consumer concurrency upwards and downwards, from the current value and its bound.\<close>

definition concurrency_up :: "batch_spec \<Rightarrow> int \<Rightarrow> int \<Rightarrow> int option" where
  "concurrency_up spec cur0 max0 =
     (let curC = (if cur0 \<le> 0 then 1 else cur0);
          maxC = (if max0 \<le> 0 then if bsp_MaxReplicasPerSvc spec < 1 then 64 else bsp_MaxReplicasPerSvc spec else max0)
      in if curC \<ge> maxC then None else Some (min (wrap64 (curC + bsp_ReplicaStep spec)) maxC))"

definition concurrency_down :: "batch_spec \<Rightarrow> int \<Rightarrow> int \<Rightarrow> int option" where
  "concurrency_down spec cur0 min0 =
     (let curC = (if cur0 \<le> 0 then 1 else cur0); minC = (if min0 \<le> 0 then 1 else min0)
      in if curC \<le> minC then None else Some (max (wrap64 (curC - bsp_ReplicaStep spec)) minC))"

definition scale_queues :: "scenario \<Rightarrow> (queue_behavior \<Rightarrow> int option) \<Rightarrow> scenario list" where
  "scale_queues cur next = over_services cur (\<lambda>i svc.
     case sv_Behavior svc of None \<Rightarrow> [] | Some b \<Rightarrow>
       (case sb_Queue b of None \<Rightarrow> [] | Some q \<Rightarrow>
          (case next q of None \<Rightarrow> [] | Some c \<Rightarrow>
             [with_behavior cur i (\<lambda>b. b\<lparr>sb_Queue := map_option (\<lambda>q. q\<lparr>qb_ConsumerConcurrency := c\<rparr>) (sb_Queue b)\<rparr>)])))"

definition set_subscriber :: "nat \<Rightarrow> int \<Rightarrow> topic_behavior \<Rightarrow> topic_behavior" where
  "set_subscriber j c t = t\<lparr>tb_Subscribers := (tb_Subscribers t)[j := (tb_Subscribers t ! j)\<lparr>ts_ConsumerConcurrency := c\<rparr>]\<rparr>"

definition scale_subscribers :: "scenario \<Rightarrow> (topic_subscriber \<Rightarrow> int option) \<Rightarrow> scenario list" where
  "scale_subscribers cur next = over_services cur (\<lambda>i svc.
     case sv_Behavior svc of None \<Rightarrow> [] | Some b \<Rightarrow>
       (case sb_Topic b of None \<Rightarrow> [] | Some t \<Rightarrow>
          concat (map (\<lambda>(j, sub). case next sub of None \<Rightarrow> [] | Some c \<Rightarrow>
             [with_behavior cur i (\<lambda>b. b\<lparr>sb_Topic := map_option (set_subscriber j c) (sb_Topic b)\<rparr>)])
            (enumerate 0 (tb_Subscribers t)))))"

definition action_neighbors :: "batch_spec \<Rightarrow> scenario \<Rightarrow> run_metrics_pb option \<Rightarrow> batch_scaling_action \<Rightarrow> scenario list" where
  "action_neighbors spec cur m act =
     (case act of
        SERVICE_SCALE_OUT \<Rightarrow> scale_services cur act (scale_indices spec cur m) (service_scaled spec act)
      | SERVICE_SCALE_UP_CPU \<Rightarrow> scale_services cur act (scale_indices spec cur m) (service_scaled spec act)
      | SERVICE_SCALE_UP_MEMORY \<Rightarrow> scale_services cur act (scale_indices spec cur m) (service_scaled spec act)
      | SERVICE_SCALE_IN \<Rightarrow> scale_services cur act [0..<length (sc_Services cur)] (service_scaled spec act)
      | SERVICE_SCALE_DOWN_CPU \<Rightarrow> scale_services cur act [0..<length (sc_Services cur)] (service_scaled spec act)
      | SERVICE_SCALE_DOWN_MEMORY \<Rightarrow> scale_services cur act [0..<length (sc_Services cur)] (service_scaled spec act)
      | HOST_SCALE_OUT \<Rightarrow> scale_out_hosts spec cur
      | HOST_SCALE_IN \<Rightarrow> scale_in_hosts spec cur
      | HOST_SCALE_UP_CPU \<Rightarrow> scale_hosts spec cur act
      | HOST_SCALE_DOWN_CPU \<Rightarrow> scale_hosts spec cur act
      | HOST_SCALE_UP_MEMORY \<Rightarrow> scale_hosts spec cur act
      | HOST_SCALE_DOWN_MEMORY \<Rightarrow> scale_hosts spec cur act
      | QUEUE_SCALE_UP_CONCURRENCY \<Rightarrow>
          scale_queues cur (\<lambda>q. concurrency_up spec (qb_ConsumerConcurrency q) (qb_MaxConsumerConcurrency q))
      | QUEUE_SCALE_DOWN_CONCURRENCY \<Rightarrow>
          scale_queues cur (\<lambda>q. concurrency_down spec (qb_ConsumerConcurrency q) (qb_MinConsumerConcurrency q))
      | TOPIC_SUBSCRIBER_SCALE_UP_CONCURRENCY \<Rightarrow>
          scale_subscribers cur (\<lambda>sub. concurrency_up spec (ts_ConsumerConcurrency sub) (ts_MaxConsumerConcurrency sub))
      | TOPIC_SUBSCRIBER_SCALE_DOWN_CONCURRENCY \<Rightarrow>
          scale_subscribers cur (\<lambda>sub. concurrency_down spec (ts_ConsumerConcurrency sub) (ts_MinConsumerConcurrency sub))
      | _ \<Rightarrow> [])"

fun action_number :: "batch_scaling_action \<Rightarrow> int" where
  "action_number BATCH_SCALING_ACTION_UNSPECIFIED = 0"
| "action_number SERVICE_SCALE_OUT = 1"
| "action_number SERVICE_SCALE_IN = 2"
| "action_number SERVICE_SCALE_UP_CPU = 3"
| "action_number SERVICE_SCALE_DOWN_CPU = 4"
| "action_number SERVICE_SCALE_UP_MEMORY = 5"
| "action_number SERVICE_SCALE_DOWN_MEMORY = 6"
| "action_number HOST_SCALE_OUT = 7"
| "action_number HOST_SCALE_IN = 8"
| "action_number HOST_SCALE_UP_CPU = 9"
| "action_number HOST_SCALE_DOWN_CPU = 10"
| "action_number HOST_SCALE_UP_MEMORY = 11"
| "action_number HOST_SCALE_DOWN_MEMORY = 12"
| "action_number QUEUE_SCALE_UP_CONCURRENCY = 13"
| "action_number QUEUE_SCALE_DOWN_CONCURRENCY = 14"
| "action_number TOPIC_SUBSCRIBER_SCALE_UP_CONCURRENCY = 15"
| "action_number TOPIC_SUBSCRIBER_SCALE_DOWN_CONCURRENCY = 16"
| "action_number (UNRECOGNIZED_ACTION n) = n"

definition search_actions :: "batch_spec \<Rightarrow> batch_scaling_action list" where
  "search_actions spec =
     (if bsp_AllowedActionsOrdered spec = [] then sort_key action_number (bsp_AllowedActions spec)
      else bsp_AllowedActionsOrdered spec)"

definition workload_neighbors :: "scenario \<Rightarrow> scenario list" where
  "workload_neighbors cur = concat (map (\<lambda>i. map (\<lambda>mul.
     with_arrival cur i (\<lambda>a. a\<lparr>ar_RateRPS := max (fmul (ar_RateRPS a) mul) (fl (1 / 100))\<rparr>)) [fl (11 / 10), fl (9 / 10)])
     [0..<length (sc_Workload cur)])"

definition policy_neighbors :: "scenario \<Rightarrow> scenario list" where
  "policy_neighbors cur =
     (case sc_Policies cur of None \<Rightarrow> [] | Some p \<Rightarrow>
        (case pc_Autoscaling p of None \<Rightarrow> [] | Some _ \<Rightarrow>
           [with_autoscaling cur (\<lambda>a. a\<lparr>ac_Enabled := \<not> ac_Enabled a\<rparr>)]))"

definition concurrency_within :: "int \<Rightarrow> int \<Rightarrow> int \<Rightarrow> bool" where
  "concurrency_within c lo hi \<longleftrightarrow> \<not> (lo > 0 \<and> c > 0 \<and> c < lo) \<and> \<not> (hi > 0 \<and> c > 0 \<and> c > hi)"

definition behavior_within :: "service_behavior \<Rightarrow> bool" where
  "behavior_within b \<longleftrightarrow>
     pred_option (\<lambda>q. concurrency_within (qb_ConsumerConcurrency q) (qb_MinConsumerConcurrency q) (qb_MaxConsumerConcurrency q)) (sb_Queue b) \<and>
     pred_option (\<lambda>t. list_all (\<lambda>s. concurrency_within (ts_ConsumerConcurrency s) (ts_MinConsumerConcurrency s) (ts_MaxConsumerConcurrency s))
       (tb_Subscribers t)) (sb_Topic b)"

definition service_within :: "batch_spec \<Rightarrow> service \<Rightarrow> bool" where
  "service_within spec svc \<longleftrightarrow>
     \<not> (sv_Replicas svc < bsp_MinReplicasPerSvc spec \<or> sv_Replicas svc > bsp_MaxReplicasPerSvc spec) \<and>
     \<not> (sv_CPUCores svc < bsp_MinCPUPerInst spec \<or> sv_CPUCores svc > bsp_MaxCPUPerInst spec) \<and>
     \<not> (sv_MemoryMB svc < bsp_MinMemPerInst spec \<or> sv_MemoryMB svc > bsp_MaxMemPerInst spec) \<and>
     pred_option behavior_within (sv_Behavior svc)"

definition host_within_bounds :: "batch_spec \<Rightarrow> host_spec \<Rightarrow> bool" where
  "host_within_bounds spec h \<longleftrightarrow>
     \<not> (ho_Cores h < bsp_MinHostCPUCores spec \<or> ho_Cores h > bsp_MaxHostCPUCores spec) \<and>
     \<not> (host_memory h < bsp_MinHostMemGB spec \<or> host_memory h > bsp_MaxHostMemGB spec)"

definition withinBatchBounds :: "batch_spec option \<Rightarrow> scenario option \<Rightarrow> scenario option \<Rightarrow> bool" where
  "withinBatchBounds ospec base ocur =
     (case (ospec, ocur) of
        (Some spec, Some cur) \<Rightarrow>
          \<not> (int (length (sc_Hosts cur)) < bsp_MinHosts spec \<or> int (length (sc_Hosts cur)) > bsp_MaxHosts spec) \<and>
          list_all (service_within spec) (sc_Services cur) \<and> list_all (host_within_bounds spec) (sc_Hosts cur)
      | _ \<Rightarrow> False)"

definition proposed_neighbors :: "batch_spec \<Rightarrow> scenario \<Rightarrow> run_metrics_pb option \<Rightarrow> scenario list" where
  "proposed_neighbors spec cur m =
     concat (map (action_neighbors spec cur m) (search_actions spec)) @
     (if bsp_FreezeWorkload spec then [] else workload_neighbors cur) @
     (if bsp_FreezePolicies spec then [] else policy_neighbors cur)"

definition neighbor_cap :: "batch_spec \<Rightarrow> nat" where
  "neighbor_cap spec = nat (if bsp_MaxNeighborsPerState spec \<le> 0 then 24 else bsp_MaxNeighborsPerState spec)"

definition GenerateBatchNeighbors ::
  "batch_spec option \<Rightarrow> scenario option \<Rightarrow> scenario option \<Rightarrow> run_metrics_pb option \<Rightarrow> scenario list" where
  "GenerateBatchNeighbors ospec baseline ocur m =
     (case (ospec, ocur) of
        (Some spec, Some cur) \<Rightarrow>
          take (neighbor_cap spec) (orderNeighborsForExpansion spec cur m
            (filter (\<lambda>n. StaticCapacityOK (Some n) \<and> withinBatchBounds (Some spec) baseline (Some n)) (proposed_neighbors spec cur m)))
      | _ \<Rightarrow> [])"

subsection \<open>What a neighbour may change\<close>

text \<open>A scaled service keeps its identity, endpoints and policies, and a size changes only where its scaling policy allows it.\<close>

definition scaled_service :: "service \<Rightarrow> service \<Rightarrow> bool" where
  "scaled_service s t \<longleftrightarrow>
     sv_ID t = sv_ID s \<and> sv_Kind t = sv_Kind s \<and> sv_Role t = sv_Role s \<and> sv_Model t = sv_Model s \<and>
     sv_Endpoints t = sv_Endpoints s \<and> sv_Placement t = sv_Placement s \<and> sv_Routing t = sv_Routing s \<and>
     sv_Scaling t = sv_Scaling s \<and> sv_ExternalNetworkLatencyMs t = sv_ExternalNetworkLatencyMs s \<and>
     (sv_Replicas t = sv_Replicas s \<or> ServiceAllowsHorizontalScaling (Some s)) \<and>
     (sv_CPUCores t = sv_CPUCores s \<or> ServiceAllowsVerticalCPU (Some s)) \<and>
     (sv_MemoryMB t = sv_MemoryMB s \<or> ServiceAllowsVerticalMemory (Some s))"

definition scaled_scenario :: "scenario \<Rightarrow> scenario \<Rightarrow> bool" where
  "scaled_scenario cur nb \<longleftrightarrow>
     sc_SchemaVersion nb = sc_SchemaVersion cur \<and> sc_SimulationLimits nb = sc_SimulationLimits cur \<and>
     sc_Network nb = sc_Network cur \<and> list_all2 scaled_service (sc_Services cur) (sc_Services nb)"

lemma scaled_service_refl [simp]: "scaled_service s s"
  by (simp add: scaled_service_def)

lemma scaled_services_refl [simp]: "list_all2 scaled_service ss ss"
  by (rule list_all2_refl) simp

lemma scaled_update: "scaled_service (ss ! i) t \<Longrightarrow> list_all2 scaled_service ss (ss[i := t])"
  by (cases "i < length ss") (auto simp: list_all2_conv_all_nth nth_list_update)

lemma scaled_simps [simp]:
  "scaled_scenario cur (cur\<lparr>sc_Hosts := hs\<rparr>)"
  "scaled_scenario cur (cur\<lparr>sc_Workload := ws\<rparr>)"
  "scaled_scenario cur (cur\<lparr>sc_Policies := ps\<rparr>)"
  "scaled_scenario cur (cur\<lparr>sc_Services := ss\<rparr>) = list_all2 scaled_service (sc_Services cur) ss"
  by (simp_all add: scaled_scenario_def)

lemma scaling_direction:
  "ServiceAllowsBatchScalingAction os SERVICE_SCALE_IN = ServiceAllowsHorizontalScaling os"
  "ServiceAllowsBatchScalingAction os SERVICE_SCALE_DOWN_CPU = ServiceAllowsVerticalCPU os"
  "ServiceAllowsBatchScalingAction os SERVICE_SCALE_DOWN_MEMORY = ServiceAllowsVerticalMemory os"
  "ServiceAllowsBatchScalingAction os SERVICE_SCALE_OUT = ServiceAllowsHorizontalScaling os"
  "ServiceAllowsBatchScalingAction os SERVICE_SCALE_UP_CPU = ServiceAllowsVerticalCPU os"
  "ServiceAllowsBatchScalingAction os SERVICE_SCALE_UP_MEMORY = ServiceAllowsVerticalMemory os"
  by (simp_all add: ServiceAllowsBatchScalingAction_def ServiceAllowsHorizontalScaling_def ServiceAllowsVerticalCPU_def
    ServiceAllowsVerticalMemory_def split: option.splits)

lemma service_scaled_ok:
  "service_scaled spec act s = Some t \<Longrightarrow> ServiceAllowsBatchScalingAction (Some s) act \<Longrightarrow> scaled_service s t"
  by (cases act) (auto simp: service_scaled_def scaled_service_def scaling_direction Let_def split: if_splits)

text \<open>What an action leaves alone: everything but the services and the hosts.\<close>

definition only_scaled :: "scenario \<Rightarrow> scenario \<Rightarrow> bool" where
  "only_scaled cur nb \<longleftrightarrow> scaled_scenario cur nb \<and> sc_Workload nb = sc_Workload cur \<and> sc_Policies nb = sc_Policies cur"

lemma only_scaled_simps [simp]:
  "only_scaled cur (cur\<lparr>sc_Hosts := hs\<rparr>)"
  "only_scaled cur (cur\<lparr>sc_Services := ss\<rparr>) = list_all2 scaled_service (sc_Services cur) ss"
  by (simp_all add: only_scaled_def)

lemma scale_services_ok:
  assumes "scenario_maps cur" "nb \<in> set (scale_services cur act is (service_scaled spec act))"
  shows "only_scaled cur nb"
proof -
  obtain i t where "nb = cur\<lparr>sc_Services := (sc_Services cur)[i := t]\<rparr>" "service_scaled spec act (sc_Services cur ! i) = Some t"
      "ServiceAllowsBatchScalingAction (Some (sc_Services cur ! i)) act"
    using assms by (auto simp: scale_services_def cloneScenario_id Let_def split: if_splits option.splits)
  then show ?thesis using service_scaled_ok by (simp add: scaled_update)
qed

lemma with_behavior_ok: "scenario_maps cur \<Longrightarrow> only_scaled cur (with_behavior cur i g)"
  by (simp add: with_behavior_def with_service_def cloneScenario_id Let_def scaled_service_def scaled_update)

lemma action_neighbors_ok:
  assumes "scenario_maps cur" "nb \<in> set (action_neighbors spec cur m act)"
  shows "only_scaled cur nb"
  using assms scale_services_ok [OF assms(1), of nb act _ spec]
  by (cases act) (auto simp: action_neighbors_def scale_hosts_def with_host_def scale_out_hosts_def scale_in_hosts_def
    scale_queues_def scale_subscribers_def over_services_def cloneScenario_id with_behavior_ok Let_def
    split: list.splits if_splits option.splits)

lemma set_order [simp]: "set (orderNeighborsForExpansion spec cur m nbs) = set nbs"
  by (simp add: orderNeighborsForExpansion_def)

lemma neighbor_proposed:
  assumes "nb \<in> set (GenerateBatchNeighbors (Some spec) baseline (Some cur) m)"
  shows "nb \<in> set (proposed_neighbors spec cur m)" "StaticCapacityOK (Some nb)" "withinBatchBounds (Some spec) baseline (Some nb)"
  using assms by (auto simp: GenerateBatchNeighbors_def dest!: in_set_takeD)

lemma proposed_ok:
  assumes "scenario_maps cur" "nb \<in> set (proposed_neighbors spec cur m)"
  shows "scaled_scenario cur nb \<and> (bsp_FreezeWorkload spec \<longrightarrow> sc_Workload nb = sc_Workload cur) \<and>
     (bsp_FreezePolicies spec \<longrightarrow> sc_Policies nb = sc_Policies cur)"
  using assms action_neighbors_ok [OF assms(1), of nb spec m]
  by (auto simp: proposed_neighbors_def only_scaled_def workload_neighbors_def policy_neighbors_def with_arrival_def
    with_autoscaling_def cloneScenario_id Let_def split: if_splits option.splits)


definition demo_batch_scenario :: "int \<Rightarrow> scenario" where
  "demo_batch_scenario n = (demo_scenario n)\<lparr>sc_Services := [(demo_service n)\<lparr>sv_MemoryMB := 512\<rparr>],
     sc_Hosts := [\<lparr>ho_ID = ''host-1'', ho_Cores = 16, ho_MemoryGB = 32, ho_Zone = [], ho_Labels = []\<rparr>]\<rparr>"

definition demo_batch_spec :: batch_spec where
  "demo_batch_spec = (DefaultBatchSpec (Some (demo_batch_scenario 1)))\<lparr>bsp_AllowedActionsOrdered := [SERVICE_SCALE_OUT]\<rparr>"

lemma slack_ge: "0 \<le> c \<Longrightarrow> fl c = c \<Longrightarrow> c \<le> fmul c (fl (1001 / 1000))"
proof -
  assume c: "0 \<le> c" "fl c = c"
  have "1 \<le> fl (1001 / 1000)" using fl_mono [of 1 "1001 / 1000"] by (simp add: fl_one)
  then have "c * 1 \<le> c * fl (1001 / 1000)" using c by (intro mult_left_mono) auto
  then show ?thesis using fl_mono [of c "c * fl (1001 / 1000)"] c by (simp add: fmul_def)
qed

lemma fl_demo: "fl 2 = 2" "fl 4 = 4" "fl 16 = 16" "fl 1024 = 1024" "fl 32768 = 32768"
  using fl_int [of 2] fl_int [of 4] fl_int [of 16] fl_int [of 1024] fl_int [of 32768] by simp_all

lemma demo_capacity: "StaticCapacityOK (Some (demo_batch_scenario 2))"
  using slack_ge [of 16] slack_ge [of 32768]
  by (simp add: StaticCapacityOK_def demo_batch_scenario_def demo_service_def demo_scenario_def sum_over_def host_memory_def
    effective_replicas_def effective_cpu_def effective_memory_def of_int64_exact fl_demo fadd_def fmul_def)

lemma demo_bounds: "withinBatchBounds (Some demo_batch_spec) None (Some (demo_batch_scenario 2))"
  by (simp add: withinBatchBounds_def demo_batch_scenario_def demo_service_def demo_scenario_def demo_batch_spec_def
    DefaultBatchSpec_def initBoundsFromBaseline_def safeInt32FromInt_def service_within_def host_within_bounds_def host_memory_def
    wrap32_def Let_def)

lemma demo_maps: "scenario_maps (demo_batch_scenario n)"
  by (simp add: scenario_maps_def demo_batch_scenario_def demo_scenario_def demo_service_def service_maps_def routing_maps_def)

lemma demo_indices: "scale_indices spec (demo_batch_scenario 1) None = [0]"
  by (simp add: scale_indices_def neighborStress_def brokerConsumerTargetServiceIndices_def consumer_targets_def
    demo_batch_scenario_def demo_scenario_def demo_service_def)

lemma demo_proposed: "proposed_neighbors demo_batch_spec (demo_batch_scenario 1) None = [demo_batch_scenario 2]"
  by (simp add: proposed_neighbors_def search_actions_def action_neighbors_def demo_batch_spec_def demo_indices scale_services_def
      cloneScenario_id [OF demo_maps])
    (simp add: demo_batch_scenario_def demo_scenario_def demo_service_def ServiceAllowsBatchScalingAction_def equal_fold_def to_lower_def
      trim_space_def service_scaled_def DefaultBatchSpec_def initBoundsFromBaseline_def wrap64_def Let_def)

lemma demo_neighbors:
  "GenerateBatchNeighbors (Some demo_batch_spec) None (Some (demo_batch_scenario 1)) None = [demo_batch_scenario 2]"
  by (simp add: GenerateBatchNeighbors_def demo_proposed demo_capacity demo_bounds orderNeighborsForExpansion_def)
    (simp add: neighbor_cap_def demo_batch_spec_def DefaultBatchSpec_def initBoundsFromBaseline_def demo_batch_scenario_def Let_def)


end
