(* ===== verification/Batch_Beam.thy ===== *)
theory Batch_Beam
  imports Batch_Search
begin

text \<open>
  The beam search, \<open>internal/improvement/batch_search.go\<close>: every state of the frontier is expanded, the new candidates
  are evaluated once each, the best feasible and infeasible ones form the next frontier, and the best candidate is refined at the end.

  The hash of a scenario, the evaluation, the context and the library's sort are parameters. An evaluation may read and write the
  registry of candidates, which the search shares with it.
\<close>

datatype batch_error = ErrBatchBudgetExhausted | BatchError go_error

record beam_state =
  bm_scenario :: scenario
  bm_metrics :: "run_metrics_pb option"
  bm_score :: batch_score
  bm_hash :: "64 word"
  bm_depth :: int

record batch_search_result =
  bsr_BestScenario :: "scenario option"
  bsr_BestRunID :: string
  bsr_BestScore :: batch_score
  bsr_Feasible :: bool
  bsr_Summary :: string
  bsr_Evaluations :: int
  bsr_RefinementEvaluations :: int
  bsr_CandidateRunIDs :: "string list"
  bsr_AllFeasibleEmpty :: bool
  bsr_EffectiveMaxEvaluations :: int
  bsr_BudgetExhausted :: bool

type_synonym 'w batch_eval =
  "scenario \<Rightarrow> candidate_store \<times> 'w \<Rightarrow> (batch_error + run_metrics_pb option \<times> int) \<times> candidate_store \<times> 'w"

text \<open>The variables the closure of the search shares, and the world of the evaluation.\<close>

record 'w search =
  se_visited :: "64 word list"
  se_evalCount :: int
  se_best :: "beam_state option"
  se_cand :: candidate_store
  se_world :: 'w

text \<open>What does not change during a search: the hash, the check of the context, the evaluation, the request and the budget.\<close>

record 'w search_params =
  pr_hash :: "scenario \<Rightarrow> 64 word"
  pr_ctx :: "'w \<Rightarrow> go_error option"
  pr_eval :: "'w batch_eval"
  pr_spec :: batch_spec
  pr_baseline :: scenario
  pr_max :: int

definition reevaluations :: "batch_spec \<Rightarrow> int" where
  "reevaluations spec = (if bsp_ReevalPerCandidate spec < 1 then 1 else bsp_ReevalPerCandidate spec)"

definition better :: "beam_state \<Rightarrow> beam_state \<Rightarrow> bool" where
  "better a b = CompareBatchScores (bm_score a) (bm_score b) (bm_hash a) (bm_hash b)"

definition tryEval :: "'w search_params \<Rightarrow> scenario \<Rightarrow> 'w search \<Rightarrow> (batch_error + beam_state option) \<times> 'w search" where
  "tryEval p sc s =
     (let h = pr_hash p sc
      in if h \<in> set (se_visited s) then (Inr None, s)
         else case pr_ctx p (se_world s) of Some e \<Rightarrow> (Inl (BatchError e), s) | None \<Rightarrow>
           if pr_max p > 0 \<and> se_evalCount s + reevaluations (pr_spec p) > pr_max p then (Inl ErrBatchBudgetExhausted, s)
           else case pr_eval p sc (se_cand s, se_world s) of
             (Inl e, c, w) \<Rightarrow> (Inl e, s\<lparr>se_cand := c, se_world := w\<rparr>)
           | (Inr (m, cost), c, w) \<Rightarrow>
               let score = ComputeBatchScore (Some (pr_spec p)) (Some (pr_baseline p)) (Some sc) m;
                   st = \<lparr>bm_scenario = sc, bm_metrics = m, bm_score = score, bm_hash = h, bm_depth = 0\<rparr>
               in (Inr (Some st), s\<lparr>se_evalCount := se_evalCount s + cost, se_visited := h # se_visited s,
                     se_cand := RecordBatchScore h score c, se_world := w,
                     se_best := (case se_best s of None \<Rightarrow> Some st | Some b \<Rightarrow> if better st b then Some st else Some b)\<rparr>))"

datatype layer = LayerDone "beam_state list" | LayerBudget | LayerFailed batch_error

fun eval_layer :: "'w search_params \<Rightarrow> int \<Rightarrow> scenario list \<Rightarrow> beam_state list \<Rightarrow> 'w search \<Rightarrow> layer \<times> 'w search" where
  "eval_layer p depth [] acc s = (LayerDone acc, s)"
| "eval_layer p depth (sc # scs) acc s =
     (case tryEval p sc s of
        (Inl ErrBatchBudgetExhausted, s') \<Rightarrow> (LayerBudget, s')
      | (Inl e, s') \<Rightarrow> (LayerFailed e, s')
      | (Inr None, s') \<Rightarrow> eval_layer p depth scs acc s'
      | (Inr (Some st), s') \<Rightarrow> eval_layer p depth scs (acc @ [st\<lparr>bm_depth := depth + 1\<rparr>]) s')"

type_synonym state_sort = "(beam_state \<Rightarrow> beam_state \<Rightarrow> bool) \<Rightarrow> beam_state list \<Rightarrow> beam_state list"

definition beam_width :: "batch_spec \<Rightarrow> nat" where
  "beam_width spec = nat (if bsp_BeamWidth spec < 1 then 8 else bsp_BeamWidth spec)"

definition infeasible_width :: "batch_spec \<Rightarrow> nat" where
  "infeasible_width spec = nat (if bsp_InfeasibleBeamWidth spec < 1 then 4 else bsp_InfeasibleBeamWidth spec)"

definition next_frontier :: "state_sort \<Rightarrow> batch_spec \<Rightarrow> beam_state list \<Rightarrow> beam_state list" where
  "next_frontier sort_slice spec layer =
     take (beam_width spec) (sort_slice better (filter (\<lambda>s. bsc_Feasible (bm_score s)) layer)) @
     take (infeasible_width spec) (sort_slice better (filter (\<lambda>s. \<not> bsc_Feasible (bm_score s)) layer))"

definition expand :: "'w search_params \<Rightarrow> beam_state list \<Rightarrow> scenario list" where
  "expand p frontier = concat (map (\<lambda>st.
     GenerateBatchNeighbors (Some (pr_spec p)) (Some (pr_baseline p)) (Some (bm_scenario st)) (bm_metrics st)) frontier)"

text \<open>The loop over the depths that are left: an error, or whether the budget was exhausted.\<close>

fun beam_loop ::
  "state_sort \<Rightarrow> 'w search_params \<Rightarrow> nat \<Rightarrow> int \<Rightarrow> beam_state list \<Rightarrow> 'w search \<Rightarrow> (batch_error + bool) \<times> 'w search" where
  "beam_loop sort_slice p 0 depth frontier s = (Inr False, s)"
| "beam_loop sort_slice p (Suc n) depth frontier s =
     (case eval_layer p depth (expand p frontier) [] s of
        (LayerBudget, s') \<Rightarrow> (Inr True, s')
      | (LayerFailed e, s') \<Rightarrow> (Inl e, s')
      | (LayerDone layer, s') \<Rightarrow>
          if layer = [] then (Inr False, s')
          else beam_loop sort_slice p n (depth + 1) (next_frontier sort_slice (pr_spec p) layer) s')"

definition refine :: "'w search_params \<Rightarrow> 'w search \<Rightarrow> (batch_error + bool) \<times> 'w search" where
  "refine p s =
     (case se_best s of None \<Rightarrow> (Inr False, s) | Some b \<Rightarrow>
        if \<not> bsp_EnableLocalRefinement (pr_spec p) then (Inr False, s)
        else case eval_layer p 0 (GenerateBatchNeighbors (Some (RefinementSpec (pr_spec p))) (Some (pr_baseline p))
                  (Some (bm_scenario b)) (bm_metrics b)) [] s of
               (LayerBudget, s') \<Rightarrow> (Inr True, s')
             | (LayerFailed e, s') \<Rightarrow> (Inl e, s')
             | (LayerDone _, s') \<Rightarrow> (Inr False, s'))"

definition search_depth :: "batch_spec \<Rightarrow> nat" where
  "search_depth spec = nat (if bsp_MaxSearchDepth spec < 1 then 1 else bsp_MaxSearchDepth spec)"

definition search_result :: "row_sort \<Rightarrow> 'w search_params \<Rightarrow> int \<Rightarrow> bool \<Rightarrow> 'w search \<Rightarrow> batch_search_result" where
  "search_result row_sort p beamEvals exhausted s =
     (let scen = map_option (\<lambda>b. cloneScenario (bm_scenario b)) (se_best s);
          score = (case se_best s of None \<Rightarrow> zero_score | Some b \<Rightarrow> bm_score b);
          h = (case scen of None \<Rightarrow> 0 | Some sc \<Rightarrow> pr_hash p sc)
      in \<lparr>bsr_BestScenario = scen,
          bsr_BestRunID = (if h \<noteq> 0 then (case cs_Lookup h (se_cand s) of None \<Rightarrow> [] | Some r \<Rightarrow> r) else []),
          bsr_BestScore = score, bsr_Feasible = bsc_Feasible score,
          bsr_Summary = (if bsc_Feasible score then ''feasible candidate'' else ''no feasible candidate in search''),
          bsr_Evaluations = se_evalCount s, bsr_RefinementEvaluations = se_evalCount s - beamEvals,
          bsr_CandidateRunIDs = SortedBatchCandidateRunIDs row_sort (se_cand s),
          bsr_AllFeasibleEmpty = (\<not> bsc_Feasible score), bsr_EffectiveMaxEvaluations = pr_max p,
          bsr_BudgetExhausted = exhausted\<rparr>)"

definition run_search ::
  "state_sort \<Rightarrow> row_sort \<Rightarrow> 'w search_params \<Rightarrow> candidate_store \<Rightarrow> 'w \<Rightarrow>
   (batch_error + batch_search_result) \<times> candidate_store \<times> 'w" where
  "run_search sort_slice row_sort p cand w =
     (let s0 = \<lparr>se_visited = [], se_evalCount = 0, se_best = None, se_cand = cand, se_world = w\<rparr>;
          fin = (\<lambda>(s :: 'w search). (se_cand s, se_world s))
      in case tryEval p (cloneScenario (pr_baseline p)) s0 of
           (Inl e, s1) \<Rightarrow> (Inl e, fin s1)
         | (Inr None, s1) \<Rightarrow> (Inl (BatchError (Err ''baseline duplicate or empty'')), fin s1)
         | (Inr (Some b), s1) \<Rightarrow>
             (case beam_loop sort_slice p (search_depth (pr_spec p)) 0 [b] s1 of
                (Inl e, s2) \<Rightarrow> (Inl e, fin s2)
              | (Inr exhausted, s2) \<Rightarrow>
                  (case refine p s2 of
                     (Inl e, s3) \<Rightarrow> (Inl e, fin s3)
                   | (Inr exhausted', s3) \<Rightarrow>
                       (Inr (search_result row_sort p (se_evalCount s2) (exhausted \<or> exhausted') s3), fin s3))))"

definition RunBatchBeamSearch ::
  "state_sort \<Rightarrow> row_sort \<Rightarrow> (scenario \<Rightarrow> 64 word) \<Rightarrow> ('w \<Rightarrow> go_error option) \<Rightarrow> 'w batch_eval \<Rightarrow>
   batch_spec option \<Rightarrow> scenario option \<Rightarrow> int \<Rightarrow> candidate_store option \<Rightarrow> 'w \<Rightarrow>
   (batch_error + batch_search_result) \<times> candidate_store \<times> 'w" where
  "RunBatchBeamSearch sort_slice row_sort hash ctx ev ospec obase maxEvaluations ocand w =
     (let cand = (case ocand of None \<Rightarrow> NewCandidateStore | Some c \<Rightarrow> c)
      in case (ospec, obase) of
           (Some spec, Some base) \<Rightarrow>
             run_search sort_slice row_sort \<lparr>pr_hash = hash, pr_ctx = ctx, pr_eval = ev, pr_spec = spec, pr_baseline = base,
               pr_max = maxEvaluations\<rparr> cand w
         | _ \<Rightarrow> (Inl (BatchError (Err ''spec and baseline required'')), cand, w))"

subsection \<open>The log of the evaluations\<close>

text \<open>An evaluation that also keeps the list of the candidates it has evaluated, with their metrics and costs.\<close>

type_synonym evaluation = "scenario \<times> run_metrics_pb option \<times> int"

definition logged :: "'w batch_eval \<Rightarrow> ('w \<times> evaluation list) batch_eval" where
  "logged ev sc = (\<lambda>(c, w, tr). case ev sc (c, w) of
     (Inl e, c', w') \<Rightarrow> (Inl e, c', w', tr)
   | (Inr (m, k), c', w') \<Rightarrow> (Inr (m, k), c', w', tr @ [(sc, m, k)]))"

definition score_in :: "'w search_params \<Rightarrow> evaluation \<Rightarrow> batch_score" where
  "score_in p e = ComputeBatchScore (Some (pr_spec p)) (Some (pr_baseline p)) (Some (fst e)) (fst (snd e))"

definition admissible :: "'w search_params \<Rightarrow> scenario \<Rightarrow> bool" where
  "admissible p sc \<longleftrightarrow> StaticCapacityOK (Some sc) \<and> withinBatchBounds (Some (pr_spec p)) (Some (pr_baseline p)) (Some sc)"

definition best_of_log :: "'w search_params \<Rightarrow> evaluation list \<Rightarrow> beam_state option \<Rightarrow> bool" where
  "best_of_log p tr ob \<longleftrightarrow>
     (case ob of None \<Rightarrow> tr = [] | Some b \<Rightarrow>
        (\<exists>e \<in> set tr. bm_scenario b = fst e \<and> bm_score b = score_in p e) \<and>
        (bsc_Feasible (bm_score b) \<longleftrightarrow> (\<exists>e \<in> set tr. bsc_Feasible (score_in p e))))"

definition search_inv :: "('w \<times> evaluation list) search_params \<Rightarrow> ('w \<times> evaluation list) search \<Rightarrow> bool" where
  "search_inv p s \<longleftrightarrow>
     (let tr = snd (se_world s) in
      se_visited s = rev (map (\<lambda>e. pr_hash p (fst e)) tr) \<and> distinct (se_visited s) \<and>
      se_evalCount s = sum_list (map (\<lambda>e. snd (snd e)) tr) \<and> best_of_log p tr (se_best s) \<and>
      list_all (\<lambda>e. admissible p (fst e)) (tl tr) \<and>
      (0 < pr_max p \<and> (\<forall>e \<in> set tr. snd (snd e) \<le> reevaluations (pr_spec p)) \<longrightarrow> se_evalCount s \<le> pr_max p))"

abbreviation evals :: "('w \<times> evaluation list) search \<Rightarrow> nat" where
  "evals s \<equiv> length (snd (se_world s))"

lemma better_feasible: "bsc_Feasible (bm_score (if better a b then a else b)) \<longleftrightarrow> bsc_Feasible (bm_score a) \<or> bsc_Feasible (bm_score b)"
  by (auto simp: better_def CompareBatchScores_def)

lemma best_of_log_snoc:
  assumes "best_of_log p tr ob" "bm_scenario st = fst e" "bm_score st = score_in p e"
  shows "best_of_log p (tr @ [e]) (case ob of None \<Rightarrow> Some st | Some b \<Rightarrow> if better st b then Some st else Some b)"
proof (cases ob)
  case (Some b)
  have "bsc_Feasible (bm_score (if better st b then st else b)) \<longleftrightarrow> (\<exists>e' \<in> set (tr @ [e]). bsc_Feasible (score_in p e'))"
    unfolding better_feasible using assms Some by (auto simp: best_of_log_def)
  then show ?thesis using assms Some by (auto simp: best_of_log_def split: if_splits)
qed (use assms in \<open>simp add: best_of_log_def\<close>)

lemma tryEval_inv:
  assumes ev: "pr_eval p = logged ev" and inv: "search_inv p s" and ok: "evals s = 0 \<or> admissible p sc"
    and t: "tryEval p sc s = (r, s')"
  shows "search_inv p s' \<and> evals s \<le> evals s' \<and> evals s' \<le> evals s + 1 \<and> (r = Inr None \<or> (\<exists>e. r = Inl e) \<longrightarrow> evals s' = evals s) \<and>
    (\<forall>st. r = Inr (Some st) \<longrightarrow> evals s' = evals s + 1)"
proof (cases "\<exists>st. r = Inr (Some st)")
  case False
  then show ?thesis using t inv
    by (auto simp: tryEval_def ev logged_def Let_def search_inv_def split: if_splits option.splits sum.splits prod.splits)
next
  case True
  obtain c w tr where w: "se_cand s = c" "se_world s = (w, tr)" by (cases "se_world s") auto
  obtain m k c' w' where e: "ev sc (c, w) = (Inr (m, k), c', w')" and nv: "pr_hash p sc \<notin> set (se_visited s)"
    and b: "0 < pr_max p \<longrightarrow> se_evalCount s + reevaluations (pr_spec p) \<le> pr_max p"
    using t True w by (auto simp: tryEval_def ev logged_def Let_def split: if_splits option.splits sum.splits prod.splits)
  define st where "st = \<lparr>bm_scenario = sc, bm_metrics = m, bm_score = score_in p (sc, m, k), bm_hash = pr_hash p sc, bm_depth = 0\<rparr>"
  have s': "s' = s\<lparr>se_evalCount := se_evalCount s + k, se_visited := pr_hash p sc # se_visited s,
      se_cand := RecordBatchScore (pr_hash p sc) (score_in p (sc, m, k)) c', se_world := (w', tr @ [(sc, m, k)]),
      se_best := (case se_best s of None \<Rightarrow> Some st | Some b \<Rightarrow> if better st b then Some st else Some b)\<rparr>"
    using t True nv b w e
    by (auto simp: tryEval_def ev logged_def Let_def st_def score_in_def split: if_splits option.splits)
  have "best_of_log p (tr @ [(sc, m, k)]) (se_best s')"
    using best_of_log_snoc [of p tr "se_best s" st "(sc, m, k)"] inv w by (simp add: s' st_def search_inv_def)
  moreover have "list_all (\<lambda>e. admissible p (fst e)) (tl (tr @ [(sc, m, k)]))"
    using ok inv w by (cases tr) (auto simp: search_inv_def)
  ultimately show ?thesis using True inv nv b w by (auto simp: search_inv_def s')
qed

lemma eval_layer_inv:
  assumes "pr_eval p = logged ev" "search_inv p s" "\<forall>sc \<in> set scs. admissible p sc" "eval_layer p d scs acc s = (r, s')"
  shows "search_inv p s' \<and> evals s \<le> evals s' \<and> evals s' \<le> evals s + length scs \<and>
    (\<forall>layer. r = LayerDone layer \<longrightarrow> length layer \<le> length acc + length scs)"
  using assms(2-4)
proof (induction scs arbitrary: acc s)
  case (Cons sc scs)
  obtain q s1 where t: "tryEval p sc s = (q, s1)" by fastforce
  have i: "search_inv p s1" "evals s \<le> evals s1" "evals s1 \<le> evals s + 1"
    using tryEval_inv [OF assms(1) Cons.prems(1) _ t] Cons.prems(2) by auto
  have adm: "\<forall>sc \<in> set scs. admissible p sc" using Cons.prems(2) by simp
  show ?case
  proof (cases "(\<exists>e. q = Inl e)")
    case True
    then have "s' = s1" "\<forall>layer. r \<noteq> LayerDone layer"
      using Cons.prems(3) t by (auto split: batch_error.splits)
    then show ?thesis using i by simp
  next
    case False
    then obtain acc' where a: "eval_layer p d scs acc' s1 = (r, s')" "length acc' \<le> length acc + 1"
      using Cons.prems(3) t by (cases q) (auto split: option.splits)
    show ?thesis using Cons.IH [OF i(1) adm a(1)] i a(2) by auto
  qed
qed auto

lemma expand_admissible: "\<forall>sc \<in> set (expand p frontier). admissible p sc"
  using neighbor_proposed(2,3) by (fastforce simp: expand_def admissible_def)

lemma length_neighbors: "length (GenerateBatchNeighbors (Some spec) b oc m) \<le> neighbor_cap spec"
  by (cases oc) (simp_all add: GenerateBatchNeighbors_def)

lemma length_expand: "length (expand p frontier) \<le> length frontier * neighbor_cap (pr_spec p)"
proof (induction frontier)
  case (Cons st frontier)
  have "length (expand p (st # frontier)) \<le> neighbor_cap (pr_spec p) + length (expand p frontier)"
    using length_neighbors [of "pr_spec p" "Some (pr_baseline p)" "Some (bm_scenario st)" "bm_metrics st"] by (simp add: expand_def)
  then show ?case using Cons.IH by simp
qed (simp add: expand_def)

abbreviation width :: "batch_spec \<Rightarrow> nat" where
  "width spec \<equiv> beam_width spec + infeasible_width spec"

lemma length_next_frontier: "length (next_frontier sort_slice spec layer) \<le> width spec"
  by (simp add: next_frontier_def)

lemma width_pos: "1 \<le> width spec"
  by (auto simp: beam_width_def infeasible_width_def)

lemma beam_loop_inv:
  assumes "pr_eval p = logged ev" "search_inv p s" "length frontier \<le> width (pr_spec p)"
    "beam_loop sort_slice p n d frontier s = (r, s')"
  shows "search_inv p s' \<and> evals s \<le> evals s' \<and> evals s' \<le> evals s + n * (width (pr_spec p) * neighbor_cap (pr_spec p))"
  using assms(2-4)
proof (induction n arbitrary: d frontier s)
  case (Suc n)
  obtain l s1 where l: "eval_layer p d (expand p frontier) [] s = (l, s1)" by fastforce
  have len: "length (expand p frontier) \<le> width (pr_spec p) * neighbor_cap (pr_spec p)"
    using length_expand [of p frontier] Suc.prems(2) by (meson le_trans mult_le_mono1)
  note i = eval_layer_inv [OF assms(1) Suc.prems(1) expand_admissible l]
  show ?case
  proof (cases "\<exists>layer. l = LayerDone layer \<and> layer \<noteq> []")
    case True
    then obtain layer where "beam_loop sort_slice p n (d + 1) (next_frontier sort_slice (pr_spec p) layer) s1 = (r, s')"
      using Suc.prems(3) l by auto
    from Suc.IH [OF _ length_next_frontier this] show ?thesis using i len by auto
  next
    case False
    then have "s' = s1" using Suc.prems(3) l by (cases l) auto
    then show ?thesis using i len by auto
  qed
qed simp

lemma refinement_bounds: "withinBatchBounds (Some (RefinementSpec spec)) b oc = withinBatchBounds (Some spec) b oc"
proof -
  have "service_within (RefinementSpec spec) svc = service_within spec svc"
    "host_within_bounds (RefinementSpec spec) h = host_within_bounds spec h"
    "bsp_MinHosts (RefinementSpec spec) = bsp_MinHosts spec" "bsp_MaxHosts (RefinementSpec spec) = bsp_MaxHosts spec" for svc h
    by (simp_all add: service_within_def host_within_bounds_def RefinementSpec_def Let_def)
  then have "service_within (RefinementSpec spec) = service_within spec" "host_within_bounds (RefinementSpec spec) = host_within_bounds spec"
    "bsp_MinHosts (RefinementSpec spec) = bsp_MinHosts spec" "bsp_MaxHosts (RefinementSpec spec) = bsp_MaxHosts spec"
    by auto
  then show ?thesis by (simp add: withinBatchBounds_def split: option.splits)
qed

lemma refine_inv:
  assumes "pr_eval p = logged ev" "search_inv p s" "refine p s = (r, s')"
  shows "search_inv p s' \<and> evals s \<le> evals s' \<and> evals s' \<le> evals s + neighbor_cap (RefinementSpec (pr_spec p))"
proof (cases "se_best s = None \<or> \<not> bsp_EnableLocalRefinement (pr_spec p)")
  case False
  then obtain b where b: "se_best s = Some b" by auto
  let ?ns = "GenerateBatchNeighbors (Some (RefinementSpec (pr_spec p))) (Some (pr_baseline p)) (Some (bm_scenario b)) (bm_metrics b)"
  obtain l s1 where l: "eval_layer p 0 ?ns [] s = (l, s1)" by fastforce
  have "\<forall>sc \<in> set ?ns. admissible p sc"
    using neighbor_proposed(2,3) refinement_bounds by (fastforce simp: admissible_def)
  note i = eval_layer_inv [OF assms(1,2) this l]
  have "s' = s1" using assms(3) False b l by (cases l) (auto simp: refine_def)
  then show ?thesis using i length_neighbors [of "RefinementSpec (pr_spec p)" "Some (pr_baseline p)" "Some (bm_scenario b)" "bm_metrics b"]
    by simp
qed (use assms in \<open>auto simp: refine_def split: option.splits\<close>)

lemma run_search_stages:
  assumes "run_search sort_slice row_sort p cand w = (Inr r, c, w')"
  obtains b s1 s2 s3 exhausted q where
    "tryEval p (cloneScenario (pr_baseline p))
       \<lparr>se_visited = [], se_evalCount = 0, se_best = None, se_cand = cand, se_world = w\<rparr> = (Inr (Some b), s1)"
    "beam_loop sort_slice p (search_depth (pr_spec p)) 0 [b] s1 = (Inr exhausted, s2)"
    "refine p s2 = (Inr q, s3)" "r = search_result row_sort p (se_evalCount s2) (exhausted \<or> q) s3" "w' = se_world s3"
  using assms by (auto simp: run_search_def Let_def split: sum.splits option.splits prod.splits)

lemma run_search_log:
  assumes "pr_eval p = logged ev" "run_search sort_slice row_sort p cand (w, []) = (Inr r, c, w', tr)"
  shows "\<exists>b s. search_inv p s \<and> snd (se_world s) = tr \<and> se_best s = Some b \<and> tr \<noteq> [] \<and>
    bsr_BestScenario r = Some (cloneScenario (bm_scenario b)) \<and> bsr_BestScore r = bm_score b \<and>
    bsr_Feasible r = bsc_Feasible (bm_score b) \<and> bsr_Evaluations r = se_evalCount s \<and>
    length tr \<le> 1 + search_depth (pr_spec p) * (width (pr_spec p) * neighbor_cap (pr_spec p)) + neighbor_cap (RefinementSpec (pr_spec p))"
proof (rule run_search_stages [OF assms(2)])
  fix b s1 s2 s3 exhausted q
  let ?s0 = "\<lparr>se_visited = [], se_evalCount = 0, se_best = None, se_cand = cand, se_world = (w, [])\<rparr>"
  assume t: "tryEval p (cloneScenario (pr_baseline p)) ?s0 = (Inr (Some b), s1)"
    and l: "beam_loop sort_slice p (search_depth (pr_spec p)) 0 [b] s1 = (Inr exhausted, s2)"
    and f: "refine p s2 = (Inr q, s3)" and r: "r = search_result row_sort p (se_evalCount s2) (exhausted \<or> q) s3"
    and w: "(w', tr) = se_world s3"
  have "search_inv p ?s0" by (simp add: search_inv_def best_of_log_def)
  note i1 = tryEval_inv [OF assms(1) this _ t]
  have i2: "search_inv p s2" "evals s1 \<le> evals s2"
      "evals s2 \<le> evals s1 + search_depth (pr_spec p) * (width (pr_spec p) * neighbor_cap (pr_spec p))"
    using beam_loop_inv [OF assms(1) _ _ l] i1 width_pos by auto
  note i3 = refine_inv [OF assms(1) i2(1) f]
  have tr: "snd (se_world s3) = tr" using w by (metis snd_conv)
  have ne: "tr \<noteq> []" using i1 i2 i3 tr by auto
  then obtain b where b: "se_best s3 = Some b" using i3 tr by (auto simp: search_inv_def best_of_log_def split: option.splits)
  show ?thesis using i1 i2 i3 tr ne b by (intro exI [of _ b] exI [of _ s3]) (simp add: r search_result_def Let_def)
qed


subsection \<open>The search returns\<close>

text \<open>An evaluation that never fails in a context that is never cancelled.\<close>

definition reliable :: "'w search_params \<Rightarrow> bool" where
  "reliable p \<longleftrightarrow> (\<forall>w. pr_ctx p w = None) \<and> (\<forall>sc cw. \<exists>m k cw'. pr_eval p sc cw = (Inr (m, k), cw'))"

lemma tryEval_reliable:
  assumes "reliable p" "tryEval p sc s = (Inl e, s')"
  shows "e = ErrBatchBudgetExhausted"
proof -
  obtain m k cw where "pr_eval p sc (se_cand s, se_world s) = (Inr (m, k), cw)" "pr_ctx p (se_world s) = None"
    using assms(1) unfolding reliable_def by blast
  then show ?thesis using assms(2) by (cases cw) (auto simp: tryEval_def Let_def split: if_splits)
qed

lemma eval_layer_reliable: "reliable p \<Longrightarrow> fst (eval_layer p d scs acc s) \<noteq> LayerFailed e"
proof (induction scs arbitrary: acc s)
  case (Cons sc scs)
  obtain q s1 where t: "tryEval p sc s = (q, s1)" by fastforce
  then show ?case using Cons tryEval_reliable [OF Cons.prems, of sc s _ s1]
    by (cases q) (auto split: batch_error.splits option.splits)
qed simp

lemma beam_loop_reliable: "reliable p \<Longrightarrow> \<exists>b. fst (beam_loop sort_slice p n d frontier s) = Inr b"
proof (induction n arbitrary: d frontier s)
  case (Suc n)
  obtain l s1 where l: "eval_layer p d (expand p frontier) [] s = (l, s1)" by fastforce
  then show ?case using Suc eval_layer_reliable [OF Suc.prems, of d "expand p frontier" "[]" s] by (cases l) auto
qed auto

lemma refine_cases:
  "refine p s = (Inr False, s) \<or> (\<exists>scs l s1. eval_layer p 0 scs [] s = (l, s1) \<and>
     refine p s = (case l of LayerBudget \<Rightarrow> Inr True | LayerFailed e \<Rightarrow> Inl e | LayerDone _ \<Rightarrow> Inr False, s1))"
proof (cases "se_best s = None \<or> \<not> bsp_EnableLocalRefinement (pr_spec p)")
  case False
  then obtain b where b: "se_best s = Some b" by auto
  let ?ns = "GenerateBatchNeighbors (Some (RefinementSpec (pr_spec p))) (Some (pr_baseline p)) (Some (bm_scenario b)) (bm_metrics b)"
  obtain l s1 where l: "eval_layer p 0 ?ns [] s = (l, s1)" by fastforce
  then have "refine p s = (case l of LayerBudget \<Rightarrow> Inr True | LayerFailed e \<Rightarrow> Inl e | LayerDone _ \<Rightarrow> Inr False, s1)"
    using False b by (cases l) (simp_all add: refine_def)
  then show ?thesis using l by blast
qed (auto simp: refine_def split: option.splits)

lemma refine_reliable:
  assumes "reliable p"
  shows "\<exists>b. fst (refine p s) = Inr b"
  using refine_cases [of p s]
proof (elim disjE exE conjE)
  fix scs l s1
  assume "eval_layer p 0 scs [] s = (l, s1)"
    "refine p s = (case l of LayerBudget \<Rightarrow> Inr True | LayerFailed e \<Rightarrow> Inl e | LayerDone _ \<Rightarrow> Inr False, s1)"
  then show ?thesis using eval_layer_reliable [OF assms, of 0 scs "[]" s] by (cases l) auto
qed auto

text \<open>Once there is a best candidate there always is one.\<close>

lemma tryEval_best: "tryEval p sc s = (r, s') \<Longrightarrow> se_best s \<noteq> None \<Longrightarrow> se_best s' \<noteq> None"
  by (auto simp: tryEval_def Let_def split: if_splits option.splits sum.splits prod.splits)

lemma eval_layer_best: "eval_layer p d scs acc s = (r, s') \<Longrightarrow> se_best s \<noteq> None \<Longrightarrow> se_best s' \<noteq> None"
proof (induction scs arbitrary: acc s)
  case (Cons sc scs)
  obtain q s1 where t: "tryEval p sc s = (q, s1)" by fastforce
  have "se_best s1 \<noteq> None" using tryEval_best [OF t] Cons.prems(2) .
  then show ?case using Cons.IH [of _ s1] Cons.prems(1) t by (cases q) (auto split: batch_error.splits option.splits)
qed simp

lemma beam_loop_best: "beam_loop sort_slice p n d frontier s = (r, s') \<Longrightarrow> se_best s \<noteq> None \<Longrightarrow> se_best s' \<noteq> None"
proof (induction n arbitrary: d frontier s)
  case (Suc n)
  obtain l s1 where l: "eval_layer p d (expand p frontier) [] s = (l, s1)" by fastforce
  have "se_best s1 \<noteq> None" using eval_layer_best [OF l] Suc.prems(2) .
  then show ?case using Suc.IH [of _ _ s1] Suc.prems(1) l by (cases l) (auto split: if_splits)
qed simp

lemma refine_best: "refine p s = (r, s') \<Longrightarrow> se_best s \<noteq> None \<Longrightarrow> se_best s' \<noteq> None"
  using refine_cases [of p s] eval_layer_best [of p 0 _ "[]" s _ s'] by (elim disjE exE conjE) simp_all

lemma beam_search_total:
  assumes "\<forall>w. ctx w = None" "\<forall>sc cw. \<exists>m k cw'. ev sc cw = (Inr (m, k), cw')"
    and "maxE \<le> 0 \<or> max 1 (bsp_ReevalPerCandidate spec) \<le> maxE"
  shows "\<exists>r c w'. RunBatchBeamSearch sort_slice row_sort hash ctx ev (Some spec) (Some base) maxE cand w = (Inr r, c, w') \<and>
     bsr_BestScenario r \<noteq> None"
proof -
  let ?p = "\<lparr>pr_hash = hash, pr_ctx = ctx, pr_eval = ev, pr_spec = spec, pr_baseline = base, pr_max = maxE\<rparr>"
  define c0 where "c0 = (case cand of None \<Rightarrow> NewCandidateStore | Some c \<Rightarrow> c)"
  let ?s0 = "\<lparr>se_visited = [], se_evalCount = 0, se_best = None, se_cand = c0, se_world = w\<rparr>"
  have rel: "reliable ?p" using assms(1,2) by (simp add: reliable_def)
  have b0: "\<not> (maxE > 0 \<and> 0 + reevaluations spec > maxE)" using assms(3) by (auto simp: reevaluations_def max_def split: if_splits)
  obtain m k c1 w1 where e: "ev (cloneScenario base) (c0, w) = (Inr (m, k), c1, w1)" using assms(2) by fast
  obtain b s1 where t: "tryEval ?p (cloneScenario base) ?s0 = (Inr (Some b), s1)" "se_best s1 = Some b"
    using e b0 assms(1) by (simp add: tryEval_def Let_def)
  obtain x s2 where l: "beam_loop sort_slice ?p (search_depth spec) 0 [b] s1 = (Inr x, s2)"
    using beam_loop_reliable [OF rel, of sort_slice "search_depth spec" 0 "[b]" s1] by (auto simp: fst_def split: prod.splits)
  obtain q s3 where f: "refine ?p s2 = (Inr q, s3)" using refine_reliable [OF rel, of s2] by (auto simp: fst_def split: prod.splits)
  have "se_best s3 \<noteq> None" using beam_loop_best [OF l] refine_best [OF f] t(2) by auto
  then show ?thesis using t l f by (auto simp: RunBatchBeamSearch_def run_search_def c0_def Let_def search_result_def)
qed

text \<open>C38: the search always returns a result. With an evaluation that does not fail, a context that is not cancelled and
  a budget that is unlimited or large enough for the baseline, the search ends without an error, for every hash and every
  sort; running out of budget later is reported in the result and is not an error.\<close>

theorem beam_search_returns:
  assumes "\<forall>w. ctx w = None" "\<forall>sc cw. \<exists>m k cw'. ev sc cw = (Inr (m, k), cw')"
    and "maxE \<le> 0 \<or> max 1 (bsp_ReevalPerCandidate spec) \<le> maxE"
  shows "\<exists>r c w'. RunBatchBeamSearch sort_slice row_sort hash ctx ev (Some spec) (Some base) maxE cand w = (Inr r, c, w') \<and>
     bsr_BestScenario r \<noteq> None"
  using assms by (rule beam_search_total)

definition demo_hash :: "scenario \<Rightarrow> 64 word" where
  "demo_hash sc = of_int (sum_list (map sv_Replicas (sc_Services sc)))"

lemma demo_logged: "\<exists>m k cw'. logged (\<lambda>sc cw. (Inr (None, 1), cw)) sc cw = (Inr (m, k), cw')"
  by (auto simp: logged_def split: prod.splits)

theorem beam_search_returns_witness:
  "\<exists>r c w'. RunBatchBeamSearch (\<lambda>less xs. xs) (\<lambda>xs. xs) demo_hash (\<lambda>_. None) (\<lambda>sc cw. (Inr (None, 1), cw))
     (Some demo_batch_spec) (Some (demo_batch_scenario 1)) 10 None () = (Inr r, c, w') \<and> bsr_BestScenario r \<noteq> None"
  by (rule beam_search_returns) (simp_all add: demo_batch_spec_def DefaultBatchSpec_def initBoundsFromBaseline_def
    demo_batch_scenario_def Let_def)


end
