(* ===== verification/Run_Limits.thy ===== *)
theory Run_Limits
  imports Sim_Engine Batch_Spec
begin

text \<open>
  The limits the server puts on runs: \<open>internal/simd/onlinelimits.go\<close>, \<open>limits.go\<close>, \<open>optimization_limits.go\<close> and
  \<open>optimization_helpers.go\<close>. The environment is a function from names to values, and the scenario parser (the YAML decoder)
  is an argument. Limits that are read with \<open>time.ParseDuration\<close> enter as the records.
\<close>

definition ms_of :: "duration \<Rightarrow> int" where
  "ms_of d = go_div d 1000000"

definition max_int32 :: int where
  "max_int32 = 2147483647"

subsection \<open>Online runs\<close>

record online_run_limits =
  ol_ServerMaxOnlineDuration :: duration
  ol_ServerMaxControllerSteps :: int
  ol_MaxConcurrentOnlineRuns :: int
  ol_DefaultMaxOnlineDuration :: duration
  ol_HeartbeatRequiredAfterDuration :: duration

definition DefaultOnlineRunLimits :: online_run_limits where
  "DefaultOnlineRunLimits = \<lparr>ol_ServerMaxOnlineDuration = 30 * 60 * 1000000000, ol_ServerMaxControllerSteps = 0,
     ol_MaxConcurrentOnlineRuns = 0, ol_DefaultMaxOnlineDuration = 10 * 60 * 1000000000,
     ol_HeartbeatRequiredAfterDuration = 10 * 60 * 1000000000\<rparr>"

type_synonym environment = "string \<Rightarrow> string"

definition parseDurationMsEnv :: "environment \<Rightarrow> string \<Rightarrow> duration \<Rightarrow> duration" where
  "parseDurationMsEnv getenv key dflt =
     (let s = getenv key in if s = [] then dflt
      else case atoi s of None \<Rightarrow> dflt | Some n \<Rightarrow> if n < 0 then dflt else wrap64 (n * 1000000))"

definition parseIntEnv :: "environment \<Rightarrow> string \<Rightarrow> int \<Rightarrow> int" where
  "parseIntEnv getenv key dflt =
     (let s = getenv key in if s = [] then dflt
      else case atoi s of None \<Rightarrow> dflt | Some n \<Rightarrow> if n < 0 then dflt else n)"

definition parseInt32Env :: "environment \<Rightarrow> string \<Rightarrow> int \<Rightarrow> int" where
  "parseInt32Env getenv key dflt =
     (let s = getenv key in if s = [] then dflt
      else case atoi s of None \<Rightarrow> dflt | Some n \<Rightarrow> if n < 0 \<or> n > max_int32 then dflt else n)"

definition OnlineRunLimitsFromEnv :: "environment \<Rightarrow> online_run_limits" where
  "OnlineRunLimitsFromEnv getenv =
     (let d = DefaultOnlineRunLimits
      in \<lparr>ol_ServerMaxOnlineDuration = parseDurationMsEnv getenv ''SIMD_SERVER_MAX_ONLINE_DURATION_MS'' (ol_ServerMaxOnlineDuration d),
          ol_ServerMaxControllerSteps = parseInt32Env getenv ''SIMD_SERVER_MAX_CONTROLLER_STEPS'' (ol_ServerMaxControllerSteps d),
          ol_MaxConcurrentOnlineRuns = parseIntEnv getenv ''SIMD_SERVER_MAX_CONCURRENT_ONLINE_RUNS'' (ol_MaxConcurrentOnlineRuns d),
          ol_DefaultMaxOnlineDuration = parseDurationMsEnv getenv ''SIMD_DEFAULT_MAX_ONLINE_DURATION_MS'' (ol_DefaultMaxOnlineDuration d),
          ol_HeartbeatRequiredAfterDuration =
            parseDurationMsEnv getenv ''SIMD_HEARTBEAT_REQUIRED_AFTER_MS'' (ol_HeartbeatRequiredAfterDuration d)\<rparr>)"

text \<open>As many intervals as cover a time span, at least \<open>lo\<close> and at most the greatest \<open>int32\<close>.\<close>

definition interval_count :: "int \<Rightarrow> int \<Rightarrow> int \<Rightarrow> int" where
  "interval_count lo spanMs intervalMs =
     (let n = go_div (wrap64 (wrap64 (spanMs + intervalMs) - 1)) intervalMs; n1 = (if n < lo then lo else n)
      in if n1 > max_int32 then max_int32 else n1)"

definition online_interval :: "optimization_config \<Rightarrow> int" where
  "online_interval opt = (if oc_ControlIntervalMs opt \<le> 0 then 1000 else oc_ControlIntervalMs opt)"

definition online_duration :: "online_run_limits \<Rightarrow> optimization_config \<Rightarrow> int" where
  "online_duration limits opt =
     (let dur = (if \<not> oc_AllowUnboundedOnline opt \<and> oc_MaxOnlineDurationMs opt = 0
                 then ms_of (ol_DefaultMaxOnlineDuration limits) else oc_MaxOnlineDurationMs opt);
          capMs = ms_of (ol_ServerMaxOnlineDuration limits)
      in if ol_ServerMaxOnlineDuration limits > 0 \<and> dur > 0 \<and> dur > capMs then capMs else dur)"

definition online_steps :: "online_run_limits \<Rightarrow> optimization_config \<Rightarrow> int" where
  "online_steps limits opt =
     (let dur = online_duration limits opt;
          steps = (if oc_MaxControllerSteps opt = 0 \<and> dur > 0 then interval_count 1 dur (online_interval opt)
                   else oc_MaxControllerSteps opt)
      in if ol_ServerMaxControllerSteps limits > 0 \<and> steps > ol_ServerMaxControllerSteps limits
         then ol_ServerMaxControllerSteps limits else steps)"

definition online_noop :: "online_run_limits \<Rightarrow> optimization_config \<Rightarrow> int" where
  "online_noop limits opt =
     (if oc_MaxNoopIntervals opt \<noteq> 0 then oc_MaxNoopIntervals opt
      else if oc_AllowUnboundedOnline opt \<and> online_duration limits opt = 0 then - 1
      else interval_count 20 60000 (online_interval opt))"

definition prepare_online :: "online_run_limits \<Rightarrow> optimization_config \<Rightarrow> go_error + optimization_config" where
  "prepare_online limits opt =
     (if online_duration limits opt > ms_of (ol_HeartbeatRequiredAfterDuration limits) \<and> \<not> oc_AllowUnboundedOnline opt \<and>
         oc_LeaseTtlMs opt \<le> 0
      then Inl (Err ''invalid online run input: lease_ttl_ms is required'')
      else Inr (opt\<lparr>oc_ControlIntervalMs := online_interval opt, oc_MaxOnlineDurationMs := online_duration limits opt,
                    oc_MaxControllerSteps := online_steps limits opt, oc_MaxNoopIntervals := online_noop limits opt\<rparr>))"

definition PrepareOnlineRunInput :: "run_input option \<Rightarrow> online_run_limits \<Rightarrow> go_error + run_input option" where
  "PrepareOnlineRunInput oinput limits =
     (case oinput of None \<Rightarrow> Inr None | Some input \<Rightarrow>
        (case ri_Optimization input of None \<Rightarrow> Inr (Some input) | Some opt \<Rightarrow>
           if \<not> oc_Online opt then Inr (Some input)
           else err_bind (prepare_online limits opt) (\<lambda>opt'. Inr (Some (input\<lparr>ri_Optimization := Some opt'\<rparr>)))))"

subsection \<open>Simulation and optimization limits\<close>

record srv_limits =
  sl_MaxStandardDuration :: duration
  sl_MaxEventsScheduled :: int
  sl_MaxEventsProcessed :: int
  sl_MaxEventQueueSize :: int
  sl_MaxRequestsTracked :: int
  sl_MaxTotalRequests :: int
  sl_MaxMetricPoints :: int
  sl_MaxWallClockRuntime :: duration
  sl_MaxOptimizationEvaluations :: int

definition defaultSimulationLimits :: srv_limits where
  "defaultSimulationLimits = \<lparr>sl_MaxStandardDuration = 30 * 60 * 1000000000, sl_MaxEventsScheduled = 2000000,
     sl_MaxEventsProcessed = 2000000, sl_MaxEventQueueSize = 200000, sl_MaxRequestsTracked = 200000, sl_MaxTotalRequests = 2000000,
     sl_MaxMetricPoints = 1000000, sl_MaxWallClockRuntime = 15 * 60 * 1000000000, sl_MaxOptimizationEvaluations = 1000\<rparr>"

definition parsePositiveInt64Env :: "environment \<Rightarrow> string \<Rightarrow> int \<Rightarrow> go_error + int" where
  "parsePositiveInt64Env getenv key dflt =
     (let raw = trim_space (getenv key) in if raw = [] then Inr dflt
      else case atoi raw of None \<Rightarrow> Inl (Err ''%s: invalid integer %q: %w'')
           | Some n \<Rightarrow> if n \<le> 0 then Inl (Err ''%s: value must be > 0'') else Inr n)"

definition parsePositiveIntEnv :: "environment \<Rightarrow> string \<Rightarrow> int \<Rightarrow> go_error + int" where
  "parsePositiveIntEnv = parsePositiveInt64Env"

text \<open>The value is converted to \<open>int32\<close> without a check.\<close>

definition parsePositiveInt32Env :: "environment \<Rightarrow> string \<Rightarrow> int \<Rightarrow> go_error + int" where
  "parsePositiveInt32Env getenv key dflt =
     err_bind (parsePositiveInt64Env getenv key dflt) (\<lambda>n. Inr (wrap32 n))"

definition toEngineRuntimeLimits :: "srv_limits \<Rightarrow> runtime_limits" where
  "toEngineRuntimeLimits l = \<lparr>rl_MaxEventsScheduled = sl_MaxEventsScheduled l, rl_MaxEventsProcessed = sl_MaxEventsProcessed l,
     rl_MaxEventQueueSize = sl_MaxEventQueueSize l, rl_MaxWallClockRun = sl_MaxWallClockRuntime l\<rparr>"

text \<open>The conversion of a \<open>float64\<close> to \<open>int64\<close>: toward zero in range, and the least value outside, as on amd64.\<close>

definition to_int64 :: "float64 \<Rightarrow> int" where
  "to_int64 x = (let n = ftrunc x in if min_int64 \<le> n \<and> n \<le> max_int64 then n else min_int64)"

definition estimateWorkloadArrivals :: "scenario option \<Rightarrow> duration \<Rightarrow> int" where
  "estimateWorkloadArrivals os d =
     (case os of None \<Rightarrow> 0 | Some s \<Rightarrow>
        if d \<le> 0 then 0
        else let seconds = duration_seconds d;
                 total = foldl (\<lambda>t w. if ar_RateRPS (wl_Arrival w) \<le> 0 then t else fadd t (fmul (ar_RateRPS (wl_Arrival w)) seconds))
                           0 (sc_Workload s)
             in if total < 0 then 0 else to_int64 total)"

definition run_duration :: "run_input \<Rightarrow> duration" where
  "run_duration input = (let d = wrap64 (ri_DurationMs input * 1000000) in if d \<le> 0 then 10 * 1000000000 else d)"

definition validatePreStart :: "(string \<Rightarrow> go_error + scenario) \<Rightarrow> srv_limits \<Rightarrow> run_input option \<Rightarrow> go_error + unit" where
  "validatePreStart parse l oinput =
     (case oinput of None \<Rightarrow> Inr () | Some input \<Rightarrow>
        let d = run_duration input
        in err_bind (err_checks
             [(ri_Optimization input = None \<and> sl_MaxStandardDuration l > 0 \<and> d > sl_MaxStandardDuration l,
               ''run rejected: duration %s exceeds max standard duration %s''),
              (pred_option (\<lambda>opt. \<not> oc_Online opt \<and> oc_MaxEvaluations opt > sl_MaxOptimizationEvaluations l) (ri_Optimization input) \<and>
               ri_Optimization input \<noteq> None,
               ''run rejected: optimization max_evaluations %d exceeds server limit %d'')]) (\<lambda>_.
             case parse (ri_ScenarioYaml input) of Inl _ \<Rightarrow> Inr () | Inr scenario \<Rightarrow>
               err_checks [(sl_MaxEventsScheduled l > 0 \<and> estimateWorkloadArrivals (Some scenario) d > sl_MaxEventsScheduled l,
                 ''run rejected: estimated arrivals %d exceeds max events scheduled %d'')]))"

record optimization_safety_limits =
  sf_MaxEvaluations :: int
  sf_MaxIterations :: int
  sf_MaxConcurrentCandidates :: int
  sf_MaxWallClockRuntime :: duration
  sf_CandidateMaxWallClock :: duration
  sf_MaxFailedCandidates :: int
  sf_MaxRetainedCandidates :: int
  sf_DefaultEvaluationDuration :: int
  sf_AllowBatch :: bool

definition defaultOptimizationSafetyLimits :: optimization_safety_limits where
  "defaultOptimizationSafetyLimits = \<lparr>sf_MaxEvaluations = 128, sf_MaxIterations = 20, sf_MaxConcurrentCandidates = 2,
     sf_MaxWallClockRuntime = 20 * 60 * 1000000000, sf_CandidateMaxWallClock = 90 * 1000000000, sf_MaxFailedCandidates = 16,
     sf_MaxRetainedCandidates = 64, sf_DefaultEvaluationDuration = 10000, sf_AllowBatch = True\<rparr>"

definition supported_objectives :: "string list" where
  "supported_objectives = [''p95_latency_ms'', ''p99_latency_ms'', ''mean_latency_ms'', ''throughput_rps'', ''error_rate'', ''cost'',
     ''cpu_utilization'', ''memory_utilization'']"

definition validateOptimizationPreStart :: "run_input option \<Rightarrow> optimization_safety_limits \<Rightarrow> go_error + unit" where
  "validateOptimizationPreStart oinput lims =
     (case oinput of None \<Rightarrow> Inr () | Some input \<Rightarrow>
        (case ri_Optimization input of None \<Rightarrow> Inr () | Some opt \<Rightarrow>
           let obj = trim_space (to_lower (oc_Objective opt)); offline = (\<not> oc_Online opt)
           in err_checks
             [(offline \<and> oc_Batch opt \<noteq> None \<and> \<not> sf_AllowBatch lims, ''run rejected: batch optimization disabled by server''),
              (offline \<and> oc_MaxEvaluations opt > sf_MaxEvaluations lims,
               ''run rejected: optimization max_evaluations %d exceeds server limit %d''),
              (offline \<and> oc_MaxIterations opt > sf_MaxIterations lims,
               ''run rejected: optimization max_iterations %d exceeds server limit %d''),
              (offline \<and> oc_EvaluationDurationMs opt > 0 \<and> oc_EvaluationDurationMs opt > ms_of (sf_CandidateMaxWallClock lims),
               ''run rejected: evaluation_duration_ms %d exceeds server candidate runtime limit %d''),
              (obj \<noteq> [] \<and> obj \<notin> set supported_objectives, ''run rejected: unsupported optimization objective %q'')]))"

definition getenvInt :: "environment \<Rightarrow> string \<Rightarrow> int" where
  "getenvInt getenv key =
     (let raw = trim_space (getenv key) in if raw = [] then 0 else case atoi raw of None \<Rightarrow> 0 | Some n \<Rightarrow> n)"

definition getenvInt32 :: "environment \<Rightarrow> string \<Rightarrow> int" where
  "getenvInt32 getenv key =
     (let raw = trim_space (getenv key) in if raw = [] then 0
      else case atoi raw of None \<Rightarrow> 0 | Some n \<Rightarrow> if - max_int32 - 1 \<le> n \<and> n \<le> max_int32 then n else 0)"

definition parse_bool :: "string \<Rightarrow> bool option" where
  "parse_bool s =
     (if s \<in> {''1'', ''t'', ''T'', ''TRUE'', ''true'', ''True''} then Some True
      else if s \<in> {''0'', ''f'', ''F'', ''FALSE'', ''false'', ''False''} then Some False else None)"

definition getenvBool :: "environment \<Rightarrow> string \<Rightarrow> bool option" where
  "getenvBool getenv key = (let raw = trim_space (getenv key) in if raw = [] then None else parse_bool raw)"

definition ObjectiveAndUnitForProgress :: "optimization_config option \<Rightarrow> string \<times> string" where
  "ObjectiveAndUnitForProgress oopt =
     (case oopt of None \<Rightarrow> (''p95_latency'', ''ms'') | Some opt \<Rightarrow>
        if oc_Online opt
        then let o0 = trim_space (to_lower (oc_OptimizationTargetPrimary opt)); obj = (if o0 = [] then ''p95_latency'' else o0)
             in (obj, if obj = ''cpu_utilization'' \<or> obj = ''memory_utilization'' then ''ratio'' else ''ms'')
        else let r0 = trim_space (to_lower (oc_Objective opt)); raw = (if r0 = [] then ''p95_latency_ms'' else r0)
             in if raw = ''p95_latency_ms'' then (''p95_latency'', ''ms'')
                else if raw = ''p99_latency_ms'' then (''p99_latency'', ''ms'')
                else if raw = ''mean_latency_ms'' then (''mean_latency'', ''ms'')
                else if raw = ''cpu_utilization'' \<or> raw = ''memory_utilization'' \<or> raw = ''error_rate'' then (raw, ''ratio'')
                else if raw = ''throughput_rps'' then (raw, ''rps'')
                else (raw, ''ms''))"

subsection \<open>What the limits guarantee\<close>

lemma interval_count_bounds: "1 \<le> lo \<Longrightarrow> lo \<le> max_int32 \<Longrightarrow> lo \<le> interval_count lo d i \<and> interval_count lo d i \<le> max_int32"
  by (simp add: interval_count_def Let_def)

lemma ms_of_le: "0 \<le> d \<Longrightarrow> ms_of d * 1000000 \<le> d"
  by (cases "d = 0") (auto simp: ms_of_def go_div_def)

lemma ms_of_pos: "1000000 \<le> d \<Longrightarrow> 0 < ms_of d"
  by (auto simp: ms_of_def go_div_def pos_imp_zdiv_pos_iff)

text \<open>The interval, duration, steps and idle intervals of the prepared configuration, for limits of at least a millisecond.\<close>

lemma online_interval_pos: "0 < online_interval opt"
  by (simp add: online_interval_def)

lemma online_duration_pos:
  assumes "\<not> oc_AllowUnboundedOnline opt" "0 \<le> oc_MaxOnlineDurationMs opt" "1000000 \<le> ol_DefaultMaxOnlineDuration limits"
    "ol_ServerMaxOnlineDuration limits \<le> 0 \<or> 1000000 \<le> ol_ServerMaxOnlineDuration limits"
  shows "0 < online_duration limits opt"
  using assms ms_of_pos by (auto simp: online_duration_def Let_def)

lemma online_duration_cap:
  "0 < ol_ServerMaxOnlineDuration limits \<Longrightarrow> online_duration limits opt \<le> max 0 (ms_of (ol_ServerMaxOnlineDuration limits))"
  by (auto simp: online_duration_def Let_def)

lemma online_steps_cap:
  "0 < ol_ServerMaxControllerSteps limits \<Longrightarrow> online_steps limits opt \<le> ol_ServerMaxControllerSteps limits"
  by (auto simp: online_steps_def Let_def)

lemma online_steps_pos:
  "0 < online_duration limits opt \<Longrightarrow> 0 \<le> oc_MaxControllerSteps opt \<Longrightarrow> 1 \<le> online_steps limits opt"
  using interval_count_bounds [of 1 "online_duration limits opt" "online_interval opt"]
  by (auto simp: online_steps_def Let_def max_int32_def)

lemma online_noop_set: "online_noop limits opt \<noteq> 0"
  using interval_count_bounds [of 20 60000 "online_interval opt"] by (auto simp: online_noop_def max_int32_def)

lemma prepare_online_eq:
  assumes "prepare_online limits opt = Inr opt'"
  shows "oc_ControlIntervalMs opt' = online_interval opt" "oc_MaxOnlineDurationMs opt' = online_duration limits opt"
    "oc_MaxControllerSteps opt' = online_steps limits opt" "oc_MaxNoopIntervals opt' = online_noop limits opt"
    "oc_Online opt' = oc_Online opt" "oc_AllowUnboundedOnline opt' = oc_AllowUnboundedOnline opt" "oc_LeaseTtlMs opt' = oc_LeaseTtlMs opt"
    "\<not> oc_AllowUnboundedOnline opt \<and> ms_of (ol_HeartbeatRequiredAfterDuration limits) < online_duration limits opt \<Longrightarrow> 0 < oc_LeaseTtlMs opt"
  using assms by (auto simp: prepare_online_def split: if_splits)

lemma prepare_online_idem:
  assumes p: "prepare_online limits opt = Inr opt'" and "0 \<le> oc_MaxOnlineDurationMs opt" "1000000 \<le> ol_DefaultMaxOnlineDuration limits"
    "ol_ServerMaxOnlineDuration limits \<le> 0 \<or> 1000000 \<le> ol_ServerMaxOnlineDuration limits"
  shows "prepare_online limits opt' = Inr opt'"
proof -
  note e = prepare_online_eq [OF p]
  have i: "online_interval opt' = online_interval opt" using e(1) online_interval_pos [of opt] by (simp add: online_interval_def)
  have d: "online_duration limits opt' = online_duration limits opt"
    using online_duration_pos [of opt limits] online_duration_cap [of limits opt] assms(2-4) e(2,6)
    unfolding online_duration_def [of limits opt'] e(2,6) Let_def by (auto simp: max_def split: if_splits)
  have s: "online_steps limits opt' = online_steps limits opt"
    using online_steps_cap [of limits opt] e(3) i d online_steps_pos [of limits opt]
    by (cases "oc_MaxControllerSteps opt = 0 \<and> 0 < online_duration limits opt") (auto simp: online_steps_def Let_def)
  have n: "online_noop limits opt' = online_noop limits opt" using online_noop_set [of limits opt] e(4) by (simp add: online_noop_def)
  have o: "opt' = opt\<lparr>oc_ControlIntervalMs := online_interval opt, oc_MaxOnlineDurationMs := online_duration limits opt,
      oc_MaxControllerSteps := online_steps limits opt, oc_MaxNoopIntervals := online_noop limits opt\<rparr>" (is "_ = ?o")
    using p unfolding prepare_online_def by (simp split: if_splits)
  have "opt'\<lparr>oc_ControlIntervalMs := online_interval opt, oc_MaxOnlineDurationMs := online_duration limits opt,
      oc_MaxControllerSteps := online_steps limits opt, oc_MaxNoopIntervals := online_noop limits opt\<rparr> = opt'"
    unfolding o by simp
  then show ?thesis using e(6-8) unfolding prepare_online_def i d s n by auto
qed


definition demo_online :: "int \<Rightarrow> optimization_config" where
  "demo_online dur = \<lparr>oc_Objective = [], oc_MaxIterations = 0, oc_StepSize = 0, oc_EvaluationDurationMs = 0, oc_Online = True,
     oc_TargetP95LatencyMs = 100, oc_ControlIntervalMs = 0, oc_MinHosts = 0, oc_MaxHosts = 0, oc_ScaleDownCpuUtilMax = 0,
     oc_ScaleDownMemUtilMax = 0, oc_OptimizationTargetPrimary = [], oc_TargetUtilHigh = 0, oc_TargetUtilLow = 0,
     oc_ScaleDownHostCpuUtilMax = 0, oc_MaxEvaluations = 0, oc_MinReplicasPerService = 0, oc_MinCpuCoresPerInstance = 0,
     oc_MinMemoryMbPerInstance = 0, oc_ScaleDownStabilizationWindowMs = 0, oc_ScaleDownCooldownMs = 0, oc_DrainTimeoutMs = 0,
     oc_MemoryDownsizeHeadroomMb = 0, oc_ScaleDownHostMemUtilMax = 0, oc_MaxControllerSteps = 0, oc_MaxOnlineDurationMs = dur,
     oc_AllowUnboundedOnline = False, oc_MaxNoopIntervals = 0, oc_LeaseTtlMs = 0, oc_Batch = None, oc_MinLocalityHitRate = 0,
     oc_MaxCrossZoneRequestFraction = 0, oc_MaxTopologyLatencyPenaltyMeanMs = 0\<rparr>"

definition demo_input :: "int \<Rightarrow> run_input" where
  "demo_input dur = \<lparr>ri_ScenarioYaml = [], ri_ConfigYaml = [], ri_DurationMs = 0, ri_Seed = 0, ri_RealTimeMode = False,
     ri_Optimization = Some (demo_online dur), ri_CallbackUrl = [], ri_CallbackSecret = []\<rparr>"


text \<open>A negative duration is neither replaced by the default nor capped, and no step limit is derived from it: the run is
  prepared without any limit although the client did not ask for an unbounded run.\<close>

lemma negative_duration_unlimited:
  "\<exists>opt. prepare_online DefaultOnlineRunLimits (demo_online (- 1)) = Inr opt \<and> oc_MaxOnlineDurationMs opt = - 1 \<and>
     oc_MaxControllerSteps opt = 0"
proof -
  have d: "online_duration DefaultOnlineRunLimits (demo_online (- 1)) = - 1"
    by (simp add: online_duration_def demo_online_def DefaultOnlineRunLimits_def ms_of_def go_div_def)
  have s: "online_steps DefaultOnlineRunLimits (demo_online (- 1)) = 0"
    unfolding online_steps_def d by (simp add: demo_online_def DefaultOnlineRunLimits_def)
  show ?thesis unfolding prepare_online_def d s by (simp add: DefaultOnlineRunLimits_def ms_of_def go_div_def)
qed

end
