(* ===== verification/Run_Store.thy ===== *)
theory Run_Store
  imports Run_Limits
begin

text \<open>
  The store of the runs, \<open>internal/simd/runstore.go\<close>: creation, status changes, results and retention. Protocol messages are
  values, so the copies the source makes of them are the values themselves. The clock, the generated identifier and the YAML
  parser are arguments; \<open>'c\<close> stands for the metrics collector a record refers to and \<open>'f\<close> for a run configuration.
  A \<open>range\<close> over the map visits it in the order of the list, which is arbitrary; as the lists that are sorted afterwards
  come from such a loop, a stable sort yields every order the library's sort can yield.
\<close>

record ('c, 'f) run_record =
  rr_Run :: proto_run
  rr_Input :: "run_input option"
  rr_Metrics :: "run_metrics_pb option"
  rr_Collector :: "'c option"
  rr_IsOptimizationChild :: bool
  rr_OptimizationHistory :: "'f optimization_step_pb list"
  rr_FinalConfig :: "'f option"

record lifecycle_config =
  lc_TTL :: duration
  lc_CleanupInterval :: duration
  lc_MaxTerminalRuns :: int
  lc_MaxOptimizationCandidates :: int
  lc_KeepCollectorAfterCompletion :: bool
  lc_KeepCandidateInputAfterCleanup :: bool

definition defaultRunStoreLifecycleConfig :: lifecycle_config where
  "defaultRunStoreLifecycleConfig = \<lparr>lc_TTL = 30 * 60 * 1000000000, lc_CleanupInterval = 60 * 1000000000, lc_MaxTerminalRuns = 500,
     lc_MaxOptimizationCandidates = 200, lc_KeepCollectorAfterCompletion = False, lc_KeepCandidateInputAfterCleanup = False\<rparr>"

definition parseRunStoreIntEnv :: "environment \<Rightarrow> string \<Rightarrow> int option" where
  "parseRunStoreIntEnv getenv key = (let v = trim_space (getenv key) in if v = [] then None else atoi v)"

definition parseRunStoreBoolEnv :: "environment \<Rightarrow> string \<Rightarrow> bool option" where
  "parseRunStoreBoolEnv getenv key = (let v = trim_space (getenv key) in if v = [] then None else parse_bool v)"

record ('c, 'f) run_store =
  rs_runs :: "(string, ('c, 'f) run_record) gomap"
  rs_onlineLimits :: online_run_limits
  rs_lifecycle :: lifecycle_config

record run_store_counts =
  rsc_Active :: nat
  rsc_CompletedRetained :: nat
  rsc_FailedRetained :: nat
  rsc_CancelledRetained :: nat
  rsc_OptimizationCandidates :: nat

definition NewRunStore :: "lifecycle_config \<Rightarrow> ('c, 'f) run_store" where
  "NewRunStore lc = \<lparr>rs_runs = [], rs_onlineLimits = DefaultOnlineRunLimits, rs_lifecycle = lc\<rparr>"

abbreviation status_of :: "('c, 'f) run_record \<Rightarrow> proto_run_status" where
  "status_of rec \<equiv> xr_Status (rr_Run rec)"

definition count_runs :: "(('c, 'f) run_record \<Rightarrow> bool) \<Rightarrow> ('c, 'f) run_store \<Rightarrow> nat" where
  "count_runs P s = length (filter (\<lambda>kr. P (snd kr)) (rs_runs s))"

definition Counts :: "('c, 'f) run_store \<Rightarrow> run_store_counts" where
  "Counts s = \<lparr>rsc_Active = count_runs (\<lambda>r. status_of r = RUN_STATUS_RUNNING \<or> status_of r = RUN_STATUS_PENDING) s,
     rsc_CompletedRetained = count_runs (\<lambda>r. status_of r = RUN_STATUS_COMPLETED) s,
     rsc_FailedRetained = count_runs (\<lambda>r. status_of r = RUN_STATUS_FAILED) s,
     rsc_CancelledRetained = count_runs (\<lambda>r. status_of r = RUN_STATUS_CANCELLED \<or> status_of r = RUN_STATUS_STOPPED) s,
     rsc_OptimizationCandidates = count_runs rr_IsOptimizationChild s\<rparr>"

definition SetOnlineLimits :: "online_run_limits \<Rightarrow> ('c, 'f) run_store \<Rightarrow> ('c, 'f) run_store" where
  "SetOnlineLimits l s = s\<lparr>rs_onlineLimits := l\<rparr>"

definition online_input :: "run_input option \<Rightarrow> bool" where
  "online_input oi = (case oi of None \<Rightarrow> False | Some i \<Rightarrow> (case ri_Optimization i of None \<Rightarrow> False | Some opt \<Rightarrow> oc_Online opt))"

definition running_online :: "('c, 'f) run_record \<Rightarrow> bool" where
  "running_online rec \<longleftrightarrow> status_of rec = RUN_STATUS_RUNNING \<and> online_input (rr_Input rec)"

definition CountRunningOnline :: "('c, 'f) run_store \<Rightarrow> nat" where
  "CountRunningOnline s = count_runs running_online s"

definition validateBatchOptimizationInput :: "(string \<Rightarrow> go_error + scenario) \<Rightarrow> run_input option \<Rightarrow> go_error + unit" where
  "validateBatchOptimizationInput parse oinput =
     (case oinput of None \<Rightarrow> Inr () | Some input \<Rightarrow>
        (case ri_Optimization input of None \<Rightarrow> Inr () | Some opt \<Rightarrow>
           (case oc_Batch opt of None \<Rightarrow> Inr () | Some b \<Rightarrow>
              if oc_Online opt then Inl (Err ''batch optimization cannot be used with online=true'')
              else case parse (ri_ScenarioYaml input) of Inl _ \<Rightarrow> Inl (Err ''batch optimization: invalid scenario yaml: %w'')
                   | Inr scenario \<Rightarrow> (case ParseBatchSpec (Some b) (Some scenario) of
                       Inl _ \<Rightarrow> Inl (Err ''batch optimization: %w'') | Inr _ \<Rightarrow> Inr ()))))"

definition new_run :: "string \<Rightarrow> int \<Rightarrow> proto_run" where
  "new_run runID now = \<lparr>xr_Id = runID, xr_Status = RUN_STATUS_PENDING, xr_CreatedAtUnixMs = now, xr_StartedAtUnixMs = 0,
     xr_EndedAtUnixMs = 0, xr_Error = [], xr_BestRunId = [], xr_BestScore = 0, xr_Iterations = 0, xr_CandidateRunIds = [],
     xr_OnlineCompletionReason = [], xr_BatchRecommendationFeasible = False, xr_BatchViolationScore = 0, xr_BatchEfficiencyScore = 0,
     xr_BatchRecommendationSummary = []\<rparr>"

definition rs_Create ::
  "(string \<Rightarrow> go_error + scenario) \<Rightarrow> string \<Rightarrow> int \<Rightarrow> string \<Rightarrow> run_input option \<Rightarrow> ('c, 'f) run_store \<Rightarrow>
   (go_error + ('c, 'f) run_record) \<times> ('c, 'f) run_store" where
  "rs_Create parse generated now runID0 input s =
     (let runID = (if runID0 = [] then generated else runID0)
      in case validateBatchOptimizationInput parse input of Inl e \<Rightarrow> (Inl e, s) | Inr _ \<Rightarrow>
           if CHR '':'' \<in> set runID \<or> CHR ''/'' \<in> set runID
           then (Inl (Err ''run ID cannot contain ':' or '/' characters: %s''), s)
           else if gm_get (rs_runs s) runID \<noteq> None then (Inl (Err ''run already exists: %s''), s)
           else case PrepareOnlineRunInput input (rs_onlineLimits s) of Inl e \<Rightarrow> (Inl e, s) | Inr prepared \<Rightarrow>
             let rec = \<lparr>rr_Run = new_run runID now, rr_Input = prepared, rr_Metrics = None, rr_Collector = None,
                   rr_IsOptimizationChild = has_prefix runID ''opt-'', rr_OptimizationHistory = [], rr_FinalConfig = None\<rparr>
             in (Inr rec, s\<lparr>rs_runs := gm_put runID rec (rs_runs s)\<rparr>))"

definition rs_Get :: "string \<Rightarrow> ('c, 'f) run_store \<Rightarrow> ('c, 'f) run_record option" where
  "rs_Get runID s = gm_get (rs_runs s) runID"

definition sortRunRecords :: "('c, 'f) run_record list \<Rightarrow> ('c, 'f) run_record list" where
  "sortRunRecords = sort_key (\<lambda>r. - xr_CreatedAtUnixMs (rr_Run r))"

definition ListFiltered :: "int \<Rightarrow> int \<Rightarrow> proto_run_status \<Rightarrow> ('c, 'f) run_store \<Rightarrow> ('c, 'f) run_record list" where
  "ListFiltered limit0 offset0 status s =
     (let limit = (if limit0 \<le> 0 then 50 else limit0); start = (if offset0 < 0 then 0 else offset0);
          allRuns = sortRunRecords (map snd (filter (\<lambda>(k, r). status = RUN_STATUS_UNSPECIFIED \<or> status_of r = status) (rs_runs s)));
          n = int (length allRuns)
      in if start > n then []
         else let end0 = wrap64 (start + limit); end1 = (if end0 > n then n else end0)
              in if start \<ge> end1 then [] else take (nat (end1 - start)) (drop (nat start) allRuns))"

definition rs_List :: "int \<Rightarrow> ('c, 'f) run_store \<Rightarrow> ('c, 'f) run_record list" where
  "rs_List limit s = ListFiltered limit 0 RUN_STATUS_UNSPECIFIED s"

subsection \<open>Status changes\<close>

definition isTerminalStatus :: "proto_run_status \<Rightarrow> bool" where
  "isTerminalStatus status =
     (case status of RUN_STATUS_COMPLETED \<Rightarrow> True | RUN_STATUS_FAILED \<Rightarrow> True | RUN_STATUS_CANCELLED \<Rightarrow> True
      | RUN_STATUS_STOPPED \<Rightarrow> True | _ \<Rightarrow> False)"

definition finalizeRunStorage :: "lifecycle_config \<Rightarrow> ('c, 'f) run_record \<Rightarrow> ('c, 'f) run_record" where
  "finalizeRunStorage lc rec =
     (let rec1 = (if \<not> lc_KeepCollectorAfterCompletion lc then rec\<lparr>rr_Collector := None\<rparr> else rec)
      in if rr_IsOptimizationChild rec1 \<and> \<not> lc_KeepCandidateInputAfterCleanup lc
         then rec1\<lparr>rr_Input := None, rr_OptimizationHistory := [], rr_FinalConfig := None\<rparr> else rec1)"

definition started :: "int \<Rightarrow> proto_run \<Rightarrow> proto_run" where
  "started now r = r\<lparr>xr_Status := RUN_STATUS_RUNNING, xr_StartedAtUnixMs := (if xr_StartedAtUnixMs r = 0 then now else xr_StartedAtUnixMs r)\<rparr>"

definition put_run :: "string \<Rightarrow> ('c, 'f) run_record \<Rightarrow> ('c, 'f) run_store \<Rightarrow> ('c, 'f) run_store" where
  "put_run runID rec s = s\<lparr>rs_runs := gm_put runID rec (rs_runs s)\<rparr>"

definition SetStatusRunningWithOnlineConcurrencyGuard ::
  "int \<Rightarrow> string \<Rightarrow> ('c, 'f) run_store \<Rightarrow> (go_error + ('c, 'f) run_record) \<times> ('c, 'f) run_store" where
  "SetStatusRunningWithOnlineConcurrencyGuard now runID s =
     (case gm_get (rs_runs s) runID of None \<Rightarrow> (Inl (Err ''run not found''), s) | Some rec \<Rightarrow>
        if status_of rec = RUN_STATUS_RUNNING then (Inr rec, s)
        else if isTerminalStatus (status_of rec) then (Inl (Err ''run is terminal''), s)
        else let cap = ol_MaxConcurrentOnlineRuns (rs_onlineLimits s)
             in if online_input (rr_Input rec) \<and> cap > 0 \<and> int (CountRunningOnline s) \<ge> cap
                then (Inl (Err ''online run concurrency limit''), s)
                else let rec' = rec\<lparr>rr_Run := started now (rr_Run rec)\<rparr> in (Inr rec', put_run runID rec' s))"

definition SetStatus ::
  "int \<Rightarrow> string \<Rightarrow> proto_run_status \<Rightarrow> string \<Rightarrow> ('c, 'f) run_store \<Rightarrow> (go_error + ('c, 'f) run_record) \<times> ('c, 'f) run_store" where
  "SetStatus now runID status errMsg s =
     (case gm_get (rs_runs s) runID of None \<Rightarrow> (Inl (Err ''run not found: %s''), s) | Some rec \<Rightarrow>
        let run1 = (rr_Run rec)\<lparr>xr_Status := status\<rparr>;
            run2 = (if errMsg \<noteq> [] then run1\<lparr>xr_Error := errMsg\<rparr> else run1);
            rec' = (if status = RUN_STATUS_RUNNING then rec\<lparr>rr_Run := started now run2\<rparr>
                    else if isTerminalStatus status
                    then finalizeRunStorage (rs_lifecycle s) (rec\<lparr>rr_Run := run2\<lparr>xr_EndedAtUnixMs := now\<rparr>\<rparr>)
                    else rec\<lparr>rr_Run := run2\<rparr>)
        in (Inr rec', put_run runID rec' s))"

subsection \<open>Results and history\<close>

definition update_run ::
  "string \<Rightarrow> (('c, 'f) run_record \<Rightarrow> ('c, 'f) run_record) \<Rightarrow> ('c, 'f) run_store \<Rightarrow> (go_error + unit) \<times> ('c, 'f) run_store" where
  "update_run runID g s =
     (case gm_get (rs_runs s) runID of None \<Rightarrow> (Inl (Err ''run not found: %s''), s) | Some rec \<Rightarrow> (Inr (), put_run runID (g rec) s))"

definition SetOnlineCompletionReason :: "string \<Rightarrow> string \<Rightarrow> ('c, 'f) run_store \<Rightarrow> (go_error + unit) \<times> ('c, 'f) run_store" where
  "SetOnlineCompletionReason runID reason =
     update_run runID (\<lambda>rec. rec\<lparr>rr_Run := (rr_Run rec)\<lparr>xr_OnlineCompletionReason := reason\<rparr>\<rparr>)"

definition SetMetrics :: "string \<Rightarrow> run_metrics_pb option \<Rightarrow> ('c, 'f) run_store \<Rightarrow> (go_error + unit) \<times> ('c, 'f) run_store" where
  "SetMetrics runID m = update_run runID (\<lambda>rec. rec\<lparr>rr_Metrics := m\<rparr>)"

definition SetFinalConfiguration :: "string \<Rightarrow> 'f option \<Rightarrow> ('c, 'f) run_store \<Rightarrow> (go_error + unit) \<times> ('c, 'f) run_store" where
  "SetFinalConfiguration runID cfg = update_run runID (\<lambda>rec. rec\<lparr>rr_FinalConfig := cfg\<rparr>)"

definition SetBatchRecommendation ::
  "string \<Rightarrow> bool \<Rightarrow> float64 \<Rightarrow> float64 \<Rightarrow> string \<Rightarrow> ('c, 'f) run_store \<Rightarrow> (go_error + unit) \<times> ('c, 'f) run_store" where
  "SetBatchRecommendation runID feasible violation efficiency summary =
     update_run runID (\<lambda>rec. rec\<lparr>rr_Run := (rr_Run rec)\<lparr>xr_BatchRecommendationFeasible := feasible,
       xr_BatchViolationScore := violation, xr_BatchEfficiencyScore := efficiency, xr_BatchRecommendationSummary := summary\<rparr>\<rparr>)"

definition SetOptimizationResult ::
  "string \<Rightarrow> string \<Rightarrow> float64 \<Rightarrow> int \<Rightarrow> string list \<Rightarrow> ('c, 'f) run_store \<Rightarrow> (go_error + unit) \<times> ('c, 'f) run_store" where
  "SetOptimizationResult runID best score iters cands s =
     (let cap = lc_MaxOptimizationCandidates (rs_lifecycle s);
          kept = (if cap > 0 \<and> int (length cands) > cap then take (nat cap) cands else cands)
      in update_run runID (\<lambda>rec. rec\<lparr>rr_Run := (rr_Run rec)\<lparr>xr_BestRunId := best, xr_BestScore := score, xr_Iterations := iters,
           xr_CandidateRunIds := kept\<rparr>\<rparr>) s)"

definition SetOptimizationProgress :: "string \<Rightarrow> int \<Rightarrow> float64 \<Rightarrow> ('c, 'f) run_store \<Rightarrow> ('c, 'f) run_store" where
  "SetOptimizationProgress runID it score s =
     snd (update_run runID (\<lambda>rec. rec\<lparr>rr_Run := (rr_Run rec)\<lparr>xr_Iterations := it, xr_BestScore := score\<rparr>\<rparr>) s)"

definition SetCollector :: "string \<Rightarrow> 'c option \<Rightarrow> ('c, 'f) run_store \<Rightarrow> (go_error + unit) \<times> ('c, 'f) run_store" where
  "SetCollector runID c = update_run runID (\<lambda>rec. rec\<lparr>rr_Collector := c\<rparr>)"

definition GetCollector :: "string \<Rightarrow> ('c, 'f) run_store \<Rightarrow> 'c option" where
  "GetCollector runID s = (case gm_get (rs_runs s) runID of None \<Rightarrow> None | Some rec \<Rightarrow> rr_Collector rec)"

definition AppendOptimizationStep ::
  "string \<Rightarrow> 'f optimization_step_pb option \<Rightarrow> ('c, 'f) run_store \<Rightarrow> (go_error + unit) \<times> ('c, 'f) run_store" where
  "AppendOptimizationStep runID ostep s =
     (case ostep of None \<Rightarrow> (Inr (), s)
      | Some st \<Rightarrow> update_run runID (\<lambda>rec. rec\<lparr>rr_OptimizationHistory := rr_OptimizationHistory rec @ [st]\<rparr>) s)"

definition OptimizationHistoryCount :: "string \<Rightarrow> ('c, 'f) run_store \<Rightarrow> nat" where
  "OptimizationHistoryCount runID s = (case gm_get (rs_runs s) runID of None \<Rightarrow> 0 | Some rec \<Rightarrow> length (rr_OptimizationHistory rec))"

subsection \<open>Retention\<close>

definition kept_candidates :: "int \<Rightarrow> string \<Rightarrow> string list \<Rightarrow> string list" where
  "kept_candidates limit best ids =
     (if best \<noteq> [] then [best] else []) @
     map snd (filter (\<lambda>(i, id). id \<noteq> [] \<and> \<not> (limit > 0 \<and> int i \<ge> limit)) (enumerate 0 ids))"

definition TrimOptimizationCandidates :: "string \<Rightarrow> string \<Rightarrow> ('c, 'f) run_store \<Rightarrow> ('c, 'f) run_store" where
  "TrimOptimizationCandidates parentID best s =
     (case gm_get (rs_runs s) parentID of None \<Rightarrow> s | Some parent \<Rightarrow>
        let keep = kept_candidates (lc_MaxOptimizationCandidates (rs_lifecycle s)) best (xr_CandidateRunIds (rr_Run parent));
            spared = (\<lambda>rec. \<not> rr_IsOptimizationChild rec \<or> \<not> isTerminalStatus (status_of rec))
        in s\<lparr>rs_runs := map (\<lambda>(id, rec). (id, if spared rec then rec else finalizeRunStorage (rs_lifecycle s) rec))
               (filter (\<lambda>(id, rec). spared rec \<or> id \<in> set keep) (rs_runs s))\<rparr>)"

definition ended_at :: "('c, 'f) run_record \<Rightarrow> int" where
  "ended_at rec = (if xr_EndedAtUnixMs (rr_Run rec) = 0 then xr_CreatedAtUnixMs (rr_Run rec) else xr_EndedAtUnixMs (rr_Run rec))"

definition expired :: "int \<Rightarrow> lifecycle_config \<Rightarrow> ('c, 'f) run_record \<Rightarrow> bool" where
  "expired now lc rec \<longleftrightarrow> isTerminalStatus (status_of rec) \<and> lc_TTL lc > 0 \<and> now - ended_at rec \<ge> ms_of (lc_TTL lc)"

definition eviction_key :: "string \<times> ('c, 'f) run_record \<Rightarrow> int \<times> int" where
  "eviction_key = (\<lambda>(k, rec). (if rr_IsOptimizationChild rec then 0 else 1, ended_at rec))"

definition eviction_order :: "(string \<times> ('c, 'f) run_record) list \<Rightarrow> (string \<times> ('c, 'f) run_record) list" where
  "eviction_order = sort_key eviction_key"

text \<open>The loop over the runs finalizes the terminal ones and deletes the expired ones; then the excess is evicted.\<close>

definition drop_expired :: "int \<Rightarrow> ('c, 'f) run_store \<Rightarrow> ('c, 'f) run_store" where
  "drop_expired now s =
     s\<lparr>rs_runs := map (\<lambda>(k, rec). (k, if isTerminalStatus (status_of rec) then finalizeRunStorage (rs_lifecycle s) rec else rec))
                   (filter (\<lambda>(k, rec). \<not> expired now (rs_lifecycle s) rec) (rs_runs s))\<rparr>"

definition terminal_runs :: "('c, 'f) run_store \<Rightarrow> (string \<times> ('c, 'f) run_record) list" where
  "terminal_runs s = filter (\<lambda>(k, rec). isTerminalStatus (status_of rec)) (rs_runs s)"

definition evicted_ids :: "('c, 'f) run_store \<Rightarrow> string list" where
  "evicted_ids s =
     (let cap = lc_MaxTerminalRuns (rs_lifecycle s); terminal = terminal_runs s
      in if cap \<le> 0 \<or> int (length terminal) \<le> cap then []
         else map fst (take (length terminal - nat cap) (eviction_order terminal)))"

definition CleanupNow :: "int \<Rightarrow> ('c, 'f) run_store \<Rightarrow> ('c, 'f) run_store" where
  "CleanupNow now s =
     (let s1 = drop_expired now s in s1\<lparr>rs_runs := filter (\<lambda>(k, rec). k \<notin> set (evicted_ids s1)) (rs_runs s1)\<rparr>)"

subsection \<open>Steps of the store\<close>

text \<open>Every operation that changes the store. Outside the tests a status is set to a terminal one only; runs start through the
  guarded operation.\<close>

inductive rs_step :: "('c, 'f) run_store \<Rightarrow> ('c, 'f) run_store \<Rightarrow> bool" where
  create: "rs_step s (snd (rs_Create parse generated now runID input s))"
| start: "rs_step s (snd (SetStatusRunningWithOnlineConcurrencyGuard now runID s))"
| finish: "isTerminalStatus status \<Longrightarrow> rs_step s (snd (SetStatus now runID status msg s))"
| reason: "rs_step s (snd (SetOnlineCompletionReason runID txt s))"
| metrics: "rs_step s (snd (SetMetrics runID m s))"
| config: "rs_step s (snd (SetFinalConfiguration runID cfg s))"
| recommend: "rs_step s (snd (SetBatchRecommendation runID feasible v e txt s))"
| result: "rs_step s (snd (SetOptimizationResult runID best score it cands s))"
| progress: "rs_step s (SetOptimizationProgress runID it score s)"
| collector: "rs_step s (snd (SetCollector runID c s))"
| append: "rs_step s (snd (AppendOptimizationStep runID st s))"
| trim: "rs_step s (TrimOptimizationCandidates runID best s)"
| cleanup: "rs_step s (CleanupNow now s)"

text \<open>How far a run has got: not started, running, ended.\<close>

definition stage :: "proto_run_status \<Rightarrow> nat" where
  "stage st = (if isTerminalStatus st then 2 else if st = RUN_STATUS_RUNNING then 1 else 0)"

text \<open>One record after another under the same identifier: the run is the same, has not gone back, and becomes an online
  running one only by a start.\<close>

definition evolves :: "('c, 'f) run_record \<Rightarrow> ('c, 'f) run_record \<Rightarrow> bool" where
  "evolves rec rec' \<longleftrightarrow> xr_Id (rr_Run rec') = xr_Id (rr_Run rec) \<and> xr_CreatedAtUnixMs (rr_Run rec') = xr_CreatedAtUnixMs (rr_Run rec) \<and>
     stage (status_of rec) \<le> stage (status_of rec') \<and> (running_online rec' \<longrightarrow> running_online rec)"

lemma evolves_refl [simp]: "evolves rec rec"
  by (simp add: evolves_def)

lemma terminal_not_running [simp]: "isTerminalStatus st \<Longrightarrow> st \<noteq> RUN_STATUS_RUNNING" "isTerminalStatus st \<Longrightarrow> stage st = 2" "stage st \<le> 2"
  by (auto simp: isTerminalStatus_def stage_def)

lemma finalize_run [simp]: "rr_Run (finalizeRunStorage lc rec) = rr_Run rec"
  by (simp add: finalizeRunStorage_def Let_def)

lemma finalize_evolves [simp]: "isTerminalStatus (status_of rec) \<Longrightarrow> evolves rec (finalizeRunStorage lc rec)"
  by (simp add: evolves_def running_online_def)

definition store_inv :: "('c, 'f) run_store \<Rightarrow> bool" where
  "store_inv s \<longleftrightarrow> gm_ok (rs_runs s) \<and> (\<forall>id rec. rs_Get id s = Some rec \<longrightarrow> xr_Id (rr_Run rec) = id) \<and>
     (0 < ol_MaxConcurrentOnlineRuns (rs_onlineLimits s) \<longrightarrow>
        int (CountRunningOnline s) \<le> ol_MaxConcurrentOnlineRuns (rs_onlineLimits s))"

text \<open>Replacing records by records that evolve from them, and dropping some, keeps the invariant.\<close>

definition shrinks :: "('c, 'f) run_store \<Rightarrow> ('c, 'f) run_store \<Rightarrow> bool" where
  "shrinks s s' \<longleftrightarrow> rs_onlineLimits s' = rs_onlineLimits s \<and> rs_lifecycle s' = rs_lifecycle s \<and> gm_ok (rs_runs s') \<and>
     (\<forall>id rec'. rs_Get id s' = Some rec' \<longrightarrow> (\<exists>rec. rs_Get id s = Some rec \<and> evolves rec rec')) \<and>
     CountRunningOnline s' \<le> CountRunningOnline s"

lemma shrinks_inv: "store_inv s \<Longrightarrow> shrinks s s' \<Longrightarrow> store_inv s'"
  unfolding store_inv_def shrinks_def evolves_def by (fastforce simp: order_trans)

lemma shrinks_refl [simp]: "store_inv s \<Longrightarrow> shrinks s s"
  by (simp add: shrinks_def store_inv_def)

lemma length_filter_less: "length (filter P (filter Q xs)) \<le> length (filter P xs)"
  by (induction xs) auto

lemma gm_ok_map_filter:
  assumes "gm_ok m"
  shows "gm_ok (map (\<lambda>(k, v). (k, f v)) (filter Q m))"
proof -
  have "map (fst \<circ> (\<lambda>(k, v). (k, f v))) (filter Q m) = map fst (filter Q m)" by (intro map_cong) auto
  then show ?thesis using assms distinct_map_filter [of fst m Q] unfolding map_map by (simp only:)
qed

lemma gm_get_map_filter:
  "gm_ok m \<Longrightarrow> gm_get (map (\<lambda>(k, v). (k, f v)) (filter (\<lambda>(k, v). Q k v) m)) k =
     (case gm_get m k of None \<Rightarrow> None | Some v \<Rightarrow> if Q k v then Some (f v) else None)"
proof (induction m)
  case (Cons kv m)
  obtain a b where kv: "kv = (a, b)" by fastforce
  have "gm_get m a = None" using Cons.prems kv by (simp add: gm_get_None_iff)
  then show ?case using Cons kv by (cases "k = a") (auto split: option.splits)
qed simp

lemma map_filter_shrinks:
  assumes "store_inv s" "\<And>id rec. Q id rec \<Longrightarrow> rs_Get id s = Some rec \<Longrightarrow> evolves rec (f rec)"
  shows "shrinks s (s\<lparr>rs_runs := map (\<lambda>(k, v). (k, f v)) (filter (\<lambda>(k, v). Q k v) (rs_runs s))\<rparr>)"
proof -
  have ok: "gm_ok (rs_runs s)" using assms(1) by (simp add: store_inv_def)
  have ev: "evolves v (f v)" if "(k, v) \<in> set (filter (\<lambda>(k, v). Q k v) (rs_runs s))" for k v
    using that assms(2) [of k v] ok by (simp add: rs_Get_def map_of_eq_Some_iff)
  have "length (filter (\<lambda>kr. running_online (snd kr)) (map (\<lambda>(k, v). (k, f v)) xs)) \<le> length (filter (\<lambda>kr. running_online (snd kr)) xs)"
    if "\<forall>(k, v) \<in> set xs. evolves v (f v)" for xs :: "(string \<times> ('a, 'b) run_record) list"
    using that by (induction xs) (auto simp: evolves_def)
  then have "length (filter (\<lambda>kr. running_online (snd kr)) (map (\<lambda>(k, v). (k, f v)) (filter (\<lambda>(k, v). Q k v) (rs_runs s)))) \<le>
      length (filter (\<lambda>kr. running_online (snd kr)) (filter (\<lambda>(k, v). Q k v) (rs_runs s)))"
    using ev by blast
  also have "\<dots> \<le> length (filter (\<lambda>kr. running_online (snd kr)) (rs_runs s))"
    by (rule length_filter_less)
  finally show ?thesis
    using ok assms(2) gm_ok_map_filter [OF ok, of f "\<lambda>(k, v). Q k v"] by (auto simp: shrinks_def rs_Get_def gm_get_map_filter CountRunningOnline_def count_runs_def
      split: option.splits if_splits)
qed

lemma put_evolves:
  assumes "store_inv s" "rs_Get i s = Some rec" "evolves rec rec'"
  shows "shrinks s (put_run i rec' s)"
proof -
  have ok: "gm_ok (rs_runs s)" using assms(1) by (simp add: store_inv_def)
  have "length (filter (\<lambda>kr. running_online (snd kr)) (gm_put i rec' m)) \<le> length (filter (\<lambda>kr. running_online (snd kr)) m)"
    if "gm_get m i = Some rec" for m
    using that assms(3) by (induction m) (auto simp: evolves_def split: if_splits)
  then have "CountRunningOnline (put_run i rec' s) \<le> CountRunningOnline s"
    using assms(2) by (simp add: CountRunningOnline_def count_runs_def put_run_def rs_Get_def)
  then show ?thesis using assms ok by (auto simp: shrinks_def rs_Get_def put_run_def)
qed

lemma update_run_shrinks: "store_inv s \<Longrightarrow> (\<And>rec. evolves rec (g rec)) \<Longrightarrow> shrinks s (snd (update_run i g s))"
  by (auto simp: update_run_def rs_Get_def split: option.splits intro: put_evolves)

lemma SetStatus_shrinks:
  assumes "store_inv s" "isTerminalStatus status"
  shows "shrinks s (snd (SetStatus now i status msg s))"
proof (cases "rs_Get i s")
  case (Some rec)
  define rec' where "rec' = finalizeRunStorage (rs_lifecycle s)
      (rec\<lparr>rr_Run := (if msg \<noteq> [] then (rr_Run rec)\<lparr>xr_Status := status, xr_Error := msg\<rparr> else (rr_Run rec)\<lparr>xr_Status := status\<rparr>)
        \<lparr>xr_EndedAtUnixMs := now\<rparr>\<rparr>)"
  have s: "snd (SetStatus now i status msg s) = put_run i rec' s"
    using Some assms(2) by (simp add: SetStatus_def rs_Get_def Let_def rec'_def)
  have "status_of rec' = status" by (simp add: rec'_def)
  then have "evolves rec rec'" using assms(2) by (auto simp: evolves_def running_online_def rec'_def)
  then show ?thesis unfolding s using put_evolves [OF assms(1) Some] by simp
qed (use assms in \<open>simp add: SetStatus_def rs_Get_def\<close>)

lemma Trim_shrinks: "store_inv s \<Longrightarrow> shrinks s (TrimOptimizationCandidates i best s)"
  unfolding TrimOptimizationCandidates_def Let_def by (auto split: option.splits intro!: map_filter_shrinks)

lemma shrinks_trans: "shrinks s t \<Longrightarrow> shrinks t u \<Longrightarrow> shrinks s u"
  unfolding shrinks_def evolves_def by (fastforce intro: order_trans)

lemma drop_expired_shrinks: "store_inv s \<Longrightarrow> shrinks s (drop_expired now s)"
  unfolding drop_expired_def by (intro map_filter_shrinks) auto

lemma filter_shrinks: "store_inv s \<Longrightarrow> shrinks s (s\<lparr>rs_runs := filter (\<lambda>(k, rec). Q k rec) (rs_runs s)\<rparr>)"
  using map_filter_shrinks [of s Q "\<lambda>v. v"] by simp

lemma Cleanup_shrinks: "store_inv s \<Longrightarrow> shrinks s (CleanupNow now s)"
  unfolding CleanupNow_def Let_def
  by (rule shrinks_trans [OF drop_expired_shrinks filter_shrinks]) (auto intro: shrinks_inv drop_expired_shrinks)

text \<open>A run disappears only after it has ended.\<close>

definition removes_ended :: "('c, 'f) run_store \<Rightarrow> ('c, 'f) run_store \<Rightarrow> bool" where
  "removes_ended s s' \<longleftrightarrow> (\<forall>i rec. rs_Get i s = Some rec \<and> rs_Get i s' = None \<longrightarrow> isTerminalStatus (status_of rec))"

lemma removes_refl [simp]: "removes_ended s s"
  by (auto simp: removes_ended_def)

lemma put_keeps: "removes_ended s (put_run i rec s)"
  by (auto simp: removes_ended_def put_run_def rs_Get_def)

lemma update_run_keeps: "removes_ended s (snd (update_run i g s))"
  by (auto simp: update_run_def put_keeps split: option.splits)

lemma filter_removes:
  assumes "store_inv s" "\<And>k rec. rs_Get k s = Some rec \<Longrightarrow> \<not> Q k rec \<Longrightarrow> isTerminalStatus (status_of rec)"
  shows "removes_ended s (s\<lparr>rs_runs := map (\<lambda>(k, v). (k, f v)) (filter (\<lambda>(k, v). Q k v) (rs_runs s))\<rparr>)"
  using assms unfolding removes_ended_def rs_Get_def store_inv_def
  by (auto simp: gm_get_map_filter split: if_splits)

lemma Trim_removes: "store_inv s \<Longrightarrow> removes_ended s (TrimOptimizationCandidates i best s)"
  unfolding TrimOptimizationCandidates_def Let_def
  by (auto split: option.splits intro!: filter_removes)

lemma set_eviction_order [simp]: "set (eviction_order xs) = set xs" "length (eviction_order xs) = length xs"
  by (simp_all add: eviction_order_def)

lemma evicted_terminal:
  "gm_ok (rs_runs s) \<Longrightarrow> k \<in> set (evicted_ids s) \<Longrightarrow> rs_Get k s = Some rec \<Longrightarrow> isTerminalStatus (status_of rec)"
  by (auto simp: evicted_ids_def Let_def terminal_runs_def rs_Get_def map_of_eq_Some_iff split: if_splits dest!: in_set_takeD)
    (metis eq_key_imp_eq_value)

lemma drop_expired_get:
  assumes "store_inv s"
  shows "rs_Get k (drop_expired now s) = (case rs_Get k s of None \<Rightarrow> None | Some rec \<Rightarrow>
     if expired now (rs_lifecycle s) rec then None
     else Some (if isTerminalStatus (status_of rec) then finalizeRunStorage (rs_lifecycle s) rec else rec))"
proof -
  have "gm_ok (rs_runs s)" using assms by (simp add: store_inv_def)
  note g = gm_get_map_filter [OF this, of "\<lambda>rec. if isTerminalStatus (status_of rec) then finalizeRunStorage (rs_lifecycle s) rec else rec"
    "\<lambda>k rec. \<not> expired now (rs_lifecycle s) rec" k]
  show ?thesis unfolding rs_Get_def drop_expired_def by (simp add: g split: option.splits)
qed

lemma filter_get:
  assumes "gm_ok (rs_runs s)"
  shows "rs_Get k (s\<lparr>rs_runs := filter (\<lambda>(k, rec). Q k) (rs_runs s)\<rparr>) = (if Q k then rs_Get k s else None)"
  using gm_get_map_filter [OF assms, of "\<lambda>v. v" "\<lambda>k rec. Q k" k] by (simp add: rs_Get_def split: option.splits)

lemma Cleanup_get:
  assumes "store_inv s"
  shows "rs_Get k (CleanupNow now s) = (if k \<in> set (evicted_ids (drop_expired now s)) then None else rs_Get k (drop_expired now s))"
proof -
  have "store_inv (drop_expired now s)" using drop_expired_shrinks shrinks_inv assms by blast
  then show ?thesis
    using filter_get [of "drop_expired now s" k "\<lambda>k. k \<notin> set (evicted_ids (drop_expired now s))"]
    by (simp add: CleanupNow_def Let_def store_inv_def)
qed

lemma Cleanup_removes:
  assumes "store_inv s"
  shows "removes_ended s (CleanupNow now s)"
proof -
  have "store_inv (drop_expired now s)" using drop_expired_shrinks shrinks_inv assms by blast
  then have "gm_ok (rs_runs (drop_expired now s))" by (simp add: store_inv_def)
  note e = evicted_terminal [OF this]
  show ?thesis unfolding removes_ended_def Cleanup_get [OF assms]
  proof (intro allI impI, elim conjE)
    fix k rec
    assume r: "rs_Get k s = Some rec" and n: "(if k \<in> set (evicted_ids (drop_expired now s)) then None else rs_Get k (drop_expired now s)) = None"
    show "isTerminalStatus (status_of rec)"
    proof (cases "expired now (rs_lifecycle s) rec")
      case False
      define rec1 where "rec1 = (if isTerminalStatus (status_of rec) then finalizeRunStorage (rs_lifecycle s) rec else rec)"
      have g: "rs_Get k (drop_expired now s) = Some rec1" "status_of rec1 = status_of rec"
        using False r by (simp_all add: drop_expired_get [OF assms] rec1_def)
      then show ?thesis using n e [OF _ g(1)] by (simp split: if_splits)
    qed (simp add: expired_def)
  qed
qed

subsection \<open>Creation and start\<close>

lemma Create_cases:
  "(\<exists>e. rs_Create parse gen now i input s = (Inl e, s)) \<or>
   (\<exists>k rec. rs_Create parse gen now i input s = (Inr rec, put_run k rec s) \<and> rs_Get k s = None \<and> rr_Run rec = new_run k now)"
proof -
  define k where "k = (if i = [] then gen else i)"
  show ?thesis
  proof (cases "validateBatchOptimizationInput parse input")
    case (Inr u)
    show ?thesis
    proof (cases "CHR '':'' \<in> set k \<or> CHR ''/'' \<in> set k \<or> gm_get (rs_runs s) k \<noteq> None")
      case False
      show ?thesis
      proof (cases "PrepareOnlineRunInput input (rs_onlineLimits s)")
        case (Inr b)
        define rec where "rec = \<lparr>rr_Run = new_run k now, rr_Input = b, rr_Metrics = None, rr_Collector = None :: 'a option,
          rr_IsOptimizationChild = has_prefix k ''opt-'', rr_OptimizationHistory = [], rr_FinalConfig = None :: 'b option\<rparr>"
        have "rs_Create parse gen now i input s = (Inr rec, put_run k rec s)" "rs_Get k s = None" "rr_Run rec = new_run k now"
          using False Inr \<open>validateBatchOptimizationInput parse input = Inr u\<close>
          by (simp_all add: rs_Create_def k_def [symmetric] put_run_def rs_Get_def rec_def Let_def)
        then show ?thesis by blast
      qed (use False Inr in \<open>simp add: rs_Create_def k_def [symmetric]\<close>)
    qed (use Inr in \<open>auto simp: rs_Create_def k_def [symmetric]\<close>)
  qed (simp add: rs_Create_def)
qed

lemma count_new: "gm_get m k = None \<Longrightarrow> length (filter P (gm_put k v m)) = length (filter P m) + (if P (k, v) then 1 else 0)"
  by (simp add: gm_put_fresh)

lemma count_replace: "length (filter (\<lambda>kr. P (snd kr)) (gm_put k v m)) \<le> length (filter (\<lambda>kr. P (snd kr)) m) + 1"
  by (induction m) auto

lemma Create_inv:
  assumes "store_inv s"
  shows "store_inv (snd (rs_Create parse gen now i input s)) \<and> removes_ended s (snd (rs_Create parse gen now i input s)) \<and>
    (\<forall>j rec. rs_Get j s = Some rec \<longrightarrow> rs_Get j (snd (rs_Create parse gen now i input s)) = Some rec)"
  using Create_cases [of parse gen now i input s]
proof (elim disjE exE conjE)
  fix k rec
  assume new: "rs_Create parse gen now i input s = (Inr rec, put_run k rec s)" "rs_Get k s = None" "rr_Run rec = new_run k now"
  have "\<not> running_online rec" using new(3) by (simp add: running_online_def new_run_def)
  then have "CountRunningOnline (put_run k rec s) = CountRunningOnline s"
    using new(2) by (simp add: CountRunningOnline_def count_runs_def put_run_def rs_Get_def count_new)
  then have "store_inv (put_run k rec s)" using assms new(3) by (simp add: store_inv_def rs_Get_def put_run_def new_run_def)
  then show ?thesis using new put_keeps [of s k rec] by (auto simp: rs_Get_def put_run_def)
qed (use assms in simp)

lemma Start_cases:
  "(\<exists>r. SetStatusRunningWithOnlineConcurrencyGuard now i s = (r, s)) \<or>
   (\<exists>rec. rs_Get i s = Some rec \<and> status_of rec \<noteq> RUN_STATUS_RUNNING \<and> \<not> isTerminalStatus (status_of rec) \<and>
     (online_input (rr_Input rec) \<and> 0 < ol_MaxConcurrentOnlineRuns (rs_onlineLimits s) \<longrightarrow>
        int (CountRunningOnline s) < ol_MaxConcurrentOnlineRuns (rs_onlineLimits s)) \<and>
     snd (SetStatusRunningWithOnlineConcurrencyGuard now i s) = put_run i (rec\<lparr>rr_Run := started now (rr_Run rec)\<rparr>) s)"
  by (cases "rs_Get i s") (auto simp: SetStatusRunningWithOnlineConcurrencyGuard_def rs_Get_def Let_def not_le)

lemma Start_inv:
  assumes "store_inv s"
  shows "store_inv (snd (SetStatusRunningWithOnlineConcurrencyGuard now i s)) \<and>
    removes_ended s (snd (SetStatusRunningWithOnlineConcurrencyGuard now i s)) \<and>
    (\<forall>j rec rec'. rs_Get j s = Some rec \<and> rs_Get j (snd (SetStatusRunningWithOnlineConcurrencyGuard now i s)) = Some rec' \<longrightarrow>
       xr_CreatedAtUnixMs (rr_Run rec') = xr_CreatedAtUnixMs (rr_Run rec) \<and> stage (status_of rec) \<le> stage (status_of rec'))"
  using Start_cases [of now i s]
proof (elim disjE exE conjE)
  fix rec :: "('a, 'b) run_record"
  let ?rec = "rec\<lparr>rr_Run := started now (rr_Run rec)\<rparr>"
  assume g: "rs_Get i s = Some rec" and st: "\<not> isTerminalStatus (status_of rec)"
    and c: "online_input (rr_Input rec) \<and> 0 < ol_MaxConcurrentOnlineRuns (rs_onlineLimits s) \<longrightarrow>
        int (CountRunningOnline s) < ol_MaxConcurrentOnlineRuns (rs_onlineLimits s)"
    and s': "snd (SetStatusRunningWithOnlineConcurrencyGuard now i s) = put_run i ?rec s"
  have cnt: "0 < ol_MaxConcurrentOnlineRuns (rs_onlineLimits s) \<Longrightarrow>
      int (CountRunningOnline (put_run i ?rec s)) \<le> ol_MaxConcurrentOnlineRuns (rs_onlineLimits s)"
  proof (cases "online_input (rr_Input rec)")
    case True
    assume "0 < ol_MaxConcurrentOnlineRuns (rs_onlineLimits s)"
    then show ?thesis using True c count_replace [of running_online i ?rec "rs_runs s"]
      by (simp add: CountRunningOnline_def count_runs_def put_run_def)
  next
    case False
    have ln: "length (filter (\<lambda>kr. running_online (snd kr)) (gm_put i ?rec m)) \<le> length (filter (\<lambda>kr. running_online (snd kr)) m)"
      if "\<not> running_online ?rec" for m
      using that by (induction m) auto
    assume "0 < ol_MaxConcurrentOnlineRuns (rs_onlineLimits s)"
    then show ?thesis using False assms ln [of "rs_runs s"]
      by (simp add: CountRunningOnline_def count_runs_def put_run_def store_inv_def running_online_def)
  qed
  have st1: "stage (status_of rec) \<le> stage (status_of ?rec)" "xr_CreatedAtUnixMs (rr_Run ?rec) = xr_CreatedAtUnixMs (rr_Run rec)"
      "xr_Id (rr_Run ?rec) = xr_Id (rr_Run rec)"
    using st by (auto simp: stage_def started_def isTerminalStatus_def)
  have "store_inv (put_run i ?rec s)"
    using assms g cnt st1(3) by (auto simp: store_inv_def put_run_def rs_Get_def CountRunningOnline_def count_runs_def)
  moreover have "rs_Get j (put_run i ?rec s) = (if j = i then Some ?rec else rs_Get j s)" for j
    by (simp add: put_run_def rs_Get_def)
  ultimately show ?thesis unfolding s' using g st1(1,2) put_keeps [of s i ?rec] by auto
qed (use assms in auto)

lemma shrinks_forward:
  "shrinks s s' \<Longrightarrow> rs_Get j s = Some rec \<Longrightarrow> rs_Get j s' = Some rec' \<Longrightarrow>
   xr_CreatedAtUnixMs (rr_Run rec') = xr_CreatedAtUnixMs (rr_Run rec) \<and> stage (status_of rec) \<le> stage (status_of rec')"
  by (fastforce simp: shrinks_def evolves_def)

definition step_ok :: "('c, 'f) run_store \<Rightarrow> ('c, 'f) run_store \<Rightarrow> bool" where
  "step_ok s s' \<longleftrightarrow> store_inv s' \<and> removes_ended s s' \<and> rs_onlineLimits s' = rs_onlineLimits s \<and>
     (\<forall>j rec rec'. rs_Get j s = Some rec \<and> rs_Get j s' = Some rec' \<longrightarrow>
       xr_CreatedAtUnixMs (rr_Run rec') = xr_CreatedAtUnixMs (rr_Run rec) \<and> stage (status_of rec) \<le> stage (status_of rec'))"

lemma shrinks_step:
  assumes "store_inv s" "shrinks s s'" "removes_ended s s'"
  shows "step_ok s s'"
proof -
  have "rs_onlineLimits s' = rs_onlineLimits s" using assms(2) by (simp add: shrinks_def)
  then show ?thesis unfolding step_ok_def using assms(3) shrinks_inv [OF assms(1,2)] shrinks_forward [OF assms(2)] by blast
qed

lemma update_step: "store_inv s \<Longrightarrow> (\<And>rec. evolves rec (g rec)) \<Longrightarrow> step_ok s (snd (update_run i g s))"
  by (intro shrinks_step update_run_shrinks update_run_keeps)

lemma limits_frame:
  "rs_onlineLimits (snd (rs_Create parse gen now i input s)) = rs_onlineLimits s"
  "rs_onlineLimits (snd (SetStatusRunningWithOnlineConcurrencyGuard now i s)) = rs_onlineLimits s"
  using Create_cases [of parse gen now i input s] Start_cases [of now i s] by (auto simp: put_run_def)

lemma SetStatus_keeps: "removes_ended s (snd (SetStatus now i status msg s))"
  by (auto simp: SetStatus_def Let_def put_keeps split: option.splits)

lemma rs_step_ok: "rs_step s s' \<Longrightarrow> store_inv s \<Longrightarrow> step_ok s s'"
proof (induction rule: rs_step.induct)
  case (create s parse generated now runID input)
  then show ?case using Create_inv [of s parse generated now runID input] by (auto simp: step_ok_def limits_frame)
next
  case (start s now runID)
  then show ?case using Start_inv [of s now runID] by (auto simp: step_ok_def limits_frame)
next
  case (finish status s now runID msg)
  then show ?case by (intro shrinks_step SetStatus_shrinks SetStatus_keeps)
next
  case (trim s runID best)
  then show ?case by (intro shrinks_step Trim_shrinks Trim_removes)
next
  case (cleanup s now)
  then show ?case by (intro shrinks_step Cleanup_shrinks Cleanup_removes)
next
  case (append s runID st)
  then show ?case by (cases st) (auto simp: AppendOptimizationStep_def evolves_def running_online_def step_ok_def [of s s] intro!: update_step)
qed (simp_all add: SetOnlineCompletionReason_def SetMetrics_def SetFinalConfiguration_def SetBatchRecommendation_def SetOptimizationResult_def
  SetOptimizationProgress_def SetCollector_def Let_def update_step evolves_def running_online_def)

definition rs_reachable :: "online_run_limits \<Rightarrow> lifecycle_config \<Rightarrow> ('c, 'f) run_store \<Rightarrow> bool" where
  "rs_reachable l lc s \<longleftrightarrow> rs_step\<^sup>*\<^sup>* (SetOnlineLimits l (NewRunStore lc)) s"

lemma rs_reachable_inv:
  assumes "rs_reachable l lc s"
  shows "store_inv s \<and> rs_onlineLimits s = l"
  using assms unfolding rs_reachable_def
proof (induction rule: rtranclp_induct)
  case base
  show ?case by (simp add: store_inv_def SetOnlineLimits_def NewRunStore_def rs_Get_def CountRunningOnline_def count_runs_def)
next
  case (step s s')
  then show ?case using rs_step_ok [of s s'] by (simp add: step_ok_def)
qed

text \<open>C7: the life of a run. In every reachable store at most the configured number of online runs is running at the same
  time and every run is stored under its own identifier. A step never takes a run back: a run that has ended stays ended, one that is
  running keeps running or ends, its creation time stays, and only a run that has ended disappears.\<close>

theorem run_lifecycle:
  assumes "rs_reachable l lc s" "rs_step s s'"
  shows "(0 < ol_MaxConcurrentOnlineRuns l \<longrightarrow> int (CountRunningOnline s') \<le> ol_MaxConcurrentOnlineRuns l) \<and>
    (\<forall>i rec. rs_Get i s' = Some rec \<longrightarrow> xr_Id (rr_Run rec) = i) \<and>
    (\<forall>i rec. rs_Get i s = Some rec \<longrightarrow>
       (case rs_Get i s' of
          None \<Rightarrow> isTerminalStatus (status_of rec)
        | Some rec' \<Rightarrow> xr_CreatedAtUnixMs (rr_Run rec') = xr_CreatedAtUnixMs (rr_Run rec) \<and>
            (isTerminalStatus (status_of rec) \<longrightarrow> isTerminalStatus (status_of rec')) \<and>
            (status_of rec = RUN_STATUS_RUNNING \<longrightarrow> status_of rec' = RUN_STATUS_RUNNING \<or> isTerminalStatus (status_of rec'))))"
proof -
  have i: "store_inv s" "rs_onlineLimits s = l" using rs_reachable_inv [OF assms(1)] by auto
  note ok = rs_step_ok [OF assms(2) i(1)]
  have st: "stage a \<le> stage b \<Longrightarrow> (isTerminalStatus a \<longrightarrow> isTerminalStatus b) \<and>
      (a = RUN_STATUS_RUNNING \<longrightarrow> b = RUN_STATUS_RUNNING \<or> isTerminalStatus b)" for a b
    by (auto simp: stage_def isTerminalStatus_def split: if_splits)
  have stays: "xr_CreatedAtUnixMs (rr_Run rec') = xr_CreatedAtUnixMs (rr_Run rec) \<and>
      (isTerminalStatus (status_of rec) \<longrightarrow> isTerminalStatus (status_of rec')) \<and>
      (status_of rec = RUN_STATUS_RUNNING \<longrightarrow> status_of rec' = RUN_STATUS_RUNNING \<or> isTerminalStatus (status_of rec'))"
    if "rs_Get i s = Some rec" "rs_Get i s' = Some rec'" for i rec rec'
    using ok that st [of "status_of rec" "status_of rec'"] unfolding step_ok_def by blast
  have gone: "isTerminalStatus (status_of rec)" if "rs_Get i s = Some rec" "rs_Get i s' = None" for i rec
    using ok that unfolding step_ok_def removes_ended_def by blast
  show ?thesis using ok i(2) stays gone unfolding step_ok_def store_inv_def by (auto split: option.splits)
qed

subsection \<open>Retention is exact\<close>

lemma filter_not_taken:
  assumes "distinct (map fst ys)"
  shows "filter (\<lambda>kv. fst kv \<notin> fst ` set (take n ys)) ys = drop n ys"
proof -
  have d: "distinct (map fst (take n ys @ drop n ys))" using assms by (simp only: append_take_drop_id)
  have "filter (\<lambda>kv. fst kv \<notin> fst ` set (take n ys)) (take n ys @ drop n ys) = drop n ys"
  proof -
    have "filter (\<lambda>kv. fst kv \<notin> fst ` set (take n ys)) (take n ys) = []" by (auto simp: filter_empty_conv)
    moreover have "filter (\<lambda>kv. fst kv \<notin> fst ` set (take n ys)) (drop n ys) = drop n ys"
      using d by (simp only: map_append distinct_append set_map) (auto simp: filter_id_conv disjoint_iff)
    ultimately show ?thesis by (simp only: filter_append append_Nil)
  qed
  then show ?thesis by simp
qed

definition live_terminal :: "int \<Rightarrow> ('c, 'f) run_store \<Rightarrow> (string \<times> ('c, 'f) run_record) list" where
  "live_terminal now s = filter (\<lambda>(k, rec). isTerminalStatus (status_of rec) \<and> \<not> expired now (rs_lifecycle s) rec) (rs_runs s)"

lemma length_terminal_dropped: "length (terminal_runs (drop_expired now s)) = length (live_terminal now s)"
proof -
  have "length (filter (\<lambda>(k, rec). isTerminalStatus (status_of rec)) (map (\<lambda>(k, rec). (k, if isTerminalStatus (status_of rec)
        then finalizeRunStorage lc rec else rec)) (filter (\<lambda>(k, rec). \<not> expired now lc rec) xs))) =
      length (filter (\<lambda>(k, rec). isTerminalStatus (status_of rec) \<and> \<not> expired now lc rec) xs)"
    for xs :: "(string \<times> ('a, 'b) run_record) list" and lc
    by (induction xs) (auto split: if_splits)
  then show ?thesis by (simp add: terminal_runs_def drop_expired_def live_terminal_def)
qed

lemma terminal_cleanup:
  "terminal_runs (CleanupNow now s) = filter (\<lambda>kv. fst kv \<notin> set (evicted_ids (drop_expired now s))) (terminal_runs (drop_expired now s))"
  by (simp add: terminal_runs_def CleanupNow_def Let_def split_def conj_commute)

lemma eviction_split:
  fixes s :: "('c, 'f) run_store" and now :: int
  defines "t \<equiv> terminal_runs (drop_expired now s)" and "cap \<equiv> lc_MaxTerminalRuns (rs_lifecycle s)"
  assumes "store_inv s"
  shows "\<exists>n. mset (terminal_runs (CleanupNow now s)) = mset (drop n (eviction_order t)) \<and>
     set (evicted_ids (drop_expired now s)) = fst ` set (take n (eviction_order t)) \<and>
     n = (if 0 < cap then length t - nat cap else 0)"
proof -
  define n where "n = (if 0 < cap then length t - nat cap else 0)"
  have "store_inv (drop_expired now s)" using drop_expired_shrinks shrinks_inv assms(3) by blast
  then have "gm_ok t" unfolding t_def terminal_runs_def store_inv_def by (simp add: distinct_map_filter)
  moreover have ms: "mset (eviction_order t) = mset t" by (simp add: eviction_order_def)
  ultimately have d: "distinct (map fst (eviction_order t))" by (metis mset_eq_imp_distinct_iff mset_map)
  have cap: "lc_MaxTerminalRuns (rs_lifecycle (drop_expired now s)) = cap" by (simp add: cap_def drop_expired_def)
  have e: "set (evicted_ids (drop_expired now s)) = fst ` set (take n (eviction_order t))"
    by (auto simp: evicted_ids_def Let_def t_def [symmetric] cap n_def)
  have "mset (terminal_runs (CleanupNow now s)) = mset (filter (\<lambda>kv. fst kv \<notin> fst ` set (take n (eviction_order t))) t)"
    unfolding terminal_cleanup e t_def [symmetric] ..
  also have "\<dots> = mset (filter (\<lambda>kv. fst kv \<notin> fst ` set (take n (eviction_order t))) (eviction_order t))"
    using ms by (simp add: mset_filter)
  also have "\<dots> = mset (drop n (eviction_order t))" using filter_not_taken [OF d, of n] by simp
  finally show ?thesis using e n_def by blast
qed

lemma finalize_key [simp]:
  "rr_IsOptimizationChild (finalizeRunStorage lc rec) = rr_IsOptimizationChild rec" "ended_at (finalizeRunStorage lc rec) = ended_at rec"
  by (simp_all add: finalizeRunStorage_def ended_at_def Let_def)

lemma dropped_live:
  assumes "store_inv s" "rs_Get i (drop_expired now s) = Some rec'" "isTerminalStatus (status_of rec')"
  obtains rec where "rs_Get i s = Some rec" "isTerminalStatus (status_of rec)" "\<not> expired now (rs_lifecycle s) rec"
    "ended_at rec' = ended_at rec" "rr_IsOptimizationChild rec' = rr_IsOptimizationChild rec"
proof (cases "rs_Get i s")
  case None
  then show ?thesis using assms(2) by (simp add: drop_expired_get [OF assms(1)])
next
  case (Some rec)
  then have r: "\<not> expired now (rs_lifecycle s) rec"
      "rec' = (if isTerminalStatus (status_of rec) then finalizeRunStorage (rs_lifecycle s) rec else rec)"
    using assms(2) by (simp_all add: drop_expired_get [OF assms(1)] split: if_splits)
  then have "isTerminalStatus (status_of rec)" using assms(3) by presburger
  then show ?thesis using that [OF Some] r by simp
qed

text \<open>C14: cleaning up removes exactly what it should. Runs that have not ended are untouched; a run that has ended and is kept has
  not outlived the retention time; with a positive limit exactly the smaller of the limit and the number of ended runs within
  the retention time is kept; and a run that is evicted although it is within the retention time does not rank above a kept one:
  optimization candidates go before other runs, and among the same kind the one that ended earlier.\<close>

theorem cleanup_exact:
  assumes "rs_reachable l lc s"
  shows "(\<forall>i rec. rs_Get i s = Some rec \<and> \<not> isTerminalStatus (status_of rec) \<longrightarrow> rs_Get i (CleanupNow now s) = Some rec) \<and>
    (\<forall>i rec. rs_Get i (CleanupNow now s) = Some rec \<and> isTerminalStatus (status_of rec) \<and> 0 < lc_TTL (rs_lifecycle s) \<longrightarrow>
       now - ended_at rec < ms_of (lc_TTL (rs_lifecycle s))) \<and>
    (0 < lc_MaxTerminalRuns (rs_lifecycle s) \<longrightarrow>
       length (terminal_runs (CleanupNow now s)) = min (nat (lc_MaxTerminalRuns (rs_lifecycle s))) (length (live_terminal now s))) \<and>
    (\<forall>i a j b. (i, a) \<in> set (live_terminal now s) \<and> rs_Get i (CleanupNow now s) = None \<and>
       rs_Get j (CleanupNow now s) = Some b \<and> isTerminalStatus (status_of b) \<longrightarrow>
       (rr_IsOptimizationChild b \<longrightarrow> rr_IsOptimizationChild a) \<and>
       (rr_IsOptimizationChild a = rr_IsOptimizationChild b \<longrightarrow> ended_at a \<le> ended_at b))"
proof -
  have inv: "store_inv s" using rs_reachable_inv [OF assms] by simp
  then have inv1: "store_inv (drop_expired now s)" using drop_expired_shrinks shrinks_inv by blast
  note get = Cleanup_get [OF inv, of _ now] drop_expired_get [OF inv, of _ now]
  define t where "t = terminal_runs (drop_expired now s)"
  obtain n where n: "mset (terminal_runs (CleanupNow now s)) = mset (drop n (eviction_order t))"
      "set (evicted_ids (drop_expired now s)) = fst ` set (take n (eviction_order t))"
      "n = (if 0 < lc_MaxTerminalRuns (rs_lifecycle s) then length t - nat (lc_MaxTerminalRuns (rs_lifecycle s)) else 0)"
    using eviction_split [OF inv, of now] unfolding t_def by blast
  have sorted: "sorted (map eviction_key (take n (eviction_order t) @ drop n (eviction_order t)))" by (simp add: eviction_order_def)
  have ok1: "gm_ok (rs_runs (drop_expired now s))" using inv1 by (simp add: store_inv_def)
  have untouched: "rs_Get i (CleanupNow now s) = Some rec" if "rs_Get i s = Some rec" "\<not> isTerminalStatus (status_of rec)" for i rec
  proof -
    have d: "rs_Get i (drop_expired now s) = Some rec" using that by (simp add: get(2) expired_def)
    then show ?thesis using evicted_terminal [OF ok1 _ d] that by (auto simp: get(1))
  qed
  have fresh: "now - ended_at rec < ms_of (lc_TTL (rs_lifecycle s))"
    if r: "rs_Get i (CleanupNow now s) = Some rec" "isTerminalStatus (status_of rec)" "0 < lc_TTL (rs_lifecycle s)" for i rec
  proof -
    have "rs_Get i (drop_expired now s) = Some rec" using r(1) by (simp add: get(1) split: if_splits)
    then obtain rec0 where "rs_Get i s = Some rec0" "isTerminalStatus (status_of rec0)" "\<not> expired now (rs_lifecycle s) rec0"
      "ended_at rec = ended_at rec0" "rr_IsOptimizationChild rec = rr_IsOptimizationChild rec0"
      using r(2) by (rule dropped_live [OF inv])
    then show ?thesis using r(3) by (simp add: expired_def)
  qed
  have len: "length (terminal_runs (CleanupNow now s)) = min (nat (lc_MaxTerminalRuns (rs_lifecycle s))) (length (live_terminal now s))"
    if "0 < lc_MaxTerminalRuns (rs_lifecycle s)"
  proof -
    have "length (terminal_runs (CleanupNow now s)) = length t - n"
      using mset_eq_length [OF n(1)] by simp
    then show ?thesis using n(3) that length_terminal_dropped [of now s] by (simp add: t_def min_def)
  qed
  have rank: "(rr_IsOptimizationChild b \<longrightarrow> rr_IsOptimizationChild a) \<and> (rr_IsOptimizationChild a = rr_IsOptimizationChild b \<longrightarrow> ended_at a \<le> ended_at b)"
    if a: "(i, a) \<in> set (live_terminal now s)" "rs_Get i (CleanupNow now s) = None"
      and b: "rs_Get j (CleanupNow now s) = Some b" "isTerminalStatus (status_of b)" for i a j b
  proof -
    define a1 where "a1 = finalizeRunStorage (rs_lifecycle s) a"
    have a0: "(i, a) \<in> set (rs_runs s)" "isTerminalStatus (status_of a)" "\<not> expired now (rs_lifecycle s) a"
      using a(1) by (simp_all add: live_terminal_def)
    then have "rs_Get i s = Some a" using inv by (simp add: rs_Get_def store_inv_def)
    then have a1: "rs_Get i (drop_expired now s) = Some a1" using a0 by (simp add: get(2) a1_def)
    then have "i \<in> set (evicted_ids (drop_expired now s))" using a(2) by (simp add: get(1) split: if_splits)
    then obtain a2 where a2: "(i, a2) \<in> set (take n (eviction_order t))" unfolding n(2) by force
    then have "(i, a2) \<in> set (rs_runs (drop_expired now s))"
      using in_set_takeD [OF a2] by (simp add: t_def terminal_runs_def)
    then have "a2 = a1" using a1 ok1 by (simp add: rs_Get_def)
    moreover have "(j, b) \<in> set (terminal_runs (CleanupNow now s))"
      using b map_of_SomeD [of "rs_runs (CleanupNow now s)" j b] by (simp add: terminal_runs_def rs_Get_def)
    then have "(j, b) \<in> set (drop n (eviction_order t))" using mset_eq_setD [OF n(1)] by blast
    ultimately have "eviction_key (i, a1) \<le> eviction_key (j, b)" using sorted a2 unfolding map_append sorted_append set_map by blast
    then show ?thesis by (simp add: eviction_key_def a1_def split: if_splits)
  qed
  show ?thesis using untouched fresh len rank by blast
qed

text \<open>A candidate of an optimization and another run, both ended, in a store that retains one run.\<close>

definition demo_lifecycle :: lifecycle_config where
  "demo_lifecycle = defaultRunStoreLifecycleConfig\<lparr>lc_MaxTerminalRuns := 1\<rparr>"

abbreviation demo_created :: "(unit, unit) run_store" where
  "demo_created \<equiv> snd (rs_Create (\<lambda>_. Inl (Err [])) [] 2 ''r2'' None
     (snd (rs_Create (\<lambda>_. Inl (Err [])) [] 1 ''opt-1'' None (SetOnlineLimits DefaultOnlineRunLimits (NewRunStore demo_lifecycle)))))"

abbreviation demo_ended :: "(unit, unit) run_store" where
  "demo_ended \<equiv> snd (SetStatus 4 ''r2'' RUN_STATUS_STOPPED [] (snd (SetStatus 3 ''opt-1'' RUN_STATUS_COMPLETED [] demo_created)))"

lemma reachable_init: "rs_reachable l lc (SetOnlineLimits l (NewRunStore lc))"
  by (simp add: rs_reachable_def)

lemma reachable_step: "rs_reachable l lc s \<Longrightarrow> rs_step s s' \<Longrightarrow> rs_reachable l lc s'"
  unfolding rs_reachable_def by (rule rtranclp.rtrancl_into_rtrancl)

lemmas reachable_create = reachable_step [OF _ rs_step.create]
lemmas reachable_finish = reachable_step [OF _ rs_step.finish]

lemma demo_ended_reachable: "rs_reachable DefaultOnlineRunLimits demo_lifecycle demo_ended"
  by (rule reachable_finish, rule reachable_finish, rule reachable_create, rule reachable_create, rule reachable_init)
    (simp_all add: isTerminalStatus_def)

lemmas demo_store_defs = rs_Create_def validateBatchOptimizationInput_def PrepareOnlineRunInput_def SetOnlineLimits_def NewRunStore_def new_run_def
  SetStatus_def put_run_def finalizeRunStorage_def isTerminalStatus_def demo_lifecycle_def defaultRunStoreLifecycleConfig_def
  has_prefix_def

lemma demo_ended_facts:
  "length (live_terminal 5 demo_ended) = 2" "lc_MaxTerminalRuns (rs_lifecycle demo_ended) = 1"
  "\<exists>rec. rs_Get ''r2'' demo_ended = Some rec \<and> isTerminalStatus (status_of rec) \<and> xr_CreatedAtUnixMs (rr_Run rec) = 2"
  by (simp_all add: demo_store_defs Let_def live_terminal_def expired_def ended_at_def ms_of_def go_div_def rs_Get_def)

theorem run_lifecycle_witness:
  "\<exists>rec. rs_Get ''r2'' demo_ended = Some rec \<and> isTerminalStatus (status_of rec) \<and>
     (case rs_Get ''r2'' (snd (SetStatusRunningWithOnlineConcurrencyGuard 5 ''r2'' demo_ended)) of
        None \<Rightarrow> True | Some rec' \<Rightarrow> xr_CreatedAtUnixMs (rr_Run rec') = 2 \<and> isTerminalStatus (status_of rec'))"
proof -
  obtain rec where rec: "rs_Get ''r2'' demo_ended = Some rec" "isTerminalStatus (status_of rec)" "xr_CreatedAtUnixMs (rr_Run rec) = 2"
    using demo_ended_facts(3) by blast
  have "rs_step demo_ended (snd (SetStatusRunningWithOnlineConcurrencyGuard 5 ''r2'' demo_ended))" by (rule rs_step.start)
  note run_lifecycle [OF demo_ended_reachable this, THEN conjunct2, THEN conjunct2, THEN spec, THEN spec, THEN mp, OF rec(1)]
  then show ?thesis using rec by (auto split: option.splits)
qed

theorem cleanup_exact_witness: "length (terminal_runs (CleanupNow 5 demo_ended)) = 1"
  using cleanup_exact [OF demo_ended_reachable, of 5, THEN conjunct2, THEN conjunct2, THEN conjunct1] unfolding demo_ended_facts by simp

end
