(* ===== verification/Spec2Isabelle.thy ===== *)
theory Spec2Isabelle
  imports Sim_Engine Sim_Utils Policies Interaction Resource_Contracts Improve_Optimizer Improve_Selection Batch_Beam Run_Store
begin

text \<open>
  A verification library for a discrete-event simulator of microservice systems, written in Go. File names below are
  relative to the root of the repository.

  \<^bold>\<open>The program.\<close> A scenario (\<^verbatim>\<open>pkg/config\<close>) declares hosts, services with endpoints and downstream calls, workload and
  policies. The engine (\<^verbatim>\<open>internal/engine\<close>) runs events in the order of a heap queue and hands them to handlers. Handlers ask
  the interaction manager (\<^verbatim>\<open>internal/interaction\<close>) which calls an endpoint makes, the policies (\<^verbatim>\<open>internal/policy\<close>) whether
  a request may proceed, and the resource manager (\<^verbatim>\<open>internal/resource\<close>) where it runs: on an instance of a service placed on a
  host, or through the broker queue of a queue or topic service. The improvement package (\<^verbatim>\<open>internal/improvement\<close>, with
  \<^verbatim>\<open>internal/batchspec\<close>) searches for better scenarios by running candidates and scoring their
  metrics. The server (\<^verbatim>\<open>internal/simd\<close>) stores runs, checks requests against its limits and executes them.

  \<^bold>\<open>Foundations.\<close>
  \<^item> \<^verbatim>\<open>Go_Prelude\<close>: machine integers with wrap-around, times and durations in nanoseconds, strings, Go maps as association
    lists whose order is the order of a \<open>range\<close>, errors and panics as values.
  \<^item> \<^verbatim>\<open>Go_Float\<close>: \<open>float64\<close> as the rationals with rounding to 53 bits, nearest even, after each operation; rounding is monotone,
    exact on small integers and idempotent. Infinities and NaN are not modelled and the exponent is not bounded.
  \<^item> \<^verbatim>\<open>Go_Heap\<close>: \<open>container/heap\<close> on lists, with a locale for a comparison that is a strict weak order; \<^verbatim>\<open>Go_Hash\<close>: FNV-1a;
    \<^verbatim>\<open>Go_Strconv\<close>: decimal printing and its injectivity.
  \<^item> \<^verbatim>\<open>Sim_Models\<close>, \<^verbatim>\<open>Sim_Proto\<close>, \<^verbatim>\<open>Scenario_Types\<close>: the records of \<^verbatim>\<open>pkg/models\<close>, of the protocol messages
    (\<^verbatim>\<open>gen/go/simulation/v1\<close>) and of the scenario. \<^verbatim>\<open>Sim_Utils\<close>: \<^verbatim>\<open>pkg/utils\<close>, with the bounds of percentiles and clamps.

  \<^bold>\<open>The engine.\<close> \<^verbatim>\<open>Event_Queue\<close> (\<^verbatim>\<open>event.go\<close>): draining the heap sorts by time, priority and sequence. \<^verbatim>\<open>Run_Manager\<close>
  (\<^verbatim>\<open>run.go\<close>): the operations are an \<open>inductive\<close> step relation; in every reachable state the counters add up, samples are bounded
  and completing a run never panics. \<^verbatim>\<open>Sim_Engine\<close> (\<^verbatim>\<open>engine.go\<close>): scheduling, guardrails and the event loop, with handlers and
  the wall clock as parameters. The loop is a recursion over the ticks the
  environment supplies, one for each iteration; with a positive limit on processed events and handlers that
  never schedule into the past, one more tick than that limit is proved to be enough for \<open>Run\<close> to return.

  \<^bold>\<open>Scenarios.\<close> \<^verbatim>\<open>Scenario_Config\<close> and \<^verbatim>\<open>Scenario_Validation\<close> (\<^verbatim>\<open>loader.go\<close>, \<^verbatim>\<open>queue_behavior.go\<close>,
  \<^verbatim>\<open>topic_behavior.go\<close>, \<^verbatim>\<open>downstream.go\<close>, \<^verbatim>\<open>arrival.go\<close>): the validator accepts exactly the scenarios of a declarative contract, and validated targets resolve.
  \<^verbatim>\<open>Service_Graph\<close> and \<^verbatim>\<open>Interaction\<close>: the depth-first cycle check terminates and accepts exactly the acyclic synchronous
  call graphs, whatever the map order; call chains are bounded; resolution loses no call; a validated scenario never selects
  a call that cannot be resolved.

  \<^bold>\<open>Policies.\<close> \<^verbatim>\<open>Rate_Limiter\<close>, \<^verbatim>\<open>Circuit_Breaker\<close> and \<^verbatim>\<open>Policies\<close>: token buckets stay within their capacity and grant
  exactly the burst they hold; the breaker refines an abstract three-state machine per endpoint; the backoff agrees with the
  mathematical one where it does not overflow; scaling moves towards the bound and stops there. The laws of the breaker's
  circuits are a locale, interpreted on these definitions.

  \<^bold>\<open>Resources.\<close> \<^verbatim>\<open>Service_Instance\<close>, \<^verbatim>\<open>Sim_Host\<close>, \<^verbatim>\<open>Broker_Queue\<close>: reservations are first in, first out and never overlap;
  the database pool is never overcommitted; brokers conserve messages and commit the least unprocessed offset.
  \<^verbatim>\<open>Resource_Manager\<close> holds the manager's state and all its operations (\<^verbatim>\<open>manager.go\<close>, \<^verbatim>\<open>routing.go\<close>, \<^verbatim>\<open>placement.go\<close>);
  \<^verbatim>\<open>Resource_Invariant\<close>, \<^verbatim>\<open>Resource_Properties\<close>, \<^verbatim>\<open>Resource_Capacity\<close>, \<^verbatim>\<open>Resource_Routing\<close> and \<^verbatim>\<open>Resource_Safety\<close> prove its
  invariant for every operation of a step relation; \<^verbatim>\<open>Resource_Contracts\<close> draws the consequences: no host is ever committed
  beyond its capacity, routing fails only without instances, scaling, draining and resizing do exactly what they promise.

  \<^bold>\<open>Improvement.\<close> \<^verbatim>\<open>Scenario_Clone\<close> (\<^verbatim>\<open>scenario_clone.go\<close>): a copy equals its original. \<^verbatim>\<open>Improve_Objective\<close>
  (\<^verbatim>\<open>objective.go\<close>, \<^verbatim>\<open>error_rate.go\<close>, \<^verbatim>\<open>comparison.go\<close>): scores, cost and comparisons. \<^verbatim>\<open>Improve_Optimizer\<close>
  (\<^verbatim>\<open>optimizer.go\<close>, \<^verbatim>\<open>exploration.go\<close>, \<^verbatim>\<open>convergence.go\<close>): the climb is a recursion over the iterations that are left, the
  evaluation function a parameter; it never gets worse, ends in a local optimum when it says so and keeps its budget.
  \<^verbatim>\<open>Improve_Selection\<close> (\<^verbatim>\<open>selection.go\<close>): the selected candidate is evaluated and least in its order. \<^verbatim>\<open>Batch_Spec\<close>
  (\<^verbatim>\<open>batchspec/spec.go\<close>): what the parser accepts satisfies the bounds the search relies on.
  \<^verbatim>\<open>Batch_Score\<close> (\<^verbatim>\<open>batch_score.go\<close>, \<^verbatim>\<open>candidate_store.go\<close>): a candidate is feasible exactly when it meets the limits,
  up to the tolerance; the order of candidates is antisymmetric but, as a lemma shows, not transitive. \<^verbatim>\<open>Batch_Search\<close>
  (\<^verbatim>\<open>batch_neighbors.go\<close>): neighbours stay inside the bounds. \<^verbatim>\<open>Batch_Beam\<close> (\<^verbatim>\<open>batch_search.go\<close>): the beam search recurses over
  the levels of depth that are left, so it ends; what it returns is the best of what it evaluated, within the budget. The hash of a
  configuration, the cancellation and the sort of a comparison that is not an order are arguments.

  \<^bold>\<open>Runs.\<close> \<^verbatim>\<open>Run_Limits\<close> (\<^verbatim>\<open>internal/simd/onlinelimits.go\<close>, \<^verbatim>\<open>limits.go\<close>, \<^verbatim>\<open>optimization_limits.go\<close>): requests are completed and
  checked against the limits of the server. \<^verbatim>\<open>Run_Store\<close> (\<^verbatim>\<open>internal/simd/runstore.go\<close>): the operations of the store are a
  step relation; in every reachable store the limit on concurrent online runs holds, no run goes back in its life cycle, and
  the cleanup keeps exactly the runs it should.

  \<^bold>\<open>Parameters.\<close> Random generators, the wall clock, handlers and evaluation functions are arguments of the definitions that use
  them; no assumption is made about them beyond the hypotheses written in a theorem. A method that runs under a mutex is one
  function; interleavings of such methods are sequences of steps.

  \<^bold>\<open>Not modelled.\<close> The YAML decoder, files, HTTP and gRPC servers, command line, logging and the generated accessors
  (input and output only); the event handlers and the executor of \<^verbatim>\<open>internal/simd\<close>, which combine the components above with random
  sampling, and durations read from the environment; random sampling and the workload generators that draw from \<open>math/rand\<close>; the variance strategy
  (\<open>math.Sqrt\<close>); the goroutines that run candidates in parallel; metric collection and calibration.
\<close>

end
